theory Spec2Isabelle
  imports Main "HOL-Library.Sublist"
begin

section \<open>Strings as the routes use them\<close>

text \<open>
  The listing route reads its parameters with three string operations of Python:
  \<^verbatim>\<open>'[OR]' in request_value\<close>, \<^verbatim>\<open>request_value.replace('[OR]', '')\<close> and
  \<^verbatim>\<open>request_value.split(',')\<close>. The separator of every \<^verbatim>\<open>split\<close> in the routes is
  the one character \<^verbatim>\<open>,\<close>, so the model splits at a character.
\<close>

fun str_split :: "char \<Rightarrow> string \<Rightarrow> string list" where
  "str_split sep [] = [[]]"
| "str_split sep (c # cs) =
     (if c = sep then [] # str_split sep cs
      else (case str_split sep cs of
              [] \<Rightarrow> [[c]]
            | w # ws \<Rightarrow> (c # w) # ws))"

fun str_contains :: "string \<Rightarrow> string \<Rightarrow> bool" where
  "str_contains sub [] = (sub = [])"
| "str_contains sub (c # cs) = (prefix sub (c # cs) \<or> str_contains sub cs)"

function str_replace :: "string \<Rightarrow> string \<Rightarrow> string \<Rightarrow> string" where
  "str_replace old new [] = (if old = [] then new else [])"
| "str_replace old new (c # cs) =
     (if old = [] then new @ c # str_replace old new cs
      else if prefix old (c # cs)
        then new @ str_replace old new (drop (length old) (c # cs))
      else c # str_replace old new cs)"
  by pat_completeness auto
termination
  by (relation "measure (\<lambda>(old, new, s). length s)") auto

definition OR_marker :: string where
  "OR_marker = ''[OR]''"

section \<open>The filter query planner of \<^verbatim>\<open>read_indicators\<close>\<close>

text \<open>
  The tables the planner can join to \<^verbatim>\<open>Indicator\<close>, named by the tags the source
  adds to \<^verbatim>\<open>already_joined\<close> and \<^verbatim>\<open>already_outerjoined\<close>.
\<close>

datatype table =
    IndicatorType | IndicatorConfidence | IndicatorImpact | IndicatorStatus
  | indicator_campaign_association | indicator_reference_association
  | indicator_tag_association | IntelReference | IntelSource | Tag | User

datatype join_kind = Inner | Outer

text \<open>The columns and relationships the filter expressions mention.\<close>

datatype column =
    Indicator_value | IndicatorConfidence_value | IndicatorImpact_value
  | IndicatorStatus_value | IndicatorType_value | IntelReference_reference
  | IntelSource_value | Tag_value | User_username

datatype bool_column = Indicator_case_sensitive | Indicator_substring

datatype time_expr = Literal int | Indicator_created_time | Indicator_modified_time

datatype relationship = Indicator_campaigns | Indicator_references | Indicator_tags

text \<open>
  A WHERE expression: \<open>Is\<close> is \<^verbatim>\<open>col.is_(arg)\<close>, \<open>Eq\<close> and \<open>Ne\<close> are
  \<^verbatim>\<open>col == v\<close> and \<^verbatim>\<open>col != v\<close>, \<open>Lt\<close> is \<^verbatim>\<open>a < b\<close> on timestamps, \<open>Like\<close> is
  \<^verbatim>\<open>col.like(pattern)\<close>, \<open>Any r None\<close> is \<^verbatim>\<open>r.any()\<close> and
  \<open>Any r (Some (c, v))\<close> is \<^verbatim>\<open>r.any(c == v)\<close>, \<open>Not\<close> is \<^verbatim>\<open>~\<close>, \<open>Or\<close> is
  \<^verbatim>\<open>or_(*list)\<close>. A HAVING expression: \<open>SumGt0 e\<close> is \<^verbatim>\<open>func.sum(e) > 0\<close> and
  \<open>HAnd\<close> is \<^verbatim>\<open>and_(*list)\<close>.
\<close>

datatype cond =
    Is bool_column "bool option"
  | Eq column string
  | Ne column string
  | Lt time_expr time_expr
  | Like column string
  | Any relationship "(column \<times> string) option"
  | Not cond
  | Or "cond list"

datatype hcond = SumGt0 cond | HAnd "hcond list"

text \<open>
  The local variables of \<^verbatim>\<open>read_indicators\<close> that the filter blocks mutate.
  \<open>join\<close> lists the joins applied, left to right, to \<^verbatim>\<open>Indicator\<close>; each table is
  always joined on the same condition in the source, so the step only records the kind
  of join and the table.
\<close>

record plan =
  filters :: "cond list"
  groupby :: bool
  having :: "hcond list"
  already_joined :: "table set"
  already_outerjoined :: "table set"
  join :: "(join_kind \<times> table) list"

type_synonym args = "string \<rightharpoonup> string"

text \<open>
  \<^verbatim>\<open>if 'T' not in already_joined: join = db.join(join, T, ...); already_joined.add('T')\<close>
  and the same with \<^verbatim>\<open>db.outerjoin\<close> and \<^verbatim>\<open>already_outerjoined\<close>.
\<close>

definition join_once :: "table \<Rightarrow> plan \<Rightarrow> plan" where
  "join_once t p =
     (if t \<notin> already_joined p
      then p\<lparr>join := join p @ [(Inner, t)], already_joined := insert t (already_joined p)\<rparr>
      else p)"

definition outerjoin_once :: "table \<Rightarrow> plan \<Rightarrow> plan" where
  "outerjoin_once t p =
     (if t \<notin> already_outerjoined p
      then p\<lparr>join := join p @ [(Outer, t)],
              already_outerjoined := insert t (already_outerjoined p)\<rparr>
      else p)"

definition add_filter :: "cond \<Rightarrow> plan \<Rightarrow> plan" where
  "add_filter f p = p\<lparr>filters := filters p @ [f]\<rparr>"

definition add_having :: "hcond \<Rightarrow> plan \<Rightarrow> plan" where
  "add_having h p = p\<lparr>having := having p @ [h]\<rparr>"

definition set_groupby :: "plan \<Rightarrow> plan" where
  "set_groupby p = p\<lparr>groupby := True\<rparr>"

text \<open>
  The state before the first filter block: \<^verbatim>\<open>Indicator\<close> joined to
  \<^verbatim>\<open>IndicatorType\<close>.
\<close>

definition initial_plan :: plan where
  "initial_plan =
     \<lparr>filters = [], groupby = False, having = [],
      already_joined = {IndicatorType}, already_outerjoined = {},
      join = [(Inner, IndicatorType)]\<rparr>"

text \<open>
  \<^verbatim>\<open>datetime.date.min\<close> and \<^verbatim>\<open>datetime.date.max\<close>, the days 0001-01-01 and
  9999-12-31, as seconds since 0001-01-01 00:00:00 (timestamps are integers here).
\<close>

definition date_min :: int where
  "date_min = 0"

definition date_max :: int where
  "date_max = 3652058 * 86400"

text \<open>
  Two collaborators are not in the repository's files and are parameters of the planner:
  \<open>parse ignoretz s\<close> is \<^verbatim>\<open>dateutil.parser.parse\<close>, \<open>None\<close> when it raises
  \<^verbatim>\<open>ValueError\<close> or \<^verbatim>\<open>OverflowError\<close>; \<open>parse_boolean s default\<close> is
  \<^verbatim>\<open>project.api.helpers.parse_boolean\<close>.
\<close>

type_synonym date_parser = "bool \<Rightarrow> string \<Rightarrow> int option"
type_synonym bool_parser = "string \<Rightarrow> bool option \<Rightarrow> bool option"

text \<open>The filter blocks, in the order of the source, one definition per block.\<close>

definition case_sensitive_filter :: "bool_parser \<Rightarrow> args \<Rightarrow> plan \<Rightarrow> plan" where
  "case_sensitive_filter parse_boolean a p =
     (case a ''case_sensitive'' of
        None \<Rightarrow> p
      | Some v \<Rightarrow> add_filter (Is Indicator_case_sensitive (parse_boolean v None)) p)"

definition confidence_filter :: "args \<Rightarrow> plan \<Rightarrow> plan" where
  "confidence_filter a p =
     (case a ''confidence'' of
        None \<Rightarrow> p
      | Some v \<Rightarrow> add_filter (Eq IndicatorConfidence_value v) (join_once IndicatorConfidence p))"

definition created_after_filter :: "date_parser \<Rightarrow> args \<Rightarrow> plan \<Rightarrow> plan" where
  "created_after_filter parse a p =
     (case a ''created_after'' of
        None \<Rightarrow> p
      | Some v \<Rightarrow>
          (let created_after = (case parse True v of Some d \<Rightarrow> d | None \<Rightarrow> date_max)
           in add_filter (Lt (Literal created_after) Indicator_created_time) p))"

definition created_before_filter :: "date_parser \<Rightarrow> args \<Rightarrow> plan \<Rightarrow> plan" where
  "created_before_filter parse a p =
     (case a ''created_before'' of
        None \<Rightarrow> p
      | Some v \<Rightarrow>
          (let created_before = (case parse True v of Some d \<Rightarrow> d | None \<Rightarrow> date_min)
           in add_filter (Lt Indicator_created_time (Literal created_before)) p))"

definition exact_value_filter :: "args \<Rightarrow> plan \<Rightarrow> plan" where
  "exact_value_filter a p =
     (case a ''exact_value'' of
        None \<Rightarrow> p
      | Some v \<Rightarrow> add_filter (Eq Indicator_value v) p)"

definition impact_filter :: "args \<Rightarrow> plan \<Rightarrow> plan" where
  "impact_filter a p =
     (case a ''impact'' of
        None \<Rightarrow> p
      | Some v \<Rightarrow> add_filter (Eq IndicatorImpact_value v) (join_once IndicatorImpact p))"

definition modified_after_filter :: "date_parser \<Rightarrow> args \<Rightarrow> plan \<Rightarrow> plan" where
  "modified_after_filter parse a p =
     (case a ''modified_after'' of
        None \<Rightarrow> p
      | Some v \<Rightarrow>
          (let modified_after = (case parse False v of Some d \<Rightarrow> d | None \<Rightarrow> date_max)
           in add_filter (Lt (Literal modified_after) Indicator_modified_time) p))"

definition modified_before_filter :: "date_parser \<Rightarrow> args \<Rightarrow> plan \<Rightarrow> plan" where
  "modified_before_filter parse a p =
     (case a ''modified_before'' of
        None \<Rightarrow> p
      | Some v \<Rightarrow>
          (let modified_before = (case parse False v of Some d \<Rightarrow> d | None \<Rightarrow> date_min)
           in add_filter (Lt Indicator_modified_time (Literal modified_before)) p))"

definition no_campaigns_filter :: "args \<Rightarrow> plan \<Rightarrow> plan" where
  "no_campaigns_filter a p =
     (case a ''no_campaigns'' of
        None \<Rightarrow> p
      | Some v \<Rightarrow>
          add_filter (Not (Any Indicator_campaigns None))
            (outerjoin_once indicator_campaign_association p))"

definition no_references_filter :: "args \<Rightarrow> plan \<Rightarrow> plan" where
  "no_references_filter a p =
     (case a ''no_references'' of
        None \<Rightarrow> p
      | Some v \<Rightarrow>
          add_filter (Not (Any Indicator_references None))
            (outerjoin_once indicator_reference_association p))"

definition no_tags_filter :: "args \<Rightarrow> plan \<Rightarrow> plan" where
  "no_tags_filter a p =
     (case a ''no_tags'' of
        None \<Rightarrow> p
      | Some v \<Rightarrow>
          add_filter (Not (Any Indicator_tags None))
            (outerjoin_once indicator_tag_association p))"

text \<open>\<^verbatim>\<open>for x in values: filters.append(f(x))\<close>\<close>

definition add_filters :: "cond list \<Rightarrow> plan \<Rightarrow> plan" where
  "add_filters fs p = foldl (\<lambda>q f. add_filter f q) p fs"

definition not_sources_filter :: "args \<Rightarrow> plan \<Rightarrow> plan" where
  "not_sources_filter a p =
     (case a ''not_sources'' of
        None \<Rightarrow> p
      | Some v \<Rightarrow>
          (let p1 = join_once indicator_reference_association p;
               p2 = join_once IntelReference p1;
               p3 = join_once IntelSource p2;
               p4 = set_groupby p3;
               not_sources = str_split CHR '','' v
           in add_filters (map (\<lambda>ns. Ne IntelSource_value ns) not_sources) p4))"

definition not_tags_filter :: "args \<Rightarrow> plan \<Rightarrow> plan" where
  "not_tags_filter a p =
     (case a ''not_tags'' of
        None \<Rightarrow> p
      | Some v \<Rightarrow>
          (let p1 = outerjoin_once indicator_tag_association p;
               p2 = set_groupby p1;
               not_tags = str_split CHR '','' v
           in add_filters
                (map (\<lambda>nt. Not (Any Indicator_tags (Some (Tag_value, nt)))) not_tags) p2))"

definition not_users_filter :: "args \<Rightarrow> plan \<Rightarrow> plan" where
  "not_users_filter a p =
     (case a ''not_users'' of
        None \<Rightarrow> p
      | Some v \<Rightarrow>
          (let p1 = join_once indicator_reference_association p;
               p2 = join_once IntelReference p1;
               p3 = join_once User p2;
               p4 = set_groupby p3;
               not_users = str_split CHR '','' v
           in add_filters (map (\<lambda>nu. Ne User_username nu) not_users) p4))"

definition reference_filter :: "args \<Rightarrow> plan \<Rightarrow> plan" where
  "reference_filter a p =
     (case a ''reference'' of
        None \<Rightarrow> p
      | Some reference \<Rightarrow>
          (let p1 = join_once indicator_reference_association p;
               p2 = set_groupby p1
           in add_filter
                (Any Indicator_references (Some (IntelReference_reference, reference))) p2))"

text \<open>
  The tail shared by the \<^verbatim>\<open>sources\<close>, \<^verbatim>\<open>tags\<close> and \<^verbatim>\<open>users\<close> blocks: find the
  list mode, strip the marker, split, and compile by the length of the list. The two
  modes are the strings \<^verbatim>\<open>'and'\<close> and \<^verbatim>\<open>'or'\<close> in the source.
\<close>

datatype list_mode = Mode_and | Mode_or

definition list_mode_of :: "string \<Rightarrow> list_mode \<times> string" where
  "list_mode_of request_value =
     (if str_contains OR_marker request_value
      then (Mode_or, str_replace OR_marker [] request_value)
      else (Mode_and, request_value))"

definition inclusion_list :: "column \<Rightarrow> string \<Rightarrow> plan \<Rightarrow> plan" where
  "inclusion_list col v p =
     (let (mode, request_value) = list_mode_of v;
          vals = str_split CHR '','' request_value
      in if length vals = 1 then add_filter (Eq col (vals ! 0)) p
         else if length vals > 1 then
           (case mode of
              Mode_and \<Rightarrow> add_having (HAnd (map (\<lambda>s. SumGt0 (Eq col s)) vals)) p
            | Mode_or \<Rightarrow> add_filter (Or (map (\<lambda>s. Eq col s) vals)) p)
         else p)"

definition sources_filter :: "args \<Rightarrow> plan \<Rightarrow> plan" where
  "sources_filter a p =
     (case a ''sources'' of
        None \<Rightarrow> p
      | Some v \<Rightarrow>
          (let p1 = join_once indicator_reference_association p;
               p2 = join_once IntelReference p1;
               p3 = join_once IntelSource p2;
               p4 = set_groupby p3
           in inclusion_list IntelSource_value v p4))"

definition status_filter :: "args \<Rightarrow> plan \<Rightarrow> plan" where
  "status_filter a p =
     (case a ''status'' of
        None \<Rightarrow> p
      | Some v \<Rightarrow> add_filter (Eq IndicatorStatus_value v) (join_once IndicatorStatus p))"

definition substring_filter :: "bool_parser \<Rightarrow> args \<Rightarrow> plan \<Rightarrow> plan" where
  "substring_filter parse_boolean a p =
     (case a ''substring'' of
        None \<Rightarrow> p
      | Some v \<Rightarrow> add_filter (Is Indicator_substring (parse_boolean v None)) p)"

definition tags_filter :: "args \<Rightarrow> plan \<Rightarrow> plan" where
  "tags_filter a p =
     (case a ''tags'' of
        None \<Rightarrow> p
      | Some v \<Rightarrow>
          (let p1 = join_once indicator_tag_association p;
               p2 = join_once Tag p1;
               p3 = set_groupby p2
           in inclusion_list Tag_value v p3))"

definition type_filter :: "args \<Rightarrow> plan \<Rightarrow> plan" where
  "type_filter a p =
     (case a ''type'' of
        None \<Rightarrow> p
      | Some v \<Rightarrow> add_filter (Eq IndicatorType_value v) p)"

definition types_filter :: "args \<Rightarrow> plan \<Rightarrow> plan" where
  "types_filter a p =
     (case a ''types'' of
        None \<Rightarrow> p
      | Some v \<Rightarrow>
          (let types = str_split CHR '','' v
           in if length types = 1 then add_filter (Eq IndicatorType_value (types ! 0)) p
              else if length types > 1
                then add_filter (Or (map (\<lambda>t. Eq IndicatorType_value t) types)) p
              else p))"

definition user_filter :: "args \<Rightarrow> plan \<Rightarrow> plan" where
  "user_filter a p =
     (case a ''user'' of
        None \<Rightarrow> p
      | Some v \<Rightarrow>
          (let p1 = join_once indicator_reference_association p;
               p2 = join_once IntelReference p1;
               p3 = join_once User p2;
               p4 = set_groupby p3
           in add_filter (Eq User_username v) p4))"

definition users_filter :: "args \<Rightarrow> plan \<Rightarrow> plan" where
  "users_filter a p =
     (case a ''users'' of
        None \<Rightarrow> p
      | Some v \<Rightarrow>
          (let p1 = join_once indicator_reference_association p;
               p2 = join_once IntelReference p1;
               p3 = join_once User p2;
               p4 = set_groupby p3
           in inclusion_list User_username v p4))"

definition value_filter :: "args \<Rightarrow> plan \<Rightarrow> plan" where
  "value_filter a p =
     (case a ''value'' of
        None \<Rightarrow> p
      | Some v \<Rightarrow> add_filter (Like Indicator_value (''%'' @ v @ ''%'')) p)"

text \<open>The blocks of \<^verbatim>\<open>read_indicators\<close> before the query is built, in source order.\<close>

definition filter_blocks :: "date_parser \<Rightarrow> bool_parser \<Rightarrow> args \<Rightarrow> (plan \<Rightarrow> plan) list" where
  "filter_blocks parse parse_boolean a =
     [case_sensitive_filter parse_boolean a, confidence_filter a,
      created_after_filter parse a, created_before_filter parse a,
      exact_value_filter a, impact_filter a,
      modified_after_filter parse a, modified_before_filter parse a,
      no_campaigns_filter a, no_references_filter a, no_tags_filter a,
      not_sources_filter a, not_tags_filter a, not_users_filter a,
      reference_filter a, sources_filter a, status_filter a,
      substring_filter parse_boolean a, tags_filter a, type_filter a,
      types_filter a, user_filter a, users_filter a, value_filter a]"

definition run_blocks :: "(plan \<Rightarrow> plan) list \<Rightarrow> plan \<Rightarrow> plan" where
  "run_blocks bs p = foldl (\<lambda>q b. b q) p bs"

definition build_plan :: "date_parser \<Rightarrow> bool_parser \<Rightarrow> args \<Rightarrow> plan" where
  "build_plan parse parse_boolean a =
     run_blocks (filter_blocks parse parse_boolean a) initial_plan"

section \<open>The relational store\<close>

text \<open>
  The tables the routes read and write. A lookup row (type, confidence, impact, status,
  tag, intel source, campaign) is its id and its unique value or name; an association
  row is the indicator's id and the related row's id. Timestamps are integers.
\<close>

record indicator =
  ind_id :: nat
  ind_type_id :: nat
  ind_value :: string
  ind_case_sensitive :: bool
  ind_substring :: bool
  ind_confidence_id :: nat
  ind_impact_id :: nat
  ind_status_id :: nat
  ind_user_id :: nat
  ind_created_time :: int
  ind_modified_time :: int

record intel_reference =
  ref_id :: nat
  ref_reference :: string
  ref_source_id :: nat
  ref_user_id :: nat

record user =
  usr_id :: nat
  usr_username :: string
  usr_apikey :: string
  usr_active :: bool

record database =
  tbl_indicator :: "indicator list"
  tbl_indicator_type :: "(nat \<times> string) list"
  tbl_indicator_confidence :: "(nat \<times> string) list"
  tbl_indicator_impact :: "(nat \<times> string) list"
  tbl_indicator_status :: "(nat \<times> string) list"
  tbl_campaign :: "(nat \<times> string) list"
  tbl_tag :: "(nat \<times> string) list"
  tbl_intel_source :: "(nat \<times> string) list"
  tbl_intel_reference :: "intel_reference list"
  tbl_user :: "user list"
  tbl_indicator_campaign_association :: "(nat \<times> nat) list"
  tbl_indicator_reference_association :: "(nat \<times> nat) list"
  tbl_indicator_tag_association :: "(nat \<times> nat) list"

section \<open>Running a compiled query\<close>

text \<open>
  The store is outside the repository; what follows is the standard reading of the SQL
  the route compiles. A row of the FROM clause is an indicator with, for each joined
  table, the row matched there (\<open>None\<close> is the NULL row of an outer join). String
  comparison with \<^verbatim>\<open>=\<close> is equality of the strings.
\<close>

datatype trow =
    Lookup_row nat string
  | Assoc_row nat nat
  | Reference_row intel_reference
  | User_row user

type_synonym jrow = "indicator \<times> (table \<rightharpoonup> trow)"

fun table_rows :: "database \<Rightarrow> table \<Rightarrow> trow list" where
  "table_rows db IndicatorType = map (\<lambda>(i, v). Lookup_row i v) (tbl_indicator_type db)"
| "table_rows db IndicatorConfidence =
     map (\<lambda>(i, v). Lookup_row i v) (tbl_indicator_confidence db)"
| "table_rows db IndicatorImpact = map (\<lambda>(i, v). Lookup_row i v) (tbl_indicator_impact db)"
| "table_rows db IndicatorStatus = map (\<lambda>(i, v). Lookup_row i v) (tbl_indicator_status db)"
| "table_rows db indicator_campaign_association =
     map (\<lambda>(i, k). Assoc_row i k) (tbl_indicator_campaign_association db)"
| "table_rows db indicator_reference_association =
     map (\<lambda>(i, k). Assoc_row i k) (tbl_indicator_reference_association db)"
| "table_rows db indicator_tag_association =
     map (\<lambda>(i, k). Assoc_row i k) (tbl_indicator_tag_association db)"
| "table_rows db IntelReference = map Reference_row (tbl_intel_reference db)"
| "table_rows db IntelSource = map (\<lambda>(i, v). Lookup_row i v) (tbl_intel_source db)"
| "table_rows db Tag = map (\<lambda>(i, v). Lookup_row i v) (tbl_tag db)"
| "table_rows db User = map User_row (tbl_user db)"

text \<open>
  The ON condition of each join. The source writes it out for the lookup tables, for
  \<^verbatim>\<open>IntelReference\<close>, \<^verbatim>\<open>IntelSource\<close>, \<^verbatim>\<open>Tag\<close> and \<^verbatim>\<open>User\<close>; for the three
  association tables it is left to the foreign key to \<^verbatim>\<open>Indicator\<close>. A comparison
  with a NULL row matches nothing.
\<close>

fun on_clause :: "table \<Rightarrow> jrow \<Rightarrow> trow \<Rightarrow> bool" where
  "on_clause IndicatorType (i, m) (Lookup_row k v) = (ind_type_id i = k)"
| "on_clause IndicatorConfidence (i, m) (Lookup_row k v) = (ind_confidence_id i = k)"
| "on_clause IndicatorImpact (i, m) (Lookup_row k v) = (ind_impact_id i = k)"
| "on_clause IndicatorStatus (i, m) (Lookup_row k v) = (ind_status_id i = k)"
| "on_clause indicator_campaign_association (i, m) (Assoc_row a b) = (ind_id i = a)"
| "on_clause indicator_reference_association (i, m) (Assoc_row a b) = (ind_id i = a)"
| "on_clause indicator_tag_association (i, m) (Assoc_row a b) = (ind_id i = a)"
| "on_clause IntelReference (i, m) (Reference_row x) =
     (case m indicator_reference_association of
        Some (Assoc_row a b) \<Rightarrow> b = ref_id x
      | _ \<Rightarrow> False)"
| "on_clause IntelSource (i, m) (Lookup_row k v) =
     (case m IntelReference of
        Some (Reference_row x) \<Rightarrow> ref_source_id x = k
      | _ \<Rightarrow> False)"
| "on_clause Tag (i, m) (Lookup_row k v) =
     (case m indicator_tag_association of
        Some (Assoc_row a b) \<Rightarrow> b = k
      | _ \<Rightarrow> False)"
| "on_clause User (i, m) (User_row u) =
     (case m IntelReference of
        Some (Reference_row x) \<Rightarrow> ref_user_id x = usr_id u
      | _ \<Rightarrow> False)"
| "on_clause t r x = False"

definition join_step :: "database \<Rightarrow> join_kind \<times> table \<Rightarrow> jrow list \<Rightarrow> jrow list" where
  "join_step db j rows =
     concat (map (\<lambda>r.
       (let ms = filter (on_clause (snd j) r) (table_rows db (snd j))
        in if ms = [] \<and> fst j = Outer then [r]
           else map (\<lambda>x. (fst r, (snd r)(snd j \<mapsto> x))) ms)) rows)"

text \<open>
  What the store and the route's own code can raise; an exception no route catches
  ends the request with a server error.
\<close>

datatype exn = Not_unique_table | Not_aggregated | TypeError | IndexError | FlushError

text \<open>
  A FROM clause that names one table twice, with no alias, is refused by the store.
\<close>

definition from_rows :: "database \<Rightarrow> (join_kind \<times> table) list \<Rightarrow> exn + jrow list" where
  "from_rows db js =
     (if distinct (map snd js)
      then Inr (foldl (\<lambda>rows j. join_step db j rows)
                  (map (\<lambda>i. (i, Map.empty)) (tbl_indicator db)) js)
      else Inl Not_unique_table)"

text \<open>Lower case, on the ASCII letters (\<^verbatim>\<open>func.lower\<close>, and the store's collation).\<close>

definition lower_char :: "char \<Rightarrow> char" where
  "lower_char c =
     (let n = (of_char c :: nat) in if 65 \<le> n \<and> n \<le> 90 then char_of (n + 32) else c)"

definition lower :: "string \<Rightarrow> string" where
  "lower s = map lower_char s"

text \<open>
  \<^verbatim>\<open>LIKE\<close>: \<open>like_match\<close> matches a pattern whose wildcards are \<^verbatim>\<open>%\<close> and
  \<^verbatim>\<open>_\<close> against a string, character by character; the store compares without regard to
  case, so \<open>eval_cond\<close> hands it the pattern and the string in lower case.
\<close>

fun like_match :: "string \<Rightarrow> string \<Rightarrow> bool" where
  "like_match [] s = (s = [])"
| "like_match (p # ps) [] = (p = CHR ''%'' \<and> like_match ps [])"
| "like_match (p # ps) (c # cs) =
     (if p = CHR ''%'' then like_match ps (c # cs) \<or> like_match (p # ps) cs
      else if p = CHR ''_'' then like_match ps cs
      else p = c \<and> like_match ps cs)"

fun column_value :: "jrow \<Rightarrow> column \<Rightarrow> string option" where
  "column_value (i, m) Indicator_value = Some (ind_value i)"
| "column_value (i, m) IndicatorConfidence_value =
     (case m IndicatorConfidence of Some (Lookup_row k v) \<Rightarrow> Some v | _ \<Rightarrow> None)"
| "column_value (i, m) IndicatorImpact_value =
     (case m IndicatorImpact of Some (Lookup_row k v) \<Rightarrow> Some v | _ \<Rightarrow> None)"
| "column_value (i, m) IndicatorStatus_value =
     (case m IndicatorStatus of Some (Lookup_row k v) \<Rightarrow> Some v | _ \<Rightarrow> None)"
| "column_value (i, m) IndicatorType_value =
     (case m IndicatorType of Some (Lookup_row k v) \<Rightarrow> Some v | _ \<Rightarrow> None)"
| "column_value (i, m) IntelReference_reference =
     (case m IntelReference of Some (Reference_row x) \<Rightarrow> Some (ref_reference x) | _ \<Rightarrow> None)"
| "column_value (i, m) IntelSource_value =
     (case m IntelSource of Some (Lookup_row k v) \<Rightarrow> Some v | _ \<Rightarrow> None)"
| "column_value (i, m) Tag_value =
     (case m Tag of Some (Lookup_row k v) \<Rightarrow> Some v | _ \<Rightarrow> None)"
| "column_value (i, m) User_username =
     (case m User of Some (User_row u) \<Rightarrow> Some (usr_username u) | _ \<Rightarrow> None)"

fun bool_column_value :: "jrow \<Rightarrow> bool_column \<Rightarrow> bool" where
  "bool_column_value (i, m) Indicator_case_sensitive = ind_case_sensitive i"
| "bool_column_value (i, m) Indicator_substring = ind_substring i"

fun time_value :: "jrow \<Rightarrow> time_expr \<Rightarrow> int" where
  "time_value r (Literal d) = d"
| "time_value (i, m) Indicator_created_time = ind_created_time i"
| "time_value (i, m) Indicator_modified_time = ind_modified_time i"

text \<open>
  \<^verbatim>\<open>Indicator.tags.any(...)\<close> and its siblings are EXISTS subqueries over the
  association and the related table, correlated on the indicator's id.
\<close>

definition criterion_holds :: "column \<Rightarrow> string \<Rightarrow> (column \<times> string) option \<Rightarrow> bool" where
  "criterion_holds col v crit =
     (case crit of None \<Rightarrow> True | Some (c, x) \<Rightarrow> c = col \<and> v = x)"

fun related_any :: "database \<Rightarrow> nat \<Rightarrow> relationship \<Rightarrow> (column \<times> string) option \<Rightarrow> bool" where
  "related_any db n Indicator_campaigns crit =
     list_ex (\<lambda>(a, b). a = n \<and> list_ex (\<lambda>(k, v). k = b \<and> crit = None) (tbl_campaign db))
       (tbl_indicator_campaign_association db)"
| "related_any db n Indicator_references crit =
     list_ex (\<lambda>(a, b). a = n \<and>
         list_ex (\<lambda>x. ref_id x = b \<and>
           criterion_holds IntelReference_reference (ref_reference x) crit)
           (tbl_intel_reference db))
       (tbl_indicator_reference_association db)"
| "related_any db n Indicator_tags crit =
     list_ex (\<lambda>(a, b). a = n \<and>
         list_ex (\<lambda>(k, v). k = b \<and> criterion_holds Tag_value v crit) (tbl_tag db))
       (tbl_indicator_tag_association db)"

text \<open>
  A WHERE expression keeps a row when it is true; a comparison with NULL is not true.
  The planner negates only EXISTS subqueries, which are never NULL.
\<close>

fun eval_cond :: "database \<Rightarrow> jrow \<Rightarrow> cond \<Rightarrow> bool" where
  "eval_cond db r (Is c arg) = (arg = Some (bool_column_value r c))"
| "eval_cond db r (Eq c v) = (column_value r c = Some v)"
| "eval_cond db r (Ne c v) =
     (case column_value r c of None \<Rightarrow> False | Some x \<Rightarrow> x \<noteq> v)"
| "eval_cond db r (Lt a b) = (time_value r a < time_value r b)"
| "eval_cond db r (Like c pat) =
     (case column_value r c of None \<Rightarrow> False | Some x \<Rightarrow> like_match (lower pat) (lower x))"
| "eval_cond db r (Any rel crit) = related_any db (ind_id (fst r)) rel crit"
| "eval_cond db r (Not e) = (\<not> eval_cond db r e)"
| "eval_cond db r (Or es) = list_ex (eval_cond db r) es"

fun eval_having :: "database \<Rightarrow> jrow list \<Rightarrow> hcond \<Rightarrow> bool" where
  "eval_having db g (SumGt0 e) =
     (0 < sum_list (map (\<lambda>r. if eval_cond db r e then (1::nat) else 0) g))"
| "eval_having db g (HAnd hs) = list_all (eval_having db g) hs"

text \<open>
  The queries the route builds: a SELECT over the join, and
  \<^verbatim>\<open>db.select([func.count()]).select_from(query.alias('count'))\<close>.
\<close>

datatype columns = Count_star | Id_only | Id_type_value

record select =
  sel_columns :: columns
  sel_from :: "(join_kind \<times> table) list"
  sel_where :: "cond list"
  sel_group_by :: bool
  sel_having :: "hcond list"
  sel_order_by :: bool

datatype query = Select select | Count_from select

datatype result_row = Count_row nat | Id_row nat | Full_row nat "string option" string

definition group_by_id :: "jrow list \<Rightarrow> (nat \<times> jrow list) list" where
  "group_by_id rows =
     map (\<lambda>n. (n, filter (\<lambda>r. ind_id (fst r) = n) rows))
       (remdups (map (\<lambda>r. ind_id (fst r)) rows))"

fun output_group :: "columns \<Rightarrow> nat \<times> jrow list \<Rightarrow> result_row" where
  "output_group Count_star (n, g) = Count_row (length g)"
| "output_group Id_only (n, g) = Id_row n"
| "output_group Id_type_value (n, g) =
     (case g of
        [] \<Rightarrow> Full_row n None []
      | r # _ \<Rightarrow> Full_row n (column_value r IndicatorType_value) (ind_value (fst r)))"

definition output_row :: "columns \<Rightarrow> jrow \<Rightarrow> result_row" where
  "output_row cols r = output_group cols (ind_id (fst r), [r])"

text \<open>
  GROUP BY is always by \<^verbatim>\<open>Indicator.id\<close>, ORDER BY always by \<^verbatim>\<open>Indicator.id\<close>
  ascending. With no GROUP BY, \<^verbatim>\<open>count(*)\<close> makes the rows one group; a HAVING on a
  query with neither is refused.
\<close>

definition exec_select :: "database \<Rightarrow> select \<Rightarrow> exn + result_row list" where
  "exec_select db q =
     (case from_rows db (sel_from q) of
        Inl e \<Rightarrow> Inl e
      | Inr rows \<Rightarrow>
          (let kept = filter (\<lambda>r. list_all (eval_cond db r) (sel_where q)) rows
           in if sel_group_by q then
                (let gs = filter (\<lambda>g. list_all (eval_having db (snd g)) (sel_having q))
                            (group_by_id kept);
                     sorted_gs = (if sel_order_by q then sort_key fst gs else gs)
                 in Inr (map (output_group (sel_columns q)) sorted_gs))
              else if sel_columns q = Count_star then
                Inr (if list_all (eval_having db kept) (sel_having q)
                     then [Count_row (length kept)] else [])
              else if sel_having q \<noteq> [] then Inl Not_aggregated
              else
                (let sorted_rows =
                       (if sel_order_by q then sort_key (\<lambda>r. ind_id (fst r)) kept else kept)
                 in Inr (map (output_row (sel_columns q)) sorted_rows))))"

fun exec_query :: "database \<Rightarrow> query \<Rightarrow> exn + result_row list" where
  "exec_query db (Select q) = exec_select db q"
| "exec_query db (Count_from q) =
     (case exec_select db q of
        Inl e \<Rightarrow> Inl e
      | Inr rs \<Rightarrow> Inr [Count_row (length rs)])"

section \<open>Compiling and answering the listing\<close>

text \<open>\<^verbatim>\<open>for f in filters: query = query.where(f)\<close>\<close>

definition add_wheres :: "cond list \<Rightarrow> select \<Rightarrow> select" where
  "add_wheres fs q = foldl (\<lambda>q f. q\<lparr>sel_where := sel_where q @ [f]\<rparr>) q fs"

definition empty_select :: "columns \<Rightarrow> select" where
  "empty_select cols =
     \<lparr>sel_columns = cols, sel_from = [], sel_where = [], sel_group_by = False,
      sel_having = [], sel_order_by = False\<rparr>"

text \<open>
  \<^verbatim>\<open>query.having(*having)\<close>: the method takes one clause, so the call goes through with
  one entry in \<^verbatim>\<open>having\<close> and raises \<^verbatim>\<open>TypeError\<close> with more. The route makes
  the call only \<^verbatim>\<open>if having\<close>.
\<close>

fun having_call :: "hcond list \<Rightarrow> select \<Rightarrow> exn + select" where
  "having_call [h] q = Inr (q\<lparr>sel_having := [h]\<rparr>)"
| "having_call hs q = Inl TypeError"

definition count_query :: "plan \<Rightarrow> exn + query" where
  "count_query p =
     (let q0 = (if groupby p then (empty_select Id_only)\<lparr>sel_group_by := True\<rparr>
                else empty_select Count_star)
      in case (if having p \<noteq> [] then having_call (having p) q0 else Inr q0) of
           Inl e \<Rightarrow> Inl e
         | Inr q1 \<Rightarrow>
             (let q2 = q1\<lparr>sel_from := join p\<rparr>;
                  q3 = add_wheres (filters p) q2
              in Inr (if groupby p then Count_from q3 else Select q3)))"

definition list_query :: "plan \<Rightarrow> exn + query" where
  "list_query p =
     (let q0 = empty_select Id_type_value;
          q1 = (if groupby p then q0\<lparr>sel_group_by := True\<rparr> else q0)
      in case (if having p \<noteq> [] then having_call (having p) q1 else Inr q1) of
           Inl e \<Rightarrow> Inl e
         | Inr q2 \<Rightarrow>
             (let q3 = q2\<lparr>sel_from := join p\<rparr>;
                  q4 = add_wheres (filters p) q3
              in Inr (Select (q4\<lparr>sel_order_by := True\<rparr>))))"

text \<open>
  The answers of the listing: \<^verbatim>\<open>jsonify({'count': n})\<close>, the gzip-compressed list of
  \<^verbatim>\<open>{'id', 'type', 'value'}\<close> records, or an exception that reaches the framework.
\<close>

datatype listing = Count_response nat | List_response "(nat \<times> string option \<times> string) list"
  | Server_error exn

fun first_column :: "result_row \<Rightarrow> nat" where
  "first_column (Count_row n) = n"
| "first_column (Id_row n) = n"
| "first_column (Full_row n t v) = n"

fun row_dict :: "result_row \<Rightarrow> (nat \<times> string option \<times> string) option" where
  "row_dict (Full_row n t v) = Some (n, t, v)"
| "row_dict r = None"

fun row_dicts :: "result_row list \<Rightarrow> exn + (nat \<times> string option \<times> string) list" where
  "row_dicts [] = Inr []"
| "row_dicts (r # rs) =
     (case row_dict r of
        None \<Rightarrow> Inl IndexError
      | Some d \<Rightarrow> (case row_dicts rs of Inl e \<Rightarrow> Inl e | Inr ds \<Rightarrow> Inr (d # ds)))"

definition read_indicators :: "date_parser \<Rightarrow> bool_parser \<Rightarrow> database \<Rightarrow> args \<Rightarrow> listing" where
  "read_indicators parse parse_boolean db a =
     (let p = build_plan parse parse_boolean a
      in if a ''count'' \<noteq> None then
           (case count_query p of
              Inl e \<Rightarrow> Server_error e
            | Inr query \<Rightarrow>
                (case exec_query db query of
                   Inl e \<Rightarrow> Server_error e
                 | Inr [] \<Rightarrow> Server_error TypeError
                 | Inr (r # _) \<Rightarrow> Count_response (first_column r)))
         else
           (case list_query p of
              Inl e \<Rightarrow> Server_error e
            | Inr query \<Rightarrow>
                (case exec_query db query of
                   Inl e \<Rightarrow> Server_error e
                 | Inr results \<Rightarrow>
                     (case row_dicts results of
                        Inl e \<Rightarrow> Server_error e
                      | Inr data \<Rightarrow> List_response data))))"

section \<open>The create and update routes\<close>

text \<open>
  What a route answers: \<^verbatim>\<open>error_response(code, message)\<close>, 201 with the new row's id,
  200 with the indicator's id, 204, or an exception no route catches. A route's outcome
  is its answer and the store after the request: writes added to the session reach the
  store only through \<^verbatim>\<open>db.session.commit()\<close>.
\<close>

datatype response =
    Error_response nat string
  | Created nat
  | Ok_response nat
  | No_content
  | Unhandled exn

type_synonym outcome = "response \<times> database"

text \<open>The \<^verbatim>\<open>INDICATOR_AUTO_CREATE_*\<close> switches of the configuration.\<close>

record config =
  auto_create_indicatortype :: bool
  auto_create_indicatorconfidence :: bool
  auto_create_indicatorimpact :: bool
  auto_create_indicatorstatus :: bool
  auto_create_campaign :: bool
  auto_create_intelreference :: bool
  auto_create_tag :: bool

text \<open>
  The JSON body of a create request, already validated against the schema: \<open>None\<close> is
  a key that is absent. A reference is its source and its reference string.
\<close>

record indicator_create =
  d_username :: "string option"
  d_type :: string
  d_value :: string
  d_case_sensitive :: "bool option"
  d_confidence :: "string option"
  d_impact :: "string option"
  d_status :: "string option"
  d_substring :: "bool option"
  d_campaigns :: "string list option"
  d_references :: "(string \<times> string) list option"
  d_tags :: "string list option"

text \<open>A new row gets an id above every id of its table.\<close>

definition fresh_id :: "nat list \<Rightarrow> nat" where
  "fresh_id ids = Suc (fold max ids 0)"

text \<open>\<^verbatim>\<open>Model.query.filter_by(value=v).first()\<close> on a lookup table.\<close>

definition by_value :: "string \<Rightarrow> (nat \<times> string) list \<Rightarrow> (nat \<times> string) option" where
  "by_value v tbl = find (\<lambda>r. snd r = v) tbl"

text \<open>\<^verbatim>\<open>Model.query.order_by(Model.id).limit(1).first()\<close>\<close>

definition lowest_id :: "(nat \<times> string) list \<Rightarrow> (nat \<times> string) option" where
  "lowest_id tbl =
     (case tbl of
        [] \<Rightarrow> None
      | r # rs \<Rightarrow> Some (fold (\<lambda>x m. if fst x < fst m then x else m) rs r))"

text \<open>
  The pattern of every lookup of the create routes: take the row with this value; when
  there is none, add one if the switch allows it, else answer 404. The result is the
  row's id and the table with the pending row.
\<close>

definition resolve_lookup ::
  "bool \<Rightarrow> string \<Rightarrow> string \<Rightarrow> (nat \<times> string) list \<Rightarrow> response + nat \<times> (nat \<times> string) list"
where
  "resolve_lookup auto_create message v tbl =
     (case by_value v tbl of
        Some r \<Rightarrow> Inr (fst r, tbl)
      | None \<Rightarrow>
          if auto_create
          then (let n = fresh_id (map fst tbl) in Inr (n, tbl @ [(n, v)]))
          else Inl (Error_response 404 (message @ v)))"

text \<open>Confidence, impact and status: the lowest-id row when the key is absent.\<close>

definition resolve_or_default ::
  "bool \<Rightarrow> string \<Rightarrow> string \<Rightarrow> string option \<Rightarrow> (nat \<times> string) list
     \<Rightarrow> response + nat \<times> (nat \<times> string) list"
where
  "resolve_or_default auto_create no_default message given tbl =
     (case given of
        None \<Rightarrow>
          (case lowest_id tbl of
             None \<Rightarrow> Inl (Error_response 400 no_default)
           | Some r \<Rightarrow> Inr (fst r, tbl))
      | Some v \<Rightarrow> resolve_lookup auto_create message v tbl)"

text \<open>\<^verbatim>\<open>for value in data['campaigns']: ...\<close> and the same loop over the tags.\<close>

fun resolve_all ::
  "bool \<Rightarrow> string \<Rightarrow> string list \<Rightarrow> (nat \<times> string) list
     \<Rightarrow> response + nat list \<times> (nat \<times> string) list"
where
  "resolve_all auto_create message [] tbl = Inr ([], tbl)"
| "resolve_all auto_create message (v # vs) tbl =
     (case resolve_lookup auto_create message v tbl of
        Inl e \<Rightarrow> Inl e
      | Inr (n, tbl1) \<Rightarrow>
          (case resolve_all auto_create message vs tbl1 of
             Inl e \<Rightarrow> Inl e
           | Inr (ns, tbl2) \<Rightarrow> Inr (n # ns, tbl2)))"

text \<open>"Verify the user exists": by username when the body has one, else by API key.
  \<open>apikey\<close> is what \<^verbatim>\<open>get_apikey(request)\<close> returns, \<open>None\<close> when it is empty.\<close>

definition find_user :: "database \<Rightarrow> string option \<Rightarrow> string option \<Rightarrow> response + user" where
  "find_user db username apikey =
     (case username of
        Some name \<Rightarrow>
          (case find (\<lambda>u. usr_username u = name) (tbl_user db) of
             None \<Rightarrow> Inl (Error_response 404 ''User not found by username'')
           | Some u \<Rightarrow> Inr u)
      | None \<Rightarrow>
          (case apikey of
             Some k \<Rightarrow>
               (case find (\<lambda>u. usr_apikey u = k) (tbl_user db) of
                  None \<Rightarrow> Inl (Error_response 404 ''User not found by API key'')
                | Some u \<Rightarrow> Inr u)
           | None \<Rightarrow> Inl (Error_response 401 ''You must supply either username or API key'')))"

text \<open>
  "Verify this type+value does not already exist based off of case_sensitive":
  \<^verbatim>\<open>func.binary\<close> compares the strings as they are, \<^verbatim>\<open>func.lower\<close> their lower-case
  forms.
\<close>

definition existing_indicator :: "database \<Rightarrow> nat \<Rightarrow> bool \<Rightarrow> string \<Rightarrow> indicator option" where
  "existing_indicator db type_id case_sensitive v =
     (if case_sensitive
      then find (\<lambda>i. ind_type_id i = type_id \<and> ind_value i = v) (tbl_indicator db)
      else find (\<lambda>i. ind_type_id i = type_id \<and> lower (ind_value i) = lower v)
             (tbl_indicator db))"

definition already_exists :: "bool \<Rightarrow> response" where
  "already_exists case_sensitive =
     Error_response 409
       (if case_sensitive then ''Case-sensitive indicator already exists''
        else ''Case-insensitive indicator already exists'')"

text \<open>
  The reference with this string whose source has this value,
  \<^verbatim>\<open>IntelReference.query.filter(and_(..., IntelReference.source.has(...))).first()\<close>.
\<close>

definition find_reference :: "database \<Rightarrow> string \<Rightarrow> string \<Rightarrow> intel_reference option" where
  "find_reference db source reference =
     find (\<lambda>x. ref_reference x = reference \<and>
             list_ex (\<lambda>s. fst s = ref_source_id x \<and> snd s = source) (tbl_intel_source db))
       (tbl_intel_reference db)"

definition add_reference :: "database \<Rightarrow> string \<Rightarrow> nat \<Rightarrow> nat \<Rightarrow> nat \<times> database" where
  "add_reference db reference source_id user_id =
     (let n = fresh_id (map ref_id (tbl_intel_reference db))
      in (n, db\<lparr>tbl_intel_reference := tbl_intel_reference db @
                 [\<lparr>ref_id = n, ref_reference = reference, ref_source_id = source_id,
                   ref_user_id = user_id\<rparr>]\<rparr>))"

text \<open>
  "Verify any references that were specified": a missing reference is created, with
  its source if that is missing too, when the switch allows it.
\<close>

fun resolve_references ::
  "bool \<Rightarrow> nat \<Rightarrow> (string \<times> string) list \<Rightarrow> database \<Rightarrow> response + nat list \<times> database"
where
  "resolve_references auto_create user_id [] db = Inr ([], db)"
| "resolve_references auto_create user_id ((source, reference) # items) db =
     (case (case find_reference db source reference of
              Some x \<Rightarrow> Inr (ref_id x, db)
            | None \<Rightarrow>
                if auto_create then
                  (case resolve_lookup True [] source (tbl_intel_source db) of
                     Inl e \<Rightarrow> Inl e
                   | Inr (source_id, sources) \<Rightarrow>
                       Inr (add_reference (db\<lparr>tbl_intel_source := sources\<rparr>)
                              reference source_id user_id))
                else Inl (Error_response 404 (''Intel reference not found: '' @ reference)))
      of
        Inl e \<Rightarrow> Inl e
      | Inr (n, db1) \<Rightarrow>
          (case resolve_references auto_create user_id items db1 of
             Inl e \<Rightarrow> Inl e
           | Inr (ns, db2) \<Rightarrow> Inr (n # ns, db2)))"

text \<open>
  The new indicator and its three collections, added to the session. \<open>now\<close> is the
  time the columns \<^verbatim>\<open>created_time\<close> and \<^verbatim>\<open>modified_time\<close> default to.
\<close>

definition add_indicator ::
  "int \<Rightarrow> database \<Rightarrow> indicator \<Rightarrow> nat list \<Rightarrow> nat list \<Rightarrow> nat list \<Rightarrow> nat \<times> database"
where
  "add_indicator now db i campaign_ids reference_ids tag_ids =
     (let n = fresh_id (map ind_id (tbl_indicator db))
      in (n, db\<lparr>tbl_indicator := tbl_indicator db @
                   [i\<lparr>ind_id := n, ind_created_time := now, ind_modified_time := now\<rparr>],
                 tbl_indicator_campaign_association :=
                   tbl_indicator_campaign_association db @ map (\<lambda>k. (n, k)) campaign_ids,
                 tbl_indicator_reference_association :=
                   tbl_indicator_reference_association db @ map (\<lambda>k. (n, k)) reference_ids,
                 tbl_indicator_tag_association :=
                   tbl_indicator_tag_association db @ map (\<lambda>k. (n, k)) tag_ids\<rparr>))"

text \<open>
  The part of \<^verbatim>\<open>create_indicator\<close> after the duplicate check: confidence, impact,
  status, the object, campaigns, references, tags; then add and commit.
\<close>

definition create_resolved ::
  "config \<Rightarrow> int \<Rightarrow> database \<Rightarrow> indicator_create \<Rightarrow> user \<Rightarrow> nat \<Rightarrow> bool
     \<Rightarrow> response + nat \<times> database"
where
  "create_resolved cfg now db data usr type_id case_sensitive =
     (case resolve_or_default (auto_create_indicatorconfidence cfg)
             ''No indicator confidence values exist to use as default''
             ''Indicator confidence not found: '' (d_confidence data)
             (tbl_indicator_confidence db) of
        Inl e \<Rightarrow> Inl e
      | Inr (confidence_id, confidences) \<Rightarrow>
     (case resolve_or_default (auto_create_indicatorimpact cfg)
             ''No indicator impact values exist to use as default''
             ''Indicator impact not found: '' (d_impact data)
             (tbl_indicator_impact db) of
        Inl e \<Rightarrow> Inl e
      | Inr (impact_id, impacts) \<Rightarrow>
     (case resolve_or_default (auto_create_indicatorstatus cfg)
             ''No indicator status values exist to use as default''
             ''Indicator status not found: '' (d_status data)
             (tbl_indicator_status db) of
        Inl e \<Rightarrow> Inl e
      | Inr (status_id, statuses) \<Rightarrow>
     (let substring = (case d_substring data of Some b \<Rightarrow> b | None \<Rightarrow> False);
          indicator =
            \<lparr>ind_id = 0, ind_type_id = type_id, ind_value = d_value data,
             ind_case_sensitive = case_sensitive, ind_substring = substring,
             ind_confidence_id = confidence_id, ind_impact_id = impact_id,
             ind_status_id = status_id, ind_user_id = usr_id usr,
             ind_created_time = now, ind_modified_time = now\<rparr>;
          db1 = db\<lparr>tbl_indicator_confidence := confidences,
                   tbl_indicator_impact := impacts,
                   tbl_indicator_status := statuses\<rparr>
      in
     (case resolve_all (auto_create_campaign cfg) ''Campaign not found: ''
             (case d_campaigns data of Some vs \<Rightarrow> vs | None \<Rightarrow> []) (tbl_campaign db1) of
        Inl e \<Rightarrow> Inl e
      | Inr (campaign_ids, campaigns) \<Rightarrow>
     (case resolve_references (auto_create_intelreference cfg) (usr_id usr)
             (case d_references data of Some rs \<Rightarrow> rs | None \<Rightarrow> [])
             (db1\<lparr>tbl_campaign := campaigns\<rparr>) of
        Inl e \<Rightarrow> Inl e
      | Inr (reference_ids, db2) \<Rightarrow>
     (case resolve_all (auto_create_tag cfg) ''Tag not found: ''
             (case d_tags data of Some vs \<Rightarrow> vs | None \<Rightarrow> []) (tbl_tag db2) of
        Inl e \<Rightarrow> Inl e
      | Inr (tag_ids, tags) \<Rightarrow>
          Inr (add_indicator now (db2\<lparr>tbl_tag := tags\<rparr>) indicator
                 campaign_ids reference_ids tag_ids))))))))"

text \<open>\<^verbatim>\<open>POST /indicators\<close>\<close>

definition create_indicator ::
  "config \<Rightarrow> int \<Rightarrow> string option \<Rightarrow> database \<Rightarrow> indicator_create \<Rightarrow> outcome"
where
  "create_indicator cfg now apikey db data =
     (case find_user db (d_username data) apikey of
        Inl e \<Rightarrow> (e, db)
      | Inr usr \<Rightarrow>
          if \<not> usr_active usr
          then (Error_response 401 ''Cannot create an indicator with an inactive user'', db)
          else
            (case resolve_lookup (auto_create_indicatortype cfg)
                    ''Indicator type not found: '' (d_type data) (tbl_indicator_type db) of
               Inl e \<Rightarrow> (e, db)
             | Inr (type_id, types) \<Rightarrow>
                 (let case_sensitive =
                        (case d_case_sensitive data of Some b \<Rightarrow> b | None \<Rightarrow> False);
                      db1 = db\<lparr>tbl_indicator_type := types\<rparr>
                  in case existing_indicator db1 type_id case_sensitive (d_value data) of
                       Some existing \<Rightarrow> (already_exists case_sensitive, db)
                     | None \<Rightarrow>
                         (case create_resolved cfg now db1 data usr type_id case_sensitive of
                            Inl e \<Rightarrow> (e, db)
                          | Inr (n, db2) \<Rightarrow> (Created n, db2)))))"

text \<open>
  \<^verbatim>\<open>POST /indicators/bulk\<close> keeps a cache for the duration of the call. It maps the
  values met so far to the rows found or added for them (here: to their ids; to the
  user row for the users, whose \<^verbatim>\<open>active\<close> flag is read). The key of a cached
  reference is \<^verbatim>\<open>'{}{}'.format(source, reference)\<close>.
\<close>

record cache =
  cache_usernames :: "string \<rightharpoonup> user"
  cache_apikeys :: "string \<rightharpoonup> user"
  cache_types :: "string \<rightharpoonup> nat"
  cache_confidences :: "string \<rightharpoonup> nat"
  cache_default_confidence :: "nat option"
  cache_impacts :: "string \<rightharpoonup> nat"
  cache_default_impact :: "nat option"
  cache_statuses :: "string \<rightharpoonup> nat"
  cache_default_status :: "nat option"
  cache_campaigns :: "string \<rightharpoonup> nat"
  cache_references :: "string \<rightharpoonup> nat"
  cache_sources :: "string \<rightharpoonup> nat"
  cache_tags :: "string \<rightharpoonup> nat"

definition empty_cache :: cache where
  "empty_cache =
     \<lparr>cache_usernames = Map.empty, cache_apikeys = Map.empty, cache_types = Map.empty,
      cache_confidences = Map.empty, cache_default_confidence = None,
      cache_impacts = Map.empty, cache_default_impact = None,
      cache_statuses = Map.empty, cache_default_status = None,
      cache_campaigns = Map.empty, cache_references = Map.empty,
      cache_sources = Map.empty, cache_tags = Map.empty\<rparr>"

text \<open>"Check the cache for this ...", else look up as the single route does, and cache.\<close>

definition cached_lookup ::
  "bool \<Rightarrow> string \<Rightarrow> string \<Rightarrow> (string \<rightharpoonup> nat) \<Rightarrow> (nat \<times> string) list
     \<Rightarrow> response + nat \<times> (string \<rightharpoonup> nat) \<times> (nat \<times> string) list"
where
  "cached_lookup auto_create message v c tbl =
     (case c v of
        Some n \<Rightarrow> Inr (n, c, tbl)
      | None \<Rightarrow>
          (case resolve_lookup auto_create message v tbl of
             Inl e \<Rightarrow> Inl e
           | Inr (n, tbl1) \<Rightarrow> Inr (n, c(v \<mapsto> n), tbl1)))"

definition cached_or_default ::
  "bool \<Rightarrow> string \<Rightarrow> string \<Rightarrow> string option \<Rightarrow> (string \<rightharpoonup> nat) \<Rightarrow> nat option
     \<Rightarrow> (nat \<times> string) list
     \<Rightarrow> response + nat \<times> (string \<rightharpoonup> nat) \<times> nat option \<times> (nat \<times> string) list"
where
  "cached_or_default auto_create no_default message given c dflt tbl =
     (case given of
        None \<Rightarrow>
          (case dflt of
             Some n \<Rightarrow> Inr (n, c, dflt, tbl)
           | None \<Rightarrow>
               (case lowest_id tbl of
                  None \<Rightarrow> Inl (Error_response 400 no_default)
                | Some r \<Rightarrow> Inr (fst r, c, Some (fst r), tbl)))
      | Some v \<Rightarrow>
          (case cached_lookup auto_create message v c tbl of
             Inl e \<Rightarrow> Inl e
           | Inr (n, c1, tbl1) \<Rightarrow> Inr (n, c1, dflt, tbl1)))"

fun cached_all ::
  "bool \<Rightarrow> string \<Rightarrow> string list \<Rightarrow> (string \<rightharpoonup> nat) \<Rightarrow> (nat \<times> string) list
     \<Rightarrow> response + nat list \<times> (string \<rightharpoonup> nat) \<times> (nat \<times> string) list"
where
  "cached_all auto_create message [] c tbl = Inr ([], c, tbl)"
| "cached_all auto_create message (v # vs) c tbl =
     (case cached_lookup auto_create message v c tbl of
        Inl e \<Rightarrow> Inl e
      | Inr (n, c1, tbl1) \<Rightarrow>
          (case cached_all auto_create message vs c1 tbl1 of
             Inl e \<Rightarrow> Inl e
           | Inr (ns, c2, tbl2) \<Rightarrow> Inr (n # ns, c2, tbl2)))"

definition cached_user ::
  "database \<Rightarrow> string option \<Rightarrow> string option \<Rightarrow> cache \<Rightarrow> response + user \<times> cache"
where
  "cached_user db username apikey c =
     (case username of
        Some name \<Rightarrow>
          (case cache_usernames c name of
             Some u \<Rightarrow> Inr (u, c)
           | None \<Rightarrow>
               (case find (\<lambda>u. usr_username u = name) (tbl_user db) of
                  None \<Rightarrow> Inl (Error_response 404 ''User not found by username'')
                | Some u \<Rightarrow> Inr (u, c\<lparr>cache_usernames := (cache_usernames c)(name \<mapsto> u)\<rparr>)))
      | None \<Rightarrow>
          (case apikey of
             Some k \<Rightarrow>
               (case cache_apikeys c k of
                  Some u \<Rightarrow> Inr (u, c)
                | None \<Rightarrow>
                    (case find (\<lambda>u. usr_apikey u = k) (tbl_user db) of
                       None \<Rightarrow> Inl (Error_response 404 ''User not found by API key'')
                     | Some u \<Rightarrow> Inr (u, c\<lparr>cache_apikeys := (cache_apikeys c)(k \<mapsto> u)\<rparr>)))
           | None \<Rightarrow> Inl (Error_response 401 ''You must supply either username or API key'')))"

fun cached_references ::
  "bool \<Rightarrow> nat \<Rightarrow> (string \<times> string) list \<Rightarrow> cache \<Rightarrow> database
     \<Rightarrow> response + nat list \<times> cache \<times> database"
where
  "cached_references auto_create user_id [] c db = Inr ([], c, db)"
| "cached_references auto_create user_id ((source, reference) # items) c db =
     (case (case cache_references c (source @ reference) of
              Some n \<Rightarrow> Inr (n, c, db)
            | None \<Rightarrow>
                (case (case find_reference db source reference of
                         Some x \<Rightarrow> Inr (ref_id x, c, db)
                       | None \<Rightarrow>
                           if auto_create then
                             (case cached_lookup True [] source (cache_sources c)
                                     (tbl_intel_source db) of
                                Inl e \<Rightarrow> Inl e
                              | Inr (source_id, sources_cache, sources) \<Rightarrow>
                                  (let (n, db1) =
                                         add_reference (db\<lparr>tbl_intel_source := sources\<rparr>)
                                           reference source_id user_id
                                   in Inr (n, c\<lparr>cache_sources := sources_cache\<rparr>, db1)))
                           else Inl (Error_response 404
                                       (''Intel reference not found: '' @ reference)))
                 of
                   Inl e \<Rightarrow> Inl e
                 | Inr (n, c1, db1) \<Rightarrow>
                     Inr (n, c1\<lparr>cache_references :=
                                  (cache_references c1)(source @ reference \<mapsto> n)\<rparr>, db1)))
      of
        Inl e \<Rightarrow> Inl e
      | Inr (n, c1, db1) \<Rightarrow>
          (case cached_references auto_create user_id items c1 db1 of
             Inl e \<Rightarrow> Inl e
           | Inr (ns, c2, db2) \<Rightarrow> Inr (n # ns, c2, db2)))"

text \<open>The part of one item of the bulk route after the duplicate check.\<close>

definition bulk_resolved ::
  "config \<Rightarrow> int \<Rightarrow> cache \<Rightarrow> database \<Rightarrow> indicator_create \<Rightarrow> user \<Rightarrow> nat \<Rightarrow> bool
     \<Rightarrow> response + cache \<times> database"
where
  "bulk_resolved cfg now c db data usr type_id case_sensitive =
     (case cached_or_default (auto_create_indicatorconfidence cfg)
             ''No indicator confidence values exist to use as default''
             ''Indicator confidence not found: '' (d_confidence data)
             (cache_confidences c) (cache_default_confidence c)
             (tbl_indicator_confidence db) of
        Inl e \<Rightarrow> Inl e
      | Inr (confidence_id, confidences_cache, default_confidence, confidences) \<Rightarrow>
     (case cached_or_default (auto_create_indicatorimpact cfg)
             ''No indicator impact values exist to use as default''
             ''Indicator impact not found: '' (d_impact data)
             (cache_impacts c) (cache_default_impact c)
             (tbl_indicator_impact db) of
        Inl e \<Rightarrow> Inl e
      | Inr (impact_id, impacts_cache, default_impact, impacts) \<Rightarrow>
     (case cached_or_default (auto_create_indicatorstatus cfg)
             ''No indicator status values exist to use as default''
             ''Indicator status not found: '' (d_status data)
             (cache_statuses c) (cache_default_status c)
             (tbl_indicator_status db) of
        Inl e \<Rightarrow> Inl e
      | Inr (status_id, statuses_cache, default_status, statuses) \<Rightarrow>
     (let substring = (case d_substring data of Some b \<Rightarrow> b | None \<Rightarrow> False);
          indicator =
            \<lparr>ind_id = 0, ind_type_id = type_id, ind_value = d_value data,
             ind_case_sensitive = case_sensitive, ind_substring = substring,
             ind_confidence_id = confidence_id, ind_impact_id = impact_id,
             ind_status_id = status_id, ind_user_id = usr_id usr,
             ind_created_time = now, ind_modified_time = now\<rparr>;
          c1 = c\<lparr>cache_confidences := confidences_cache,
                 cache_default_confidence := default_confidence,
                 cache_impacts := impacts_cache, cache_default_impact := default_impact,
                 cache_statuses := statuses_cache, cache_default_status := default_status\<rparr>;
          db1 = db\<lparr>tbl_indicator_confidence := confidences,
                   tbl_indicator_impact := impacts,
                   tbl_indicator_status := statuses\<rparr>
      in
     (case cached_all (auto_create_campaign cfg) ''Campaign not found: ''
             (case d_campaigns data of Some vs \<Rightarrow> vs | None \<Rightarrow> [])
             (cache_campaigns c1) (tbl_campaign db1) of
        Inl e \<Rightarrow> Inl e
      | Inr (campaign_ids, campaigns_cache, campaigns) \<Rightarrow>
     (case cached_references (auto_create_intelreference cfg) (usr_id usr)
             (case d_references data of Some rs \<Rightarrow> rs | None \<Rightarrow> [])
             (c1\<lparr>cache_campaigns := campaigns_cache\<rparr>)
             (db1\<lparr>tbl_campaign := campaigns\<rparr>) of
        Inl e \<Rightarrow> Inl e
      | Inr (reference_ids, c2, db2) \<Rightarrow>
     (case cached_all (auto_create_tag cfg) ''Tag not found: ''
             (case d_tags data of Some vs \<Rightarrow> vs | None \<Rightarrow> [])
             (cache_tags c2) (tbl_tag db2) of
        Inl e \<Rightarrow> Inl e
      | Inr (tag_ids, tags_cache, tags) \<Rightarrow>
          Inr (c2\<lparr>cache_tags := tags_cache\<rparr>,
               snd (add_indicator now (db2\<lparr>tbl_tag := tags\<rparr>) indicator
                      campaign_ids reference_ids tag_ids)))))))))"

text \<open>
  One pass of the loop of \<^verbatim>\<open>create_indicators\<close>. \<open>Inl\<close> is a \<^verbatim>\<open>return\<close> out of the
  route; \<open>Inr\<close> goes on to the next item, after \<^verbatim>\<open>continue\<close> as well as after
  \<^verbatim>\<open>db.session.add(indicator)\<close>. The queries run in the session, so they see the
  rows earlier items added.
\<close>

definition bulk_item ::
  "config \<Rightarrow> int \<Rightarrow> string option \<Rightarrow> cache \<times> database \<Rightarrow> indicator_create
     \<Rightarrow> response + cache \<times> database"
where
  "bulk_item cfg now apikey st data =
     (case cached_user (snd st) (d_username data) apikey (fst st) of
        Inl e \<Rightarrow> Inl e
      | Inr (usr, c1) \<Rightarrow>
          if \<not> usr_active usr
          then Inl (Error_response 401 ''Cannot create an indicator with an inactive user'')
          else
            (case cached_lookup (auto_create_indicatortype cfg)
                    ''Indicator type not found: '' (d_type data) (cache_types c1)
                    (tbl_indicator_type (snd st)) of
               Inl e \<Rightarrow> Inl e
             | Inr (type_id, types_cache, types) \<Rightarrow>
                 (let case_sensitive =
                        (case d_case_sensitive data of Some b \<Rightarrow> b | None \<Rightarrow> False);
                      c2 = c1\<lparr>cache_types := types_cache\<rparr>;
                      db1 = (snd st)\<lparr>tbl_indicator_type := types\<rparr>
                  in case existing_indicator db1 type_id case_sensitive (d_value data) of
                       Some existing \<Rightarrow> Inr (c2, db1)
                     | None \<Rightarrow>
                         bulk_resolved cfg now c2 db1 data usr type_id case_sensitive)))"

fun bulk_loop ::
  "config \<Rightarrow> int \<Rightarrow> string option \<Rightarrow> cache \<times> database \<Rightarrow> indicator_create list
     \<Rightarrow> response + cache \<times> database"
where
  "bulk_loop cfg now apikey st [] = Inr st"
| "bulk_loop cfg now apikey st (data # rest) =
     (case bulk_item cfg now apikey st data of
        Inl e \<Rightarrow> Inl e
      | Inr st1 \<Rightarrow> bulk_loop cfg now apikey st1 rest)"

text \<open>\<^verbatim>\<open>POST /indicators/bulk\<close>: the loop, then one commit.\<close>

definition create_indicators ::
  "config \<Rightarrow> int \<Rightarrow> string option \<Rightarrow> database \<Rightarrow> indicator_create list \<Rightarrow> outcome"
where
  "create_indicators cfg now apikey db items =
     (case bulk_loop cfg now apikey (empty_cache, db) items of
        Inl e \<Rightarrow> (e, db)
      | Inr st \<Rightarrow> (No_content, snd st))"

text \<open>
  \<^verbatim>\<open>POST /intel/reference\<close>; the form fields are \<open>None\<close> when absent. The route looks
  the user up by username and creates the reference when there is one.
\<close>

record intel_reference_create =
  r_reference :: "string option"
  r_source :: "string option"
  r_username :: "string option"

definition create_intel_reference :: "database \<Rightarrow> intel_reference_create \<Rightarrow> outcome" where
  "create_intel_reference db data =
     (case (r_reference data, r_source data, r_username data) of
        (Some reference, Some source_value, Some username) \<Rightarrow>
          (case by_value source_value (tbl_intel_source db) of
             None \<Rightarrow> (Error_response 400 ''Intel source not found'', db)
           | Some source \<Rightarrow>
               (case find (\<lambda>x. ref_reference x = reference \<and> ref_source_id x = fst source)
                       (tbl_intel_reference db) of
                  Some existing \<Rightarrow> (Error_response 409 ''Intel reference already exists'', db)
                | None \<Rightarrow>
                    (case find (\<lambda>u. usr_username u = username) (tbl_user db) of
                       Some usr \<Rightarrow>
                         (let (n, db1) = add_reference db reference (fst source) (usr_id usr)
                          in (Created n, db1))
                     | None \<Rightarrow> (Error_response 401 ''API username does not exist'', db))))
      | _ \<Rightarrow> (Error_response 400 ''Request must include: reference, source, username'', db))"

text \<open>
  The JSON body of \<^verbatim>\<open>PUT /indicators/<id>\<close>. The two flags go through
  \<^verbatim>\<open>parse_boolean(value, default=False)\<close>.
\<close>

record indicator_update =
  u_campaigns :: "string list option"
  u_case_sensitive :: "string option"
  u_confidence :: "string option"
  u_impact :: "string option"
  u_references :: "(string \<times> string) list option"
  u_status :: "string option"
  u_substring :: "string option"
  u_tags :: "string list option"
  u_username :: "string option"

text \<open>
  \<^verbatim>\<open>indicator.campaigns = valid_campaigns\<close> and its siblings replace a collection of
  the indicator. The list may hold \<^verbatim>\<open>None\<close>, the result of a \<^verbatim>\<open>first()\<close> that found
  nothing: a collection with \<^verbatim>\<open>None\<close> in it cannot be flushed, and the flush that
  follows the assignment (the next query of the route, or its commit; the route has no
  \<^verbatim>\<open>return\<close> before one of them) raises \<^verbatim>\<open>FlushError\<close>. Otherwise the flush
  writes the difference between the old collection and the new one: the rows of the
  members that stay are left alone, the rows of the members that went are deleted, and
  one row is added for each new member, however often the list names it.
\<close>

definition replace_collection ::
  "nat \<Rightarrow> nat option list \<Rightarrow> (nat \<times> nat) list \<Rightarrow> response + (nat \<times> nat) list"
where
  "replace_collection n members assoc =
     (case those members of
        None \<Rightarrow> Inl (Unhandled FlushError)
      | Some ks \<Rightarrow>
          Inr (filter (\<lambda>r. fst r \<noteq> n \<or> snd r \<in> set ks) assoc @
               map (\<lambda>k. (n, k)) (filter (\<lambda>k. (n, k) \<notin> set assoc) (remdups ks))))"

text \<open>
  "Verify campaigns if it was specified" and "Verify tags if it was specified": the
  \<^verbatim>\<open>error_response\<close> of a name that is not found is built and dropped (there is no
  \<^verbatim>\<open>return\<close>), and the \<^verbatim>\<open>None\<close> is appended to the list.
\<close>

definition update_named ::
  "nat \<Rightarrow> string list option \<Rightarrow> (nat \<times> string) list \<Rightarrow> (nat \<times> nat) list
     \<Rightarrow> response + (nat \<times> nat) list"
where
  "update_named n given tbl assoc =
     (case given of
        None \<Rightarrow> Inr assoc
      | Some names \<Rightarrow>
          (let valid = map (\<lambda>v. map_option fst (by_value v tbl)) names
           in if valid \<noteq> [] then replace_collection n valid assoc else Inr assoc))"

text \<open>"Verify any references that were specified": here the 404 is returned.\<close>

fun valid_references :: "database \<Rightarrow> (string \<times> string) list \<Rightarrow> response + nat list" where
  "valid_references db [] = Inr []"
| "valid_references db ((source, reference) # items) =
     (case find_reference db source reference of
        None \<Rightarrow> Inl (Error_response 404 (''Intel reference not found: '' @ reference))
      | Some x \<Rightarrow>
          (case valid_references db items of
             Inl e \<Rightarrow> Inl e
           | Inr ns \<Rightarrow> Inr (ref_id x # ns)))"

definition update_references ::
  "database \<Rightarrow> nat \<Rightarrow> (string \<times> string) list option \<Rightarrow> response + (nat \<times> nat) list"
where
  "update_references db n given =
     (case given of
        None \<Rightarrow> Inr (tbl_indicator_reference_association db)
      | Some items \<Rightarrow>
          (case valid_references db items of
             Inl e \<Rightarrow> Inl e
           | Inr ns \<Rightarrow>
               if ns \<noteq> []
               then replace_collection n (map Some ns) (tbl_indicator_reference_association db)
               else Inr (tbl_indicator_reference_association db)))"

text \<open>Confidence, impact and status of an update: the row must exist.\<close>

definition update_lookup ::
  "string \<Rightarrow> string option \<Rightarrow> (nat \<times> string) list \<Rightarrow> nat \<Rightarrow> response + nat"
where
  "update_lookup message given tbl current =
     (case given of
        None \<Rightarrow> Inr current
      | Some v \<Rightarrow>
          (case by_value v tbl of
             None \<Rightarrow> Inl (Error_response 404 (message @ v))
           | Some r \<Rightarrow> Inr (fst r)))"

definition update_flag :: "bool_parser \<Rightarrow> string option \<Rightarrow> bool \<Rightarrow> bool" where
  "update_flag parse_boolean given current =
     (case given of
        None \<Rightarrow> current
      | Some v \<Rightarrow> (case parse_boolean v (Some False) of Some b \<Rightarrow> b | None \<Rightarrow> False))"

definition update_user :: "database \<Rightarrow> string option \<Rightarrow> nat \<Rightarrow> response + nat" where
  "update_user db given current =
     (case given of
        None \<Rightarrow> Inr current
      | Some name \<Rightarrow>
          (case find (\<lambda>u. usr_username u = name) (tbl_user db) of
             None \<Rightarrow> Inl (Error_response 404 (''User username not found: '' @ name))
           | Some u \<Rightarrow>
               if \<not> usr_active u
               then Inl (Error_response 401 ''Cannot update an indicator with an inactive user'')
               else Inr (usr_id u)))"

text \<open>\<^verbatim>\<open>PUT /indicators/<id>\<close>, block by block in the order of the source.\<close>

definition update_indicator ::
  "bool_parser \<Rightarrow> database \<Rightarrow> nat \<Rightarrow> indicator_update \<Rightarrow> outcome"
where
  "update_indicator parse_boolean db indicator_id data =
     (case find (\<lambda>i. ind_id i = indicator_id) (tbl_indicator db) of
        None \<Rightarrow> (Error_response 404 ''Indicator ID not found'', db)
      | Some indicator \<Rightarrow>
     (case update_named indicator_id (u_campaigns data) (tbl_campaign db)
             (tbl_indicator_campaign_association db) of
        Inl e \<Rightarrow> (e, db)
      | Inr campaign_rows \<Rightarrow>
     (let case_sensitive =
            update_flag parse_boolean (u_case_sensitive data) (ind_case_sensitive indicator)
      in
     (case update_lookup ''Indicator confidence not found: '' (u_confidence data)
             (tbl_indicator_confidence db) (ind_confidence_id indicator) of
        Inl e \<Rightarrow> (e, db)
      | Inr confidence_id \<Rightarrow>
     (case update_lookup ''Indicator impact not found: '' (u_impact data)
             (tbl_indicator_impact db) (ind_impact_id indicator) of
        Inl e \<Rightarrow> (e, db)
      | Inr impact_id \<Rightarrow>
     (case update_references db indicator_id (u_references data) of
        Inl e \<Rightarrow> (e, db)
      | Inr reference_rows \<Rightarrow>
     (case update_lookup ''Indicator status not found: '' (u_status data)
             (tbl_indicator_status db) (ind_status_id indicator) of
        Inl e \<Rightarrow> (e, db)
      | Inr status_id \<Rightarrow>
     (let substring =
            update_flag parse_boolean (u_substring data) (ind_substring indicator)
      in
     (case update_named indicator_id (u_tags data) (tbl_tag db)
             (tbl_indicator_tag_association db) of
        Inl e \<Rightarrow> (e, db)
      | Inr tag_rows \<Rightarrow>
     (case update_user db (u_username data) (ind_user_id indicator) of
        Inl e \<Rightarrow> (e, db)
      | Inr user_id \<Rightarrow>
          (Ok_response indicator_id,
           db\<lparr>tbl_indicator :=
                 map (\<lambda>i. if ind_id i = indicator_id
                           then i\<lparr>ind_case_sensitive := case_sensitive,
                                  ind_confidence_id := confidence_id,
                                  ind_impact_id := impact_id,
                                  ind_status_id := status_id,
                                  ind_substring := substring,
                                  ind_user_id := user_id\<rparr>
                           else i) (tbl_indicator db),
               tbl_indicator_campaign_association := campaign_rows,
               tbl_indicator_reference_association := reference_rows,
               tbl_indicator_tag_association := tag_rows\<rparr>)))))))))))"

section \<open>Notions used in the statements\<close>

text \<open>\<^verbatim>\<open>sep.join(words)\<close>, the inverse of splitting.\<close>

fun str_join :: "char \<Rightarrow> string list \<Rightarrow> string" where
  "str_join sep [] = []"
| "str_join sep [w] = w"
| "str_join sep (w # v # ws) = w @ sep # str_join sep (v # ws)"

text \<open>
  The bookkeeping of the two sets: \<open>already_joined\<close> holds the tables joined with an
  inner join, \<open>already_outerjoined\<close> those joined with an outer join, and no table is
  joined twice with the same kind of join.
\<close>

definition joins_tracked :: "plan \<Rightarrow> bool" where
  "joins_tracked p =
     (distinct (join p) \<and>
      already_joined p = {t. (Inner, t) \<in> set (join p)} \<and>
      already_outerjoined p = {t. (Outer, t) \<in> set (join p)})"

text \<open>A plan no block has joined, grouped or aggregated.\<close>

definition untouched :: "plan \<Rightarrow> bool" where
  "untouched p = (join p = [(Inner, IndicatorType)] \<and> \<not> groupby p \<and> having p = [])"

text \<open>Two plans that differ at most in their WHERE clauses.\<close>

definition same_shape :: "plan \<Rightarrow> plan \<Rightarrow> bool" where
  "same_shape p q =
     (join p = join q \<and> groupby p = groupby q \<and> having p = having q \<and>
      already_joined p = already_joined q \<and> already_outerjoined p = already_outerjoined q)"

text \<open>HAVING clauses only ever come with GROUP BY.\<close>

definition having_grouped :: "plan \<Rightarrow> bool" where
  "having_grouped p = (having p = [] \<or> groupby p)"

text \<open>The rows the WHERE clauses keep, and the groups the HAVING clauses keep.\<close>

definition kept_rows :: "database \<Rightarrow> plan \<Rightarrow> jrow list \<Rightarrow> jrow list" where
  "kept_rows db p rows = filter (\<lambda>r. list_all (eval_cond db r) (filters p)) rows"

definition kept_groups :: "database \<Rightarrow> plan \<Rightarrow> jrow list \<Rightarrow> (nat \<times> jrow list) list" where
  "kept_groups db p rows =
     filter (\<lambda>g. list_all (eval_having db (snd g)) (having p))
       (group_by_id (kept_rows db p rows))"

definition date_keys :: "string set" where
  "date_keys = {''created_after'', ''created_before'', ''modified_after'', ''modified_before''}"

text \<open>The \<^verbatim>\<open>{'id', 'type', 'value'}\<close> record of a group of rows of one indicator.\<close>

definition group_dict :: "nat \<times> jrow list \<Rightarrow> nat \<times> string option \<times> string" where
  "group_dict g =
     (case snd g of
        [] \<Rightarrow> (fst g, None, [])
      | r # _ \<Rightarrow> (fst g, column_value r IndicatorType_value, ind_value (fst r)))"

text \<open>
  A small store for the concrete instances: indicator 1 has the tags phish and apt and
  two references (OSINT by alice, Internal by bob), indicator 2 has the tag phish and
  the OSINT reference, indicator 3 has neither tags nor references. bob is inactive.
\<close>

definition example_indicator :: "nat \<Rightarrow> nat \<Rightarrow> string \<Rightarrow> indicator" where
  "example_indicator n t v =
     \<lparr>ind_id = n, ind_type_id = t, ind_value = v, ind_case_sensitive = False,
      ind_substring = False, ind_confidence_id = 1, ind_impact_id = 1, ind_status_id = 1,
      ind_user_id = 1, ind_created_time = 100, ind_modified_time = 200\<rparr>"

definition example_db :: database where
  "example_db =
     \<lparr>tbl_indicator =
        [example_indicator 1 1 ''1.2.3.4'', example_indicator 2 1 ''5.6.7.8'',
         example_indicator 3 2 ''evil.com''],
      tbl_indicator_type = [(1, ''IP''), (2, ''Domain'')],
      tbl_indicator_confidence = [(1, ''LOW'')],
      tbl_indicator_impact = [(1, ''LOW'')],
      tbl_indicator_status = [(1, ''NEW'')],
      tbl_campaign = [(1, ''LOLcats'')],
      tbl_tag = [(1, ''phish''), (2, ''apt'')],
      tbl_intel_source = [(1, ''OSINT''), (2, ''Internal'')],
      tbl_intel_reference =
        [\<lparr>ref_id = 1, ref_reference = ''http://a'', ref_source_id = 1, ref_user_id = 1\<rparr>,
         \<lparr>ref_id = 2, ref_reference = ''http://b'', ref_source_id = 2, ref_user_id = 2\<rparr>],
      tbl_user =
        [\<lparr>usr_id = 1, usr_username = ''alice'', usr_apikey = ''k1'', usr_active = True\<rparr>,
         \<lparr>usr_id = 2, usr_username = ''bob'', usr_apikey = ''k2'', usr_active = False\<rparr>],
      tbl_indicator_campaign_association = [(1, 1)],
      tbl_indicator_reference_association = [(1, 1), (1, 2), (2, 1)],
      tbl_indicator_tag_association = [(1, 1), (1, 2), (2, 1)]\<rparr>"

text \<open>A date parser that parses nothing, and a boolean parser that always falls back.\<close>

definition no_dates :: date_parser where
  "no_dates ignoretz s = None"

definition keep_default :: bool_parser where
  "keep_default s d = d"

text \<open>
  What the statements about results say of the store: every indicator's type row
  exists (the foreign key), the ids of the indicators, and the relations "indicator
  \<open>n\<close> has tag \<open>t\<close>", "has a reference of source \<open>s\<close>", "has a reference added by
  user \<open>u\<close>".
\<close>

definition types_resolve :: "database \<Rightarrow> bool" where
  "types_resolve db =
     (\<forall>i \<in> set (tbl_indicator db). ind_type_id i \<in> fst ` set (tbl_indicator_type db))"

definition indicator_ids :: "database \<Rightarrow> nat set" where
  "indicator_ids db = ind_id ` set (tbl_indicator db)"

definition has_tag :: "database \<Rightarrow> nat \<Rightarrow> string \<Rightarrow> bool" where
  "has_tag db n t =
     (\<exists>k. (n, k) \<in> set (tbl_indicator_tag_association db) \<and> (k, t) \<in> set (tbl_tag db))"

definition has_source :: "database \<Rightarrow> nat \<Rightarrow> string \<Rightarrow> bool" where
  "has_source db n s =
     (\<exists>k x. (n, k) \<in> set (tbl_indicator_reference_association db) \<and>
        x \<in> set (tbl_intel_reference db) \<and> ref_id x = k \<and>
        (ref_source_id x, s) \<in> set (tbl_intel_source db))"

definition has_reference_user :: "database \<Rightarrow> nat \<Rightarrow> string \<Rightarrow> bool" where
  "has_reference_user db n u =
     (\<exists>k x w. (n, k) \<in> set (tbl_indicator_reference_association db) \<and>
        x \<in> set (tbl_intel_reference db) \<and> ref_id x = k \<and>
        w \<in> set (tbl_user db) \<and> ref_user_id x = usr_id w \<and> usr_username w = u)"

text \<open>The join plans of single-parameter requests, and the rows they produce.\<close>

definition tag_joins :: "(join_kind \<times> table) list" where
  "tag_joins = [(Inner, IndicatorType), (Inner, indicator_tag_association), (Inner, Tag)]"

definition not_tag_joins :: "(join_kind \<times> table) list" where
  "not_tag_joins = [(Inner, IndicatorType), (Outer, indicator_tag_association)]"

definition source_joins :: "(join_kind \<times> table) list" where
  "source_joins = [(Inner, IndicatorType), (Inner, indicator_reference_association),
                   (Inner, IntelReference), (Inner, IntelSource)]"

definition user_joins :: "(join_kind \<times> table) list" where
  "user_joins = [(Inner, IndicatorType), (Inner, indicator_reference_association),
                 (Inner, IntelReference), (Inner, User)]"

definition base_rows :: "database \<Rightarrow> jrow list" where
  "base_rows db =
     join_step db (Inner, IndicatorType) (map (\<lambda>i. (i, Map.empty)) (tbl_indicator db))"

definition tag_rows :: "database \<Rightarrow> jrow list" where
  "tag_rows db =
     join_step db (Inner, Tag) (join_step db (Inner, indicator_tag_association) (base_rows db))"

definition reference_rows :: "database \<Rightarrow> jrow list" where
  "reference_rows db =
     join_step db (Inner, IntelReference)
       (join_step db (Inner, indicator_reference_association) (base_rows db))"

definition source_rows :: "database \<Rightarrow> jrow list" where
  "source_rows db = join_step db (Inner, IntelSource) (reference_rows db)"

definition user_rows :: "database \<Rightarrow> jrow list" where
  "user_rows db = join_step db (Inner, User) (reference_rows db)"

text \<open>
  A create request names a duplicate when an indicator of the store has the type of the
  request and the same value, compared as they are when \<^verbatim>\<open>case_sensitive\<close> is true and
  in lower case otherwise.
\<close>

definition is_duplicate :: "database \<Rightarrow> indicator_create \<Rightarrow> bool" where
  "is_duplicate db data =
     (\<exists>e \<in> set (tbl_indicator db).
        (ind_type_id e, d_type data) \<in> set (tbl_indicator_type db) \<and>
        (if d_case_sensitive data = Some True then ind_value e = d_value data
         else lower (ind_value e) = lower (d_value data)))"

text \<open>
  What the caches of the bulk route remember agrees with the session: a cached user is
  the user the query by that username or API key returns, and a cached type is the row
  the query by that value returns.
\<close>

definition cache_agrees :: "cache \<Rightarrow> database \<Rightarrow> bool" where
  "cache_agrees c db =
     ((\<forall>name u. cache_usernames c name = Some u \<longrightarrow>
          find (\<lambda>u. usr_username u = name) (tbl_user db) = Some u) \<and>
      (\<forall>k u. cache_apikeys c k = Some u \<longrightarrow>
          find (\<lambda>u. usr_apikey u = k) (tbl_user db) = Some u) \<and>
      (\<forall>v n. cache_types c v = Some n \<longrightarrow>
          by_value v (tbl_indicator_type db) = Some (n, v)))"

text \<open>
  The session after some passes of the loop: the users are the same, and the indicators
  and the types of before are still there.
\<close>

definition session_grows :: "database \<Rightarrow> database \<Rightarrow> bool" where
  "session_grows db db' =
     (tbl_user db' = tbl_user db \<and>
      set (tbl_indicator db) \<subseteq> set (tbl_indicator db') \<and>
      set (tbl_indicator_type db) \<subseteq> set (tbl_indicator_type db'))"

text \<open>A configuration that creates nothing, and small requests for the instances.\<close>

definition example_config :: config where
  "example_config =
     \<lparr>auto_create_indicatortype = False, auto_create_indicatorconfidence = False,
      auto_create_indicatorimpact = False, auto_create_indicatorstatus = False,
      auto_create_campaign = False, auto_create_intelreference = False,
      auto_create_tag = False\<rparr>"

definition example_create :: "string \<Rightarrow> string \<Rightarrow> string \<Rightarrow> indicator_create" where
  "example_create username t v =
     \<lparr>d_username = Some username, d_type = t, d_value = v, d_case_sensitive = None,
      d_confidence = None, d_impact = None, d_status = None, d_substring = None,
      d_campaigns = None, d_references = None, d_tags = None\<rparr>"

definition no_update :: indicator_update where
  "no_update =
     \<lparr>u_campaigns = None, u_case_sensitive = None, u_confidence = None, u_impact = None,
      u_references = None, u_status = None, u_substring = None, u_tags = None,
      u_username = None\<rparr>"

section \<open>Properties of the string operations\<close>

lemma str_split_not_Nil: "str_split sep s \<noteq> []"
  by (induction s) (auto split: list.splits)

lemma str_join_split: "str_join sep (str_split sep s) = s"
proof (induction s)
  case Nil
  then show ?case by simp
next
  case (Cons c cs)
  obtain w ws where ws: "str_split sep cs = w # ws"
    using str_split_not_Nil [of sep cs] by (cases "str_split sep cs") auto
  show ?case
  proof (cases "c = sep")
    case True
    with Cons ws show ?thesis by simp
  next
    case False
    with Cons ws show ?thesis by (cases ws) auto
  qed
qed

section \<open>Properties of the planner\<close>

lemma join_once_simps [simp]:
  "filters (join_once t p) = filters p"
  "groupby (join_once t p) = groupby p"
  "having (join_once t p) = having p"
  by (simp_all add: join_once_def)

lemma outerjoin_once_simps [simp]:
  "filters (outerjoin_once t p) = filters p"
  "groupby (outerjoin_once t p) = groupby p"
  "having (outerjoin_once t p) = having p"
  by (simp_all add: outerjoin_once_def)

lemma add_filter_simps [simp]:
  "filters (add_filter f p) = filters p @ [f]"
  "groupby (add_filter f p) = groupby p"
  "having (add_filter f p) = having p"
  "join (add_filter f p) = join p"
  "already_joined (add_filter f p) = already_joined p"
  "already_outerjoined (add_filter f p) = already_outerjoined p"
  by (simp_all add: add_filter_def)

lemma add_having_simps [simp]:
  "filters (add_having h p) = filters p"
  "groupby (add_having h p) = groupby p"
  "having (add_having h p) = having p @ [h]"
  "join (add_having h p) = join p"
  "already_joined (add_having h p) = already_joined p"
  "already_outerjoined (add_having h p) = already_outerjoined p"
  by (simp_all add: add_having_def)

lemma set_groupby_simps [simp]:
  "filters (set_groupby p) = filters p"
  "groupby (set_groupby p) = True"
  "having (set_groupby p) = having p"
  "join (set_groupby p) = join p"
  "already_joined (set_groupby p) = already_joined p"
  "already_outerjoined (set_groupby p) = already_outerjoined p"
  by (simp_all add: set_groupby_def)

lemma add_filters_simps [simp]:
  "filters (add_filters fs p) = filters p @ fs"
  "groupby (add_filters fs p) = groupby p"
  "having (add_filters fs p) = having p"
  "join (add_filters fs p) = join p"
  "already_joined (add_filters fs p) = already_joined p"
  "already_outerjoined (add_filters fs p) = already_outerjoined p"
  unfolding add_filters_def by (induction fs arbitrary: p) simp_all

lemma inclusion_list_simps [simp]:
  "groupby (inclusion_list col v p) = groupby p"
  "join (inclusion_list col v p) = join p"
  "already_joined (inclusion_list col v p) = already_joined p"
  "already_outerjoined (inclusion_list col v p) = already_outerjoined p"
  by (simp_all add: inclusion_list_def Let_def split: prod.splits list_mode.splits)

lemmas block_defs =
  case_sensitive_filter_def confidence_filter_def created_after_filter_def
  created_before_filter_def exact_value_filter_def impact_filter_def
  modified_after_filter_def modified_before_filter_def no_campaigns_filter_def
  no_references_filter_def no_tags_filter_def not_sources_filter_def not_tags_filter_def
  not_users_filter_def reference_filter_def sources_filter_def status_filter_def
  substring_filter_def tags_filter_def type_filter_def types_filter_def user_filter_def
  users_filter_def value_filter_def

lemma run_blocks_invariant:
  assumes "\<And>b q. b \<in> set bs \<Longrightarrow> P q \<Longrightarrow> P (b q)" and "P p"
  shows "P (run_blocks bs p)"
  using assms unfolding run_blocks_def
  by (induction bs arbitrary: p) auto

text \<open>A block whose parameter is absent from the request does nothing.\<close>

lemma absent_noop:
  "a ''case_sensitive'' = None \<Longrightarrow> case_sensitive_filter pb a p = p"
  "a ''confidence'' = None \<Longrightarrow> confidence_filter a p = p"
  "a ''created_after'' = None \<Longrightarrow> created_after_filter parse a p = p"
  "a ''created_before'' = None \<Longrightarrow> created_before_filter parse a p = p"
  "a ''exact_value'' = None \<Longrightarrow> exact_value_filter a p = p"
  "a ''impact'' = None \<Longrightarrow> impact_filter a p = p"
  "a ''modified_after'' = None \<Longrightarrow> modified_after_filter parse a p = p"
  "a ''modified_before'' = None \<Longrightarrow> modified_before_filter parse a p = p"
  "a ''no_campaigns'' = None \<Longrightarrow> no_campaigns_filter a p = p"
  "a ''no_references'' = None \<Longrightarrow> no_references_filter a p = p"
  "a ''no_tags'' = None \<Longrightarrow> no_tags_filter a p = p"
  "a ''not_sources'' = None \<Longrightarrow> not_sources_filter a p = p"
  "a ''not_tags'' = None \<Longrightarrow> not_tags_filter a p = p"
  "a ''not_users'' = None \<Longrightarrow> not_users_filter a p = p"
  "a ''reference'' = None \<Longrightarrow> reference_filter a p = p"
  "a ''sources'' = None \<Longrightarrow> sources_filter a p = p"
  "a ''status'' = None \<Longrightarrow> status_filter a p = p"
  "a ''substring'' = None \<Longrightarrow> substring_filter pb a p = p"
  "a ''tags'' = None \<Longrightarrow> tags_filter a p = p"
  "a ''type'' = None \<Longrightarrow> type_filter a p = p"
  "a ''types'' = None \<Longrightarrow> types_filter a p = p"
  "a ''user'' = None \<Longrightarrow> user_filter a p = p"
  "a ''users'' = None \<Longrightarrow> users_filter a p = p"
  "a ''value'' = None \<Longrightarrow> value_filter a p = p"
  by (simp_all add: block_defs)

text \<open>No block reads the \<^verbatim>\<open>count\<close> parameter.\<close>

lemma count_irrelevant:
  "case_sensitive_filter pb (a(''count'' := c)) = case_sensitive_filter pb a"
  "confidence_filter (a(''count'' := c)) = confidence_filter a"
  "created_after_filter parse (a(''count'' := c)) = created_after_filter parse a"
  "created_before_filter parse (a(''count'' := c)) = created_before_filter parse a"
  "exact_value_filter (a(''count'' := c)) = exact_value_filter a"
  "impact_filter (a(''count'' := c)) = impact_filter a"
  "modified_after_filter parse (a(''count'' := c)) = modified_after_filter parse a"
  "modified_before_filter parse (a(''count'' := c)) = modified_before_filter parse a"
  "no_campaigns_filter (a(''count'' := c)) = no_campaigns_filter a"
  "no_references_filter (a(''count'' := c)) = no_references_filter a"
  "no_tags_filter (a(''count'' := c)) = no_tags_filter a"
  "not_sources_filter (a(''count'' := c)) = not_sources_filter a"
  "not_tags_filter (a(''count'' := c)) = not_tags_filter a"
  "not_users_filter (a(''count'' := c)) = not_users_filter a"
  "reference_filter (a(''count'' := c)) = reference_filter a"
  "sources_filter (a(''count'' := c)) = sources_filter a"
  "status_filter (a(''count'' := c)) = status_filter a"
  "substring_filter pb (a(''count'' := c)) = substring_filter pb a"
  "tags_filter (a(''count'' := c)) = tags_filter a"
  "type_filter (a(''count'' := c)) = type_filter a"
  "types_filter (a(''count'' := c)) = types_filter a"
  "user_filter (a(''count'' := c)) = user_filter a"
  "users_filter (a(''count'' := c)) = users_filter a"
  "value_filter (a(''count'' := c)) = value_filter a"
  by (simp_all add: fun_eq_iff block_defs)

lemma build_plan_count:
  "build_plan parse pb (a(''count'' := c)) = build_plan parse pb a"
  by (simp add: build_plan_def filter_blocks_def count_irrelevant)

subsection \<open>Filters only accumulate\<close>

lemma filters_grow_block:
  assumes "b \<in> set (filter_blocks parse parse_boolean a)"
  shows "set (filters q) \<subseteq> set (filters (b q))"
  using assms unfolding filter_blocks_def
  by (auto simp: block_defs Let_def inclusion_list_def
      split: option.splits prod.splits list_mode.splits)

lemma filters_grow_run:
  assumes "\<And>b q. b \<in> set bs \<Longrightarrow> set (filters q) \<subseteq> set (filters (b q))"
  shows "set (filters p) \<subseteq> set (filters (run_blocks bs p))"
  using assms unfolding run_blocks_def
proof (induction bs arbitrary: p)
  case Nil
  then show ?case by simp
next
  case (Cons b bs)
  have "set (filters p) \<subseteq> set (filters (b p))" using Cons.prems by simp
  also have "\<dots> \<subseteq> set (filters (foldl (\<lambda>q b. b q) (b p) bs))"
    using Cons.IH [of "b p"] Cons.prems by simp
  finally show ?case by simp
qed

lemma block_filter_persists:
  assumes split: "filter_blocks parse parse_boolean a = pre @ b # post"
    and adds: "\<And>q. f \<in> set (filters (b q))"
  shows "f \<in> set (filters (build_plan parse parse_boolean a))"
proof -
  have post: "\<And>c q. c \<in> set post \<Longrightarrow> set (filters q) \<subseteq> set (filters (c q))"
    using filters_grow_block [of _ parse parse_boolean a] split by simp
  have "build_plan parse parse_boolean a = run_blocks post (b (run_blocks pre initial_plan))"
    by (simp add: build_plan_def split run_blocks_def)
  moreover have "f \<in> set (filters (b (run_blocks pre initial_plan)))" by (rule adds)
  moreover have "set (filters (b (run_blocks pre initial_plan)))
      \<subseteq> set (filters (run_blocks post (b (run_blocks pre initial_plan))))"
    by (rule filters_grow_run) (rule post)
  ultimately show ?thesis by auto
qed

subsection \<open>The bookkeeping of joins\<close>

lemma joins_tracked_join_once: "joins_tracked p \<Longrightarrow> joins_tracked (join_once t p)"
  by (auto simp: joins_tracked_def join_once_def)

lemma joins_tracked_outerjoin_once: "joins_tracked p \<Longrightarrow> joins_tracked (outerjoin_once t p)"
  by (auto simp: joins_tracked_def outerjoin_once_def)

lemma joins_tracked_cong:
  "join q = join p \<Longrightarrow> already_joined q = already_joined p \<Longrightarrow>
   already_outerjoined q = already_outerjoined p \<Longrightarrow> joins_tracked p \<Longrightarrow> joins_tracked q"
  by (simp add: joins_tracked_def)

lemmas joins_tracked_intros =
  joins_tracked_join_once joins_tracked_outerjoin_once
  joins_tracked_cong [of "add_filter f p" p for f p, simplified]
  joins_tracked_cong [of "add_filters f p" p for f p, simplified]
  joins_tracked_cong [of "add_having f p" p for f p, simplified]
  joins_tracked_cong [of "set_groupby p" p for p, simplified]
  joins_tracked_cong [of "inclusion_list c v p" p for c v p, simplified]

lemma joins_tracked_block:
  assumes "b \<in> set (filter_blocks parse parse_boolean a)" and "joins_tracked p"
  shows "joins_tracked (b p)"
  using assms unfolding filter_blocks_def
  by (auto simp: block_defs Let_def intro!: joins_tracked_intros split: option.splits)

lemma joins_tracked_initial: "joins_tracked initial_plan"
  by (auto simp: joins_tracked_def initial_plan_def)

lemma joins_tracked_build_plan: "joins_tracked (build_plan parse parse_boolean a)"
  unfolding build_plan_def
  by (rule run_blocks_invariant [where P = joins_tracked])
     (auto intro: joins_tracked_block joins_tracked_initial)

lemmas plan_steps =
  build_plan_def run_blocks_def filter_blocks_def block_defs initial_plan_def
  join_once_def outerjoin_once_def inclusion_list_def list_mode_of_def OR_marker_def
  add_filter_def add_filters_def set_groupby_def add_having_def

text \<open>
  C10: the \<^verbatim>\<open>types\<close> block never recognises the \<^verbatim>\<open>[OR]\<close> marker. For every value
  of the parameter the block appends one WHERE clause built from the comma-separated
  pieces of the value as it is (joined by commas they give the value back, so nothing is
  stripped): one equality for one piece, a disjunction of equalities otherwise. It
  changes nothing else in the plan, and the clause is in the finished plan.
\<close>

theorem types_filter_keeps_marker:
  assumes "a ''types'' = Some v"
  shows "filters (types_filter a p)
           = filters p @ [(case str_split CHR '','' v of
                             [t] \<Rightarrow> Eq IndicatorType_value t
                           | ts \<Rightarrow> Or (map (\<lambda>t. Eq IndicatorType_value t) ts))]
         \<and> str_join CHR '','' (str_split CHR '','' v) = v
         \<and> join (types_filter a p) = join p
         \<and> groupby (types_filter a p) = groupby p
         \<and> having (types_filter a p) = having p
         \<and> (case str_split CHR '','' v of
               [t] \<Rightarrow> Eq IndicatorType_value t
             | ts \<Rightarrow> Or (map (\<lambda>t. Eq IndicatorType_value t) ts))
             \<in> set (filters (build_plan parse parse_boolean a))"
proof -
  let ?c = "(case str_split CHR '','' v of
               [t] \<Rightarrow> Eq IndicatorType_value t
             | ts \<Rightarrow> Or (map (\<lambda>t. Eq IndicatorType_value t) ts))"
  have block: "types_filter a q = add_filter ?c q" for q
  proof (cases "str_split CHR '','' v")
    case Nil
    then show ?thesis using str_split_not_Nil [of "CHR '',''" v] by simp
  next
    case (Cons t ts)
    then show ?thesis using assms
      by (cases ts) (simp_all add: types_filter_def)
  qed
  have "?c \<in> set (filters (build_plan parse parse_boolean a))"
    by (rule block_filter_persists [where b = "types_filter a"
          and pre = "take 20 (filter_blocks parse parse_boolean a)"
          and post = "drop 21 (filter_blocks parse parse_boolean a)"])
       (simp_all add: filter_blocks_def block)
  then show ?thesis
    by (simp add: block str_join_split)
qed

theorem types_filter_keeps_marker_witness:
  "[''types'' \<mapsto> ''[OR]A,B''] ''types'' = Some ''[OR]A,B''
   \<and> filters (types_filter [''types'' \<mapsto> ''[OR]A,B''] initial_plan)
       = [Or [Eq IndicatorType_value ''[OR]A'', Eq IndicatorType_value ''B'']]
   \<and> filters (tags_filter [''tags'' \<mapsto> ''[OR]A,B''] initial_plan)
       = [Or [Eq Tag_value ''A'', Eq Tag_value ''B'']]"
  using types_filter_keeps_marker [of "[''types'' \<mapsto> ''[OR]A,B'']" "''[OR]A,B''" initial_plan]
  by (simp add: plan_steps)

section \<open>Properties of the compiled queries\<close>

lemma add_wheres_eq: "add_wheres fs q = q\<lparr>sel_where := sel_where q @ fs\<rparr>"
  unfolding add_wheres_def by (induction fs arbitrary: q) simp_all

lemma having_call_eq:
  "having_call hs q = (if length hs = 1 then Inr (q\<lparr>sel_having := hs\<rparr>) else Inl TypeError)"
  by (cases hs; cases "tl hs") auto

lemma count_query_grouped:
  "groupby p \<Longrightarrow> length (having p) \<le> 1 \<Longrightarrow> count_query p =
     Inr (Count_from \<lparr>sel_columns = Id_only, sel_from = join p, sel_where = filters p,
                      sel_group_by = True, sel_having = having p, sel_order_by = False\<rparr>)"
  by (cases "having p")
     (simp_all add: count_query_def having_call_eq add_wheres_eq empty_select_def Let_def)

lemma count_query_ungrouped:
  "\<not> groupby p \<Longrightarrow> length (having p) \<le> 1 \<Longrightarrow> count_query p =
     Inr (Select \<lparr>sel_columns = Count_star, sel_from = join p, sel_where = filters p,
                  sel_group_by = False, sel_having = having p, sel_order_by = False\<rparr>)"
  by (cases "having p")
     (simp_all add: count_query_def having_call_eq add_wheres_eq empty_select_def Let_def)

lemma list_query_eq:
  "length (having p) \<le> 1 \<Longrightarrow> list_query p =
     Inr (Select \<lparr>sel_columns = Id_type_value, sel_from = join p, sel_where = filters p,
                  sel_group_by = groupby p, sel_having = having p, sel_order_by = True\<rparr>)"
  by (cases "having p")
     (simp_all add: list_query_def having_call_eq add_wheres_eq empty_select_def Let_def)

lemma query_two_having:
  "1 < length (having p) \<Longrightarrow> count_query p = Inl TypeError"
  "1 < length (having p) \<Longrightarrow> list_query p = Inl TypeError"
  by (cases "having p"; simp add: count_query_def list_query_def having_call_eq Let_def)+

lemma two_having_fails:
  "1 < length (having (build_plan parse pb a)) \<Longrightarrow>
     read_indicators parse pb db a = Server_error TypeError"
  by (simp add: read_indicators_def query_two_having Let_def)

lemma row_dicts_groups:
  "row_dicts (map (output_group Id_type_value) gs) = Inr (map group_dict gs)"
  by (induction gs) (auto simp: group_dict_def split: list.splits)

lemma row_dicts_rows:
  "row_dicts (map (output_row Id_type_value) rs)
     = Inr (map (\<lambda>r. group_dict (ind_id (fst r), [r])) rs)"
  by (induction rs) (auto simp: group_dict_def output_row_def)

text \<open>
  The four ways the route answers when \<^verbatim>\<open>having\<close> holds at most one clause: listing or
  counting, grouped or not.
\<close>

lemma listing_grouped:
  assumes "groupby (build_plan parse pb a)" and "a ''count'' = None"
    and "length (having (build_plan parse pb a)) \<le> 1"
  shows "read_indicators parse pb db a =
     (case from_rows db (join (build_plan parse pb a)) of
        Inl e \<Rightarrow> Server_error e
      | Inr rows \<Rightarrow>
          List_response (map group_dict
            (sort_key fst (kept_groups db (build_plan parse pb a) rows))))"
  using assms
  by (simp add: read_indicators_def list_query_eq exec_select_def kept_groups_def kept_rows_def
      row_dicts_groups Let_def split: sum.splits)

lemma counting_grouped:
  assumes "groupby (build_plan parse pb a)" and "a ''count'' \<noteq> None"
    and "length (having (build_plan parse pb a)) \<le> 1"
  shows "read_indicators parse pb db a =
     (case from_rows db (join (build_plan parse pb a)) of
        Inl e \<Rightarrow> Server_error e
      | Inr rows \<Rightarrow> Count_response (length (kept_groups db (build_plan parse pb a) rows)))"
  using assms
  by (simp add: read_indicators_def count_query_grouped exec_select_def kept_groups_def
      kept_rows_def Let_def split: sum.splits)

lemma listing_ungrouped:
  assumes "\<not> groupby (build_plan parse pb a)" and "having (build_plan parse pb a) = []"
    and "a ''count'' = None"
  shows "read_indicators parse pb db a =
     (case from_rows db (join (build_plan parse pb a)) of
        Inl e \<Rightarrow> Server_error e
      | Inr rows \<Rightarrow>
          List_response (map (\<lambda>r. group_dict (ind_id (fst r), [r]))
            (sort_key (\<lambda>r. ind_id (fst r)) (kept_rows db (build_plan parse pb a) rows))))"
  using assms
  by (simp add: read_indicators_def list_query_eq exec_select_def kept_rows_def
      row_dicts_rows Let_def split: sum.splits)

lemma counting_ungrouped:
  assumes "\<not> groupby (build_plan parse pb a)" and "having (build_plan parse pb a) = []"
    and "a ''count'' \<noteq> None"
  shows "read_indicators parse pb db a =
     (case from_rows db (join (build_plan parse pb a)) of
        Inl e \<Rightarrow> Server_error e
      | Inr rows \<Rightarrow> Count_response (length (kept_rows db (build_plan parse pb a) rows)))"
  using assms
  by (simp add: read_indicators_def count_query_ungrouped exec_select_def kept_rows_def
      Let_def split: sum.splits)

lemma having_grouped_block:
  assumes "b \<in> set (filter_blocks parse parse_boolean a)" and "having_grouped p"
  shows "having_grouped (b p)"
  using assms unfolding filter_blocks_def
  by (auto simp: block_defs Let_def having_grouped_def split: option.splits if_splits)

lemma having_grouped_build_plan: "having_grouped (build_plan parse parse_boolean a)"
  unfolding build_plan_def
proof (rule run_blocks_invariant [where P = having_grouped])
  show "having_grouped initial_plan"
    by (simp add: having_grouped_def initial_plan_def)
qed (rule having_grouped_block)

lemma example_listing_phish:
  "read_indicators no_dates keep_default example_db [''tags'' \<mapsto> ''phish'']
     = List_response [(1, Some ''IP'', ''1.2.3.4''), (2, Some ''IP'', ''5.6.7.8'')]"
  by code_simp

text \<open>
  Counting follows listing: whatever the parameters, when the request without
  \<^verbatim>\<open>count\<close> answers with a list, the request with \<^verbatim>\<open>count\<close> answers with its length,
  and when the one ends in an exception, the other ends in the same exception. When the
  plan needs grouping, the count query is \<^verbatim>\<open>SELECT count(*)\<close> over the grouped query
  that selects the indicator id, so it counts groups.
\<close>

lemma count_follows_listing:
  "read_indicators parse parse_boolean db (a(''count'' \<mapsto> c))
     = (case read_indicators parse parse_boolean db (a(''count'' := None)) of
          List_response data \<Rightarrow> Count_response (length data)
        | other \<Rightarrow> other)"
proof -
  let ?p = "build_plan parse parse_boolean a"
  have plans: "build_plan parse parse_boolean (a(''count'' \<mapsto> c)) = ?p"
    "build_plan parse parse_boolean (a(''count'' := None)) = ?p"
    by (rule build_plan_count)+
  consider (two) "1 < length (having ?p)"
    | (grouped) "length (having ?p) \<le> 1" "groupby ?p"
    | (plain) "length (having ?p) \<le> 1" "\<not> groupby ?p"
    by linarith
  then show ?thesis
  proof cases
    case two
    then show ?thesis
      by (simp add: two_having_fails plans)
  next
    case grouped
    then show ?thesis
      by (simp add: counting_grouped listing_grouped plans split: sum.splits)
  next
    case plain
    then have "having ?p = []"
      using having_grouped_build_plan [of parse parse_boolean a]
      by (simp add: having_grouped_def)
    with plain show ?thesis
      by (simp add: counting_ungrouped listing_ungrouped plans split: sum.splits)
  qed
qed

section \<open>Lenient dates\<close>

lemma only_dates_plan:
  assumes "dom a \<subseteq> date_keys \<union> {''count''}"
  shows "untouched (build_plan parse pb a)"
proof -
  have none: "\<And>k. k \<notin> date_keys \<union> {''count''} \<Longrightarrow> a k = None"
    using assms by (meson domIff subsetD)
  have dates: "\<And>p. untouched p \<Longrightarrow> untouched (created_after_filter parse a p)"
     "\<And>p. untouched p \<Longrightarrow> untouched (created_before_filter parse a p)"
     "\<And>p. untouched p \<Longrightarrow> untouched (modified_after_filter parse a p)"
     "\<And>p. untouched p \<Longrightarrow> untouched (modified_before_filter parse a p)"
    by (simp_all add: untouched_def created_after_filter_def created_before_filter_def
        modified_after_filter_def modified_before_filter_def Let_def split: option.splits)
  have init: "untouched initial_plan" by (simp add: untouched_def initial_plan_def)
  show ?thesis
    by (simp add: build_plan_def run_blocks_def filter_blocks_def absent_noop none dates init
        date_keys_def)
qed

lemma untouched_never_fails:
  assumes "untouched (build_plan parse pb a)"
  shows "read_indicators parse pb db a \<noteq> Server_error e"
proof -
  have rows: "from_rows db [(Inner, IndicatorType)]
      = Inr (join_step db (Inner, IndicatorType) (map (\<lambda>i. (i, Map.empty)) (tbl_indicator db)))"
    by (simp add: from_rows_def)
  show ?thesis
  proof (cases "a ''count''")
    case None
    then show ?thesis
      using assms by (simp add: listing_ungrouped untouched_def rows)
  next
    case (Some c)
    then show ?thesis
      using assms by (simp add: counting_ungrouped untouched_def rows)
  qed
qed

lemma example_listing_dates:
  "read_indicators no_dates keep_default example_db
     [''created_after'' \<mapsto> ''junk'', ''modified_before'' \<mapsto> ''31/31/2019'']
     = List_response []"
  by code_simp

text \<open>
  The listing ends in an exception in two cases only, a second clause in
  \<^verbatim>\<open>having\<close> and the store's refusal of the FROM clause, and the date parser has no
  part in either.
\<close>

lemma same_shape_join_once: "same_shape p q \<Longrightarrow> same_shape (join_once t p) (join_once t q)"
  by (simp add: same_shape_def join_once_def)

lemma same_shape_outerjoin_once:
  "same_shape p q \<Longrightarrow> same_shape (outerjoin_once t p) (outerjoin_once t q)"
  by (simp add: same_shape_def outerjoin_once_def)

lemma same_shape_add_filter: "same_shape p q \<Longrightarrow> same_shape (add_filter f p) (add_filter g q)"
  by (simp add: same_shape_def)

lemma same_shape_add_filters:
  "same_shape p q \<Longrightarrow> same_shape (add_filters fs p) (add_filters gs q)"
  by (simp add: same_shape_def)

lemma same_shape_set_groupby: "same_shape p q \<Longrightarrow> same_shape (set_groupby p) (set_groupby q)"
  by (simp add: same_shape_def)

lemma same_shape_inclusion_list:
  "same_shape p q \<Longrightarrow> same_shape (inclusion_list c v p) (inclusion_list c v q)"
  by (simp add: same_shape_def inclusion_list_def Let_def split: prod.splits list_mode.splits)

lemmas same_shape_intros =
  same_shape_join_once same_shape_outerjoin_once same_shape_add_filter same_shape_add_filters
  same_shape_set_groupby same_shape_inclusion_list

lemma same_shape_blocks:
  "list_all2 (\<lambda>b c. \<forall>p q. same_shape p q \<longrightarrow> same_shape (b p) (c q))
     (filter_blocks parse pb a) (filter_blocks parse' pb a)"
  unfolding filter_blocks_def
  by (auto simp: block_defs Let_def intro!: same_shape_intros split: option.splits)

lemma same_shape_run:
  assumes "list_all2 (\<lambda>b c. \<forall>p q. same_shape p q \<longrightarrow> same_shape (b p) (c q)) bs cs"
    and "same_shape p q"
  shows "same_shape (run_blocks bs p) (run_blocks cs q)"
  using assms unfolding run_blocks_def
  by (induction bs cs arbitrary: p q rule: list_all2_induct) auto

lemma same_shape_build_plan:
  "same_shape (build_plan parse pb a) (build_plan parse' pb a)"
  unfolding build_plan_def
  by (rule same_shape_run [OF same_shape_blocks]) (simp add: same_shape_def)

lemma error_iff:
  "(\<exists>e. read_indicators parse pb db a = Server_error e)
     \<longleftrightarrow> 1 < length (having (build_plan parse pb a))
         \<or> \<not> distinct (map snd (join (build_plan parse pb a)))"
proof -
  let ?p = "build_plan parse pb a"
  have hg: "having ?p = [] \<or> groupby ?p"
    using having_grouped_build_plan [of parse pb a] by (simp add: having_grouped_def)
  show ?thesis
  proof (cases "1 < length (having ?p)")
    case True
    then show ?thesis
      by (simp add: two_having_fails)
  next
    case one: False
    show ?thesis
    proof (cases "groupby ?p"; cases "a ''count''")
      assume "groupby ?p" "a ''count'' = None"
      then show ?thesis
        using one by (simp add: listing_grouped from_rows_def)
    next
      fix c assume "groupby ?p" "a ''count'' = Some c"
      then show ?thesis
        using one by (simp add: counting_grouped from_rows_def)
    next
      assume "\<not> groupby ?p" "a ''count'' = None"
      then show ?thesis
        using hg by (simp add: listing_ungrouped from_rows_def)
    next
      fix c assume "\<not> groupby ?p" "a ''count'' = Some c"
      then show ?thesis
        using hg by (simp add: counting_ungrouped from_rows_def)
    qed
  qed
qed

lemma parser_never_decides_errors:
  "(\<exists>e. read_indicators parse pb db a = Server_error e)
     \<longleftrightarrow> (\<exists>e. read_indicators parse' pb db a = Server_error e)"
  unfolding error_iff
  using same_shape_build_plan [of parse pb a parse'] by (simp add: same_shape_def)

text \<open>
  When the value of \<^verbatim>\<open>created_after\<close>, \<^verbatim>\<open>created_before\<close>, \<^verbatim>\<open>modified_after\<close> or
  \<^verbatim>\<open>modified_before\<close> does not parse, the block appends the strict comparison of the
  indicator's timestamp with the sentinel (the maximum date for \<^verbatim>\<open>*_after\<close>, the
  minimum date for \<^verbatim>\<open>*_before\<close>), and the comparison is in the finished plan.
\<close>

lemma unparseable_date_sentinel:
  "(a ''created_after'' = Some v \<and> parse True v = None \<longrightarrow>
      created_after_filter parse a p
        = add_filter (Lt (Literal date_max) Indicator_created_time) p
      \<and> Lt (Literal date_max) Indicator_created_time
          \<in> set (filters (build_plan parse parse_boolean a)))
   \<and> (a ''created_before'' = Some v \<and> parse True v = None \<longrightarrow>
      created_before_filter parse a p
        = add_filter (Lt Indicator_created_time (Literal date_min)) p
      \<and> Lt Indicator_created_time (Literal date_min)
          \<in> set (filters (build_plan parse parse_boolean a)))
   \<and> (a ''modified_after'' = Some v \<and> parse False v = None \<longrightarrow>
      modified_after_filter parse a p
        = add_filter (Lt (Literal date_max) Indicator_modified_time) p
      \<and> Lt (Literal date_max) Indicator_modified_time
          \<in> set (filters (build_plan parse parse_boolean a)))
   \<and> (a ''modified_before'' = Some v \<and> parse False v = None \<longrightarrow>
      modified_before_filter parse a p
        = add_filter (Lt Indicator_modified_time (Literal date_min)) p
      \<and> Lt Indicator_modified_time (Literal date_min)
          \<in> set (filters (build_plan parse parse_boolean a)))"
proof -
  have ca: "Lt (Literal date_max) Indicator_created_time
              \<in> set (filters (build_plan parse parse_boolean a))"
    if "a ''created_after'' = Some v" "parse True v = None"
    by (rule block_filter_persists [where b = "created_after_filter parse a"
          and pre = "take 2 (filter_blocks parse parse_boolean a)"
          and post = "drop 3 (filter_blocks parse parse_boolean a)"])
       (simp_all add: filter_blocks_def created_after_filter_def that)
  have cb: "Lt Indicator_created_time (Literal date_min)
              \<in> set (filters (build_plan parse parse_boolean a))"
    if "a ''created_before'' = Some v" "parse True v = None"
    by (rule block_filter_persists [where b = "created_before_filter parse a"
          and pre = "take 3 (filter_blocks parse parse_boolean a)"
          and post = "drop 4 (filter_blocks parse parse_boolean a)"])
       (simp_all add: filter_blocks_def created_before_filter_def that)
  have ma: "Lt (Literal date_max) Indicator_modified_time
              \<in> set (filters (build_plan parse parse_boolean a))"
    if "a ''modified_after'' = Some v" "parse False v = None"
    by (rule block_filter_persists [where b = "modified_after_filter parse a"
          and pre = "take 6 (filter_blocks parse parse_boolean a)"
          and post = "drop 7 (filter_blocks parse parse_boolean a)"])
       (simp_all add: filter_blocks_def modified_after_filter_def that)
  have mb: "Lt Indicator_modified_time (Literal date_min)
              \<in> set (filters (build_plan parse parse_boolean a))"
    if "a ''modified_before'' = Some v" "parse False v = None"
    by (rule block_filter_persists [where b = "modified_before_filter parse a"
          and pre = "take 7 (filter_blocks parse parse_boolean a)"
          and post = "drop 8 (filter_blocks parse parse_boolean a)"])
       (simp_all add: filter_blocks_def modified_before_filter_def that)
  have blocks: "(a ''created_after'' = Some v \<and> parse True v = None \<longrightarrow>
        created_after_filter parse a p
          = add_filter (Lt (Literal date_max) Indicator_created_time) p)
      \<and> (a ''created_before'' = Some v \<and> parse True v = None \<longrightarrow>
        created_before_filter parse a p
          = add_filter (Lt Indicator_created_time (Literal date_min)) p)
      \<and> (a ''modified_after'' = Some v \<and> parse False v = None \<longrightarrow>
        modified_after_filter parse a p
          = add_filter (Lt (Literal date_max) Indicator_modified_time) p)
      \<and> (a ''modified_before'' = Some v \<and> parse False v = None \<longrightarrow>
        modified_before_filter parse a p
          = add_filter (Lt Indicator_modified_time (Literal date_min)) p)"
    by (simp add: created_after_filter_def created_before_filter_def
        modified_after_filter_def modified_before_filter_def)
  show ?thesis
    using ca cb ma mb blocks by blast
qed

text \<open>A request made of date parameters only, with or without \<^verbatim>\<open>count\<close>, is answered.\<close>

lemma only_dates_answered:
  "dom a \<subseteq> date_keys \<union> {''count''} \<Longrightarrow>
     read_indicators parse parse_boolean db a \<noteq> Server_error e"
  by (rule untouched_never_fails [OF only_dates_plan])

section \<open>Requests that end in an exception\<close>

lemma not_tags_tags_plan:
  "join (build_plan parse pb [''not_tags'' \<mapsto> ''a'', ''tags'' \<mapsto> ''b''])
     = [(Inner, IndicatorType), (Outer, indicator_tag_association),
        (Inner, indicator_tag_association), (Inner, Tag)]"
  "groupby (build_plan parse pb [''not_tags'' \<mapsto> ''a'', ''tags'' \<mapsto> ''b''])"
  "length (having (build_plan parse pb [''not_tags'' \<mapsto> ''a'', ''tags'' \<mapsto> ''b''])) \<le> 1"
  by (simp_all add: plan_steps)

lemma two_lists_plan:
  "length (having (build_plan parse pb [''tags'' \<mapsto> ''a,b'', ''users'' \<mapsto> ''c,d''])) = 2"
  by (simp add: plan_steps)

lemma count_added:
  "build_plan parse pb (a(''count'' \<mapsto> c)) = build_plan parse pb a"
  by (rule build_plan_count)

text \<open>
  C3: the claim fails on the request \<^verbatim>\<open>GET /indicators?not_tags=a&tags=b\<close>. The
  \<^verbatim>\<open>not_tags\<close> block looks for the indicator-tag association in
  \<^verbatim>\<open>already_outerjoined\<close> and adds an outer join; the \<^verbatim>\<open>tags\<close> block looks for it
  in \<^verbatim>\<open>already_joined\<close>, does not find it there, and adds an inner join: the plan has
  two joins of the table, not one, and whatever the store holds the request ends in the
  exception of a FROM clause that names a table twice. The same happens with
  \<^verbatim>\<open>no_tags\<close> and \<^verbatim>\<open>tags\<close>, and with \<^verbatim>\<open>no_references\<close> and \<^verbatim>\<open>sources\<close>.
\<close>

theorem tag_association_joined_twice:
  "join (build_plan parse parse_boolean [''not_tags'' \<mapsto> ''a'', ''tags'' \<mapsto> ''b''])
     = [(Inner, IndicatorType), (Outer, indicator_tag_association),
        (Inner, indicator_tag_association), (Inner, Tag)]
   \<and> read_indicators parse parse_boolean db [''not_tags'' \<mapsto> ''a'', ''tags'' \<mapsto> ''b'']
       = Server_error Not_unique_table
   \<and> read_indicators parse parse_boolean db [''no_tags'' \<mapsto> [], ''tags'' \<mapsto> ''b'']
       = Server_error Not_unique_table
   \<and> read_indicators parse parse_boolean db [''no_references'' \<mapsto> [], ''sources'' \<mapsto> ''b'']
       = Server_error Not_unique_table"
proof -
  have tags: "read_indicators parse parse_boolean db [''not_tags'' \<mapsto> ''a'', ''tags'' \<mapsto> ''b'']
       = Server_error Not_unique_table"
    using not_tags_tags_plan [of parse parse_boolean]
    by (simp add: listing_grouped from_rows_def)
  have no_tags_plan:
    "groupby (build_plan parse parse_boolean [''no_tags'' \<mapsto> [], ''tags'' \<mapsto> ''b''])"
    "length (having (build_plan parse parse_boolean
        [''no_tags'' \<mapsto> [], ''tags'' \<mapsto> ''b''])) \<le> 1"
    "\<not> distinct (map snd (join (build_plan parse parse_boolean
        [''no_tags'' \<mapsto> [], ''tags'' \<mapsto> ''b''])))"
    by (simp_all add: plan_steps)
  have no_references_plan:
    "groupby (build_plan parse parse_boolean [''no_references'' \<mapsto> [], ''sources'' \<mapsto> ''b''])"
    "length (having (build_plan parse parse_boolean
        [''no_references'' \<mapsto> [], ''sources'' \<mapsto> ''b''])) \<le> 1"
    "\<not> distinct (map snd (join (build_plan parse parse_boolean
        [''no_references'' \<mapsto> [], ''sources'' \<mapsto> ''b''])))"
    by (simp_all add: plan_steps)
  have no_tags: "read_indicators parse parse_boolean db
        [''no_tags'' \<mapsto> [], ''tags'' \<mapsto> ''b''] = Server_error Not_unique_table"
    using no_tags_plan by (simp add: listing_grouped from_rows_def)
  have no_references: "read_indicators parse parse_boolean db
        [''no_references'' \<mapsto> [], ''sources'' \<mapsto> ''b''] = Server_error Not_unique_table"
    using no_references_plan by (simp add: listing_grouped from_rows_def)
  show ?thesis
    using tags no_tags no_references by (simp add: not_tags_tags_plan)
qed

text \<open>
  C1: the claim fails on the request \<^verbatim>\<open>GET /indicators?not_tags=a&tags=b&count\<close>:
  whatever the store holds, the request ends in the exception of a FROM clause that
  names a table twice and returns no number, and so does the same request without
  \<^verbatim>\<open>count\<close>. It fails as well on \<^verbatim>\<open>GET /indicators?tags=a,b&users=c,d&count\<close>: two
  lists that must all match leave two clauses in \<^verbatim>\<open>having\<close>, and
  \<^verbatim>\<open>query.having(*having)\<close> raises \<^verbatim>\<open>TypeError\<close> in both modes.
\<close>

theorem count_fails_with_listing:
  "read_indicators parse parse_boolean db
      [''not_tags'' \<mapsto> ''a'', ''tags'' \<mapsto> ''b'', ''count'' \<mapsto> []]
     = Server_error Not_unique_table
   \<and> read_indicators parse parse_boolean db [''not_tags'' \<mapsto> ''a'', ''tags'' \<mapsto> ''b'']
     = Server_error Not_unique_table
   \<and> read_indicators parse parse_boolean db
      [''tags'' \<mapsto> ''a,b'', ''users'' \<mapsto> ''c,d'', ''count'' \<mapsto> []]
     = Server_error TypeError
   \<and> read_indicators parse parse_boolean db [''tags'' \<mapsto> ''a,b'', ''users'' \<mapsto> ''c,d'']
     = Server_error TypeError"
proof -
  have listing: "read_indicators parse parse_boolean db [''not_tags'' \<mapsto> ''a'', ''tags'' \<mapsto> ''b'']
     = Server_error Not_unique_table"
    using not_tags_tags_plan [of parse parse_boolean]
    by (simp add: listing_grouped from_rows_def)
  have counting: "read_indicators parse parse_boolean db
      ([''not_tags'' \<mapsto> ''a'', ''tags'' \<mapsto> ''b''](''count'' \<mapsto> []))
     = Server_error Not_unique_table"
    by (simp only: count_follows_listing) (simp add: listing)
  have two: "read_indicators parse parse_boolean db [''tags'' \<mapsto> ''a,b'', ''users'' \<mapsto> ''c,d'']
     = Server_error TypeError"
    by (rule two_having_fails) (simp add: two_lists_plan)
  have two_count: "read_indicators parse parse_boolean db
      ([''tags'' \<mapsto> ''a,b'', ''users'' \<mapsto> ''c,d''](''count'' \<mapsto> []))
     = Server_error TypeError"
    by (rule two_having_fails) (simp add: count_added two_lists_plan)
  show ?thesis
    using listing counting two two_count by simp
qed


section \<open>The marker and the comma\<close>

lemma str_split_no_sep: "sep \<notin> set w \<Longrightarrow> str_split sep w = [w]"
  by (induction w) auto

lemma str_split_append:
  "sep \<notin> set w \<Longrightarrow> str_split sep (w @ sep # s) = w # str_split sep s"
  by (induction w) auto

lemma prefix_before_sep:
  assumes "sep \<notin> set m" and "prefix m (w @ sep # s)"
  shows "prefix m w"
proof -
  from assms(2) consider "prefix m w" | us where "m = w @ us" "prefix us (sep # s)"
    by (auto simp: prefix_append)
  then show ?thesis
  proof cases
    case 1
    then show ?thesis .
  next
    case 2
    then show ?thesis using assms(1) by (cases us) auto
  qed
qed

lemma str_contains_across_sep:
  assumes "sep \<notin> set m" and "m \<noteq> []"
    and "\<not> str_contains m w" and "\<not> str_contains m s"
  shows "\<not> str_contains m (w @ sep # s)"
  using assms(3)
proof (induction w)
  case Nil
  have "\<not> prefix m (sep # s)" using assms(1,2) by (cases m) auto
  then show ?case using assms(4) by simp
next
  case (Cons c w)
  then have "\<not> prefix m (c # w)" and "\<not> str_contains m w" by simp_all
  moreover have "prefix m (c # w)" if "prefix m (c # w @ sep # s)"
    using prefix_before_sep [OF assms(1), of "c # w" s] that by simp
  ultimately show ?case using Cons.IH by auto
qed

lemma str_replace_absent:
  "m \<noteq> [] \<Longrightarrow> \<not> str_contains m s \<Longrightarrow> str_replace m new s = s"
  by (induction s) auto

lemma list_mode_of_plain:
  "\<not> str_contains OR_marker s \<Longrightarrow> list_mode_of s = (Mode_and, s)"
  by (simp add: list_mode_of_def)

lemma list_mode_of_marked:
  "\<not> str_contains OR_marker s \<Longrightarrow> list_mode_of (OR_marker @ s) = (Mode_or, s)"
  using str_replace_absent [of OR_marker s "[]"]
  by (simp add: list_mode_of_def OR_marker_def)

lemma marker_facts: "CHR '','' \<notin> set OR_marker" "OR_marker \<noteq> []"
  by (simp_all add: OR_marker_def)

section \<open>The plans of single-parameter requests\<close>

lemma add_filters_eq: "add_filters fs p = p\<lparr>filters := filters p @ fs\<rparr>"
  unfolding add_filters_def by (induction fs arbitrary: p) (simp_all add: add_filter_def)

lemma tags_only_plan:
  "build_plan parse pb [''tags'' \<mapsto> v] = tags_filter [''tags'' \<mapsto> v] initial_plan"
  by (simp add: build_plan_def run_blocks_def filter_blocks_def absent_noop)

lemma tags_and_plan:
  assumes "CHR '','' \<notin> set x" "CHR '','' \<notin> set y"
    "\<not> str_contains OR_marker x" "\<not> str_contains OR_marker y"
  shows "build_plan parse pb [''tags'' \<mapsto> (x @ CHR '','' # y)] =
    \<lparr>filters = [], groupby = True,
     having = [HAnd [SumGt0 (Eq Tag_value x), SumGt0 (Eq Tag_value y)]],
     already_joined = {Tag, indicator_tag_association, IndicatorType},
     already_outerjoined = {}, join = tag_joins\<rparr>"
proof -
  have "\<not> str_contains OR_marker (x @ CHR '','' # y)"
    using assms marker_facts by (intro str_contains_across_sep) auto
  then have mode: "list_mode_of (x @ CHR '','' # y) = (Mode_and, x @ CHR '','' # y)"
    by (rule list_mode_of_plain)
  have split: "str_split CHR '','' (x @ CHR '','' # y) = [x, y]"
    using assms by (simp add: str_split_append str_split_no_sep)
  show ?thesis
    by (simp add: tags_only_plan tags_filter_def inclusion_list_def mode split initial_plan_def
        join_once_def set_groupby_def add_having_def tag_joins_def)
qed

lemma tags_or_plan:
  assumes "CHR '','' \<notin> set x" "CHR '','' \<notin> set y"
    "\<not> str_contains OR_marker x" "\<not> str_contains OR_marker y"
  shows "build_plan parse pb [''tags'' \<mapsto> (OR_marker @ x @ CHR '','' # y)] =
    \<lparr>filters = [Or [Eq Tag_value x, Eq Tag_value y]], groupby = True,
     having = [],
     already_joined = {Tag, indicator_tag_association, IndicatorType},
     already_outerjoined = {}, join = tag_joins\<rparr>"
proof -
  have "\<not> str_contains OR_marker (x @ CHR '','' # y)"
    using assms marker_facts by (intro str_contains_across_sep) auto
  then have mode: "list_mode_of (OR_marker @ x @ CHR '','' # y) = (Mode_or, x @ CHR '','' # y)"
    by (rule list_mode_of_marked)
  have split: "str_split CHR '','' (x @ CHR '','' # y) = [x, y]"
    using assms by (simp add: str_split_append str_split_no_sep)
  show ?thesis
    by (simp add: tags_only_plan tags_filter_def inclusion_list_def mode split initial_plan_def
        join_once_def set_groupby_def add_filter_def tag_joins_def)
qed

lemma not_tags_plan:
  "build_plan parse pb [''not_tags'' \<mapsto> v] =
    \<lparr>filters = map (\<lambda>nt. Not (Any Indicator_tags (Some (Tag_value, nt)))) (str_split CHR '','' v),
     groupby = True, having = [],
     already_joined = {IndicatorType}, already_outerjoined = {indicator_tag_association},
     join = not_tag_joins\<rparr>"
  by (simp add: build_plan_def run_blocks_def filter_blocks_def absent_noop not_tags_filter_def
      initial_plan_def outerjoin_once_def set_groupby_def Let_def not_tag_joins_def
      add_filters_eq)

lemma not_sources_plan:
  "build_plan parse pb [''not_sources'' \<mapsto> v] =
    \<lparr>filters = map (\<lambda>ns. Ne IntelSource_value ns) (str_split CHR '','' v),
     groupby = True, having = [],
     already_joined = {IntelSource, IntelReference, indicator_reference_association,
                       IndicatorType},
     already_outerjoined = {}, join = source_joins\<rparr>"
  by (simp add: build_plan_def run_blocks_def filter_blocks_def absent_noop
      not_sources_filter_def initial_plan_def join_once_def set_groupby_def Let_def
      source_joins_def add_filters_eq)

lemma not_users_plan:
  "build_plan parse pb [''not_users'' \<mapsto> v] =
    \<lparr>filters = map (\<lambda>nu. Ne User_username nu) (str_split CHR '','' v),
     groupby = True, having = [],
     already_joined = {User, IntelReference, indicator_reference_association, IndicatorType},
     already_outerjoined = {}, join = user_joins\<rparr>"
  by (simp add: build_plan_def run_blocks_def filter_blocks_def absent_noop
      not_users_filter_def initial_plan_def join_once_def set_groupby_def Let_def
      user_joins_def add_filters_eq)

section \<open>What a grouped listing returns\<close>

lemma fst_group_dict [simp]: "fst (group_dict g) = fst g"
  by (simp add: group_dict_def split: list.splits)

lemma map_fst_group_dict: "map fst (map group_dict gs) = map fst gs"
  by (induction gs) simp_all

lemma map_fst_group_by_id:
  "map fst (group_by_id rows) = remdups (map (\<lambda>r. ind_id (fst r)) rows)"
  by (simp add: group_by_id_def comp_def)

lemma distinct_map_sort_key: "distinct (map f (sort_key k xs)) = distinct (map f xs)"
  by (simp add: distinct_map)

lemma set_kept_groups:
  "set (kept_groups db p rows)
     = (\<lambda>n. (n, filter (\<lambda>r. ind_id (fst r) = n) (kept_rows db p rows))) `
         {n \<in> (\<lambda>r. ind_id (fst r)) ` set (kept_rows db p rows).
            list_all (eval_having db (filter (\<lambda>r. ind_id (fst r) = n) (kept_rows db p rows)))
              (having p)}"
  by (auto simp: kept_groups_def group_by_id_def)

lemma kept_group_ids:
  "set (map fst (sort_key fst (kept_groups db p rows)))
     = {n. (\<exists>r \<in> set (kept_rows db p rows). ind_id (fst r) = n) \<and>
           list_all (eval_having db (filter (\<lambda>r. ind_id (fst r) = n) (kept_rows db p rows)))
             (having p)}"
  unfolding set_map set_sort set_kept_groups image_image
  by (auto simp: image_iff)

lemma kept_group_ids_distinct:
  "distinct (map fst (sort_key fst (kept_groups db p rows)))"
  unfolding kept_groups_def distinct_map_sort_key
  by (rule distinct_map_filter) (simp add: map_fst_group_by_id)

lemma grouped_listing_ids:
  assumes "groupby (build_plan parse pb a)" and "a ''count'' = None"
    and "from_rows db (join (build_plan parse pb a)) = Inr rows"
    and "length (having (build_plan parse pb a)) \<le> 1"
  shows "\<exists>data. read_indicators parse pb db a = List_response data \<and>
           distinct (map fst data) \<and>
           set (map fst data) =
             {n. (\<exists>r \<in> set (kept_rows db (build_plan parse pb a) rows). ind_id (fst r) = n) \<and>
                 list_all (eval_having db
                     (filter (\<lambda>r. ind_id (fst r) = n) (kept_rows db (build_plan parse pb a) rows)))
                   (having (build_plan parse pb a))}"
proof -
  let ?gs = "sort_key fst (kept_groups db (build_plan parse pb a) rows)"
  have "read_indicators parse pb db a = List_response (map group_dict ?gs)"
    using assms by (simp add: listing_grouped)
  moreover have "distinct (map fst (map group_dict ?gs))"
    unfolding map_fst_group_dict by (rule kept_group_ids_distinct)
  moreover have "set (map fst (map group_dict ?gs)) =
      {n. (\<exists>r \<in> set (kept_rows db (build_plan parse pb a) rows). ind_id (fst r) = n) \<and>
          list_all (eval_having db
              (filter (\<lambda>r. ind_id (fst r) = n) (kept_rows db (build_plan parse pb a) rows)))
            (having (build_plan parse pb a))}"
    unfolding map_fst_group_dict by (rule kept_group_ids)
  ultimately show ?thesis by blast
qed

lemma sum_positive_iff:
  "0 < sum_list (map (\<lambda>r. if P r then (1::nat) else 0) g) \<longleftrightarrow> (\<exists>r \<in> set g. P r)"
  by (induction g) auto

lemma bex_filter: "(\<exists>r \<in> set (filter P xs). Q r) \<longleftrightarrow> (\<exists>r \<in> set xs. P r \<and> Q r)"
  by auto

lemma bex_join_inner:
  "(\<exists>r' \<in> set (join_step db (Inner, t) rows). P r') \<longleftrightarrow>
     (\<exists>r \<in> set rows. \<exists>x \<in> set (table_rows db t).
        on_clause t r x \<and> P (fst r, (snd r)(t \<mapsto> x)))"
  by (auto simp: join_step_def Let_def)

lemma bex_table_rows:
  "(\<exists>x \<in> set (table_rows db IndicatorType). P x)
     \<longleftrightarrow> (\<exists>k v. (k, v) \<in> set (tbl_indicator_type db) \<and> P (Lookup_row k v))"
  "(\<exists>x \<in> set (table_rows db Tag). P x)
     \<longleftrightarrow> (\<exists>k v. (k, v) \<in> set (tbl_tag db) \<and> P (Lookup_row k v))"
  "(\<exists>x \<in> set (table_rows db IntelSource). P x)
     \<longleftrightarrow> (\<exists>k v. (k, v) \<in> set (tbl_intel_source db) \<and> P (Lookup_row k v))"
  "(\<exists>x \<in> set (table_rows db indicator_tag_association). P x)
     \<longleftrightarrow> (\<exists>a b. (a, b) \<in> set (tbl_indicator_tag_association db) \<and> P (Assoc_row a b))"
  "(\<exists>x \<in> set (table_rows db indicator_reference_association). P x)
     \<longleftrightarrow> (\<exists>a b. (a, b) \<in> set (tbl_indicator_reference_association db) \<and> P (Assoc_row a b))"
  "(\<exists>x \<in> set (table_rows db IntelReference). P x)
     \<longleftrightarrow> (\<exists>x \<in> set (tbl_intel_reference db). P (Reference_row x))"
  "(\<exists>x \<in> set (table_rows db User). P x)
     \<longleftrightarrow> (\<exists>u \<in> set (tbl_user db). P (User_row u))"
  by force+

lemma ids_join_outer:
  "(\<lambda>r. ind_id (fst r)) ` set (join_step db (Outer, t) rows)
     = (\<lambda>r. ind_id (fst r)) ` set rows"
proof -
  have "ind_id (fst r) \<in> (\<lambda>r. ind_id (fst r)) ` set (join_step db (Outer, t) rows)"
    if r: "r \<in> set rows" for r
  proof (cases "filter (on_clause t r) (table_rows db t)")
    case Nil
    then have "r \<in> set (join_step db (Outer, t) rows)"
      using r by (auto simp: join_step_def Let_def)
    then show ?thesis by blast
  next
    case (Cons x xs)
    have "(fst r, (snd r)(t \<mapsto> x)) \<in> set (join_step db (Outer, t) rows)"
      unfolding join_step_def set_concat set_map
      by (rule UN_I [OF imageI [OF r]]) (simp add: Cons)
    then have "ind_id (fst (fst r, (snd r)(t \<mapsto> x)))
        \<in> (\<lambda>r. ind_id (fst r)) ` set (join_step db (Outer, t) rows)"
      by (rule imageI)
    then show ?thesis by simp
  qed
  moreover have "ind_id (fst r') \<in> (\<lambda>r. ind_id (fst r)) ` set rows"
    if "r' \<in> set (join_step db (Outer, t) rows)" for r'
    using that by (force simp: join_step_def Let_def split: if_splits)
  ultimately show ?thesis by blast
qed

lemma bex_base_rows:
  "(\<exists>r \<in> set (base_rows db). P r) \<longleftrightarrow>
     (\<exists>i k v. i \<in> set (tbl_indicator db) \<and> (k, v) \<in> set (tbl_indicator_type db) \<and>
        ind_type_id i = k \<and> P (i, [IndicatorType \<mapsto> Lookup_row k v]))"
  unfolding base_rows_def bex_join_inner bex_table_rows
  by (simp del: table_rows.simps) blast

lemma base_ids:
  assumes "types_resolve db"
  shows "(\<lambda>r. ind_id (fst r)) ` set (base_rows db) = indicator_ids db"
proof -
  have "\<exists>v. (ind_type_id i, v) \<in> set (tbl_indicator_type db)" if "i \<in> set (tbl_indicator db)" for i
    using assms that by (force simp: types_resolve_def)
  moreover have "n \<in> (\<lambda>r. ind_id (fst r)) ` set (base_rows db)
      \<longleftrightarrow> (\<exists>r \<in> set (base_rows db). ind_id (fst r) = n)" for n
    by auto
  ultimately show ?thesis
    unfolding set_eq_iff indicator_ids_def
    by (simp add: bex_base_rows image_iff) metis
qed

lemma from_rows_tag_joins: "from_rows db tag_joins = Inr (tag_rows db)"
  by (simp add: from_rows_def tag_joins_def tag_rows_def base_rows_def)

lemma tag_rows_iff:
  assumes "types_resolve db"
  shows "(\<exists>r \<in> set (tag_rows db). ind_id (fst r) = n \<and> column_value r Tag_value = Some t)
     \<longleftrightarrow> n \<in> indicator_ids db \<and> has_tag db n t"
proof -
  have types: "\<exists>v. (ind_type_id i, v) \<in> set (tbl_indicator_type db)"
    if "i \<in> set (tbl_indicator db)" for i
    using assms that by (force simp: types_resolve_def)
  have "(\<exists>r \<in> set (tag_rows db). ind_id (fst r) = n \<and> column_value r Tag_value = Some t)
     \<longleftrightarrow> (\<exists>i k v a b. i \<in> set (tbl_indicator db) \<and> (k, v) \<in> set (tbl_indicator_type db) \<and>
            ind_type_id i = k \<and> (a, b) \<in> set (tbl_indicator_tag_association db) \<and>
            ind_id i = a \<and> (b, t) \<in> set (tbl_tag db) \<and> ind_id i = n)"
    unfolding tag_rows_def bex_join_inner bex_base_rows bex_table_rows
    by (simp del: table_rows.simps)
  also have "\<dots> \<longleftrightarrow> n \<in> indicator_ids db \<and> has_tag db n t"
    using types unfolding indicator_ids_def has_tag_def image_iff by blast
  finally show ?thesis .
qed

lemma related_any_tag: "related_any db n Indicator_tags (Some (Tag_value, t)) = has_tag db n t"
  by (force simp: has_tag_def list_ex_iff criterion_holds_def)

lemma not_tags_kept:
  "list_all (eval_cond db r)
      (map (\<lambda>nt. Not (Any Indicator_tags (Some (Tag_value, nt)))) vs)
     \<longleftrightarrow> (\<forall>t \<in> set vs. \<not> has_tag db (ind_id (fst r)) t)"
  by (simp add: list_all_iff related_any_tag del: related_any.simps)

lemma from_rows_not_tag_joins:
  "from_rows db not_tag_joins
     = Inr (join_step db (Outer, indicator_tag_association) (base_rows db))"
  by (simp add: from_rows_def not_tag_joins_def base_rows_def)

lemma ne_all_kept:
  assumes "vs \<noteq> []"
  shows "list_all (eval_cond db r) (map (\<lambda>s. Ne c s) vs)
     \<longleftrightarrow> (\<exists>s. column_value r c = Some s \<and> s \<notin> set vs)"
proof (cases "column_value r c")
  case None
  then show ?thesis using assms by (cases vs) simp_all
next
  case (Some s)
  then show ?thesis by (auto simp: list_all_iff)
qed

lemma from_rows_source_joins: "from_rows db source_joins = Inr (source_rows db)"
  by (simp add: from_rows_def source_joins_def source_rows_def reference_rows_def base_rows_def)

lemma from_rows_user_joins: "from_rows db user_joins = Inr (user_rows db)"
  by (simp add: from_rows_def user_joins_def user_rows_def reference_rows_def base_rows_def)

lemma source_rows_iff:
  assumes "types_resolve db"
  shows "(\<exists>r \<in> set (source_rows db). ind_id (fst r) = n \<and> column_value r IntelSource_value = Some s)
     \<longleftrightarrow> n \<in> indicator_ids db \<and> has_source db n s"
proof -
  have types: "\<exists>v. (ind_type_id i, v) \<in> set (tbl_indicator_type db)"
    if "i \<in> set (tbl_indicator db)" for i
    using assms that by (force simp: types_resolve_def)
  have "(\<exists>r \<in> set (source_rows db). ind_id (fst r) = n \<and> column_value r IntelSource_value = Some s)
     \<longleftrightarrow> (\<exists>i k v a b. i \<in> set (tbl_indicator db) \<and> (k, v) \<in> set (tbl_indicator_type db) \<and>
            ind_type_id i = k \<and> (a, b) \<in> set (tbl_indicator_reference_association db) \<and>
            ind_id i = a \<and> (\<exists>x \<in> set (tbl_intel_reference db). b = ref_id x \<and>
              (ref_source_id x, s) \<in> set (tbl_intel_source db)) \<and> ind_id i = n)"
    unfolding source_rows_def reference_rows_def bex_join_inner bex_base_rows bex_table_rows
    by (simp del: table_rows.simps) blast
  also have "\<dots> \<longleftrightarrow> n \<in> indicator_ids db \<and> has_source db n s"
    using types unfolding indicator_ids_def has_source_def image_iff by blast
  finally show ?thesis .
qed

lemma user_rows_iff:
  assumes "types_resolve db"
  shows "(\<exists>r \<in> set (user_rows db). ind_id (fst r) = n \<and> column_value r User_username = Some u)
     \<longleftrightarrow> n \<in> indicator_ids db \<and> has_reference_user db n u"
proof -
  have types: "\<exists>v. (ind_type_id i, v) \<in> set (tbl_indicator_type db)"
    if "i \<in> set (tbl_indicator db)" for i
    using assms that by (force simp: types_resolve_def)
  have "(\<exists>r \<in> set (user_rows db). ind_id (fst r) = n \<and> column_value r User_username = Some u)
     \<longleftrightarrow> (\<exists>i k v a b. i \<in> set (tbl_indicator db) \<and> (k, v) \<in> set (tbl_indicator_type db) \<and>
            ind_type_id i = k \<and> (a, b) \<in> set (tbl_indicator_reference_association db) \<and>
            ind_id i = a \<and> (\<exists>x \<in> set (tbl_intel_reference db). b = ref_id x \<and>
              (\<exists>w \<in> set (tbl_user db). ref_user_id x = usr_id w \<and> usr_username w = u)) \<and>
            ind_id i = n)"
    unfolding user_rows_def reference_rows_def bex_join_inner bex_base_rows bex_table_rows
    by (simp del: table_rows.simps) blast
  also have "\<dots> \<longleftrightarrow> n \<in> indicator_ids db \<and> has_reference_user db n u"
    using types unfolding indicator_ids_def has_reference_user_def image_iff by blast
  finally show ?thesis .
qed

lemma types_resolve_example: "types_resolve example_db"
  by (simp add: types_resolve_def example_db_def example_indicator_def)

lemma example_listing_tags_and:
  "read_indicators no_dates keep_default example_db [''tags'' \<mapsto> ''phish,apt'']
     = List_response [(1, Some ''IP'', ''1.2.3.4'')]"
  by code_simp

lemma example_listing_tags_or:
  "read_indicators no_dates keep_default example_db [''tags'' \<mapsto> ''[OR]phish,apt'']
     = List_response [(1, Some ''IP'', ''1.2.3.4''), (2, Some ''IP'', ''5.6.7.8'')]"
  by code_simp

lemma example_listing_not_tags:
  "read_indicators no_dates keep_default example_db [''not_tags'' \<mapsto> ''apt'']
     = List_response [(2, Some ''IP'', ''5.6.7.8''), (3, Some ''Domain'', ''evil.com'')]"
  by code_simp

lemma example_listing_not_sources:
  "read_indicators no_dates keep_default example_db [''not_sources'' \<mapsto> ''OSINT'']
     = List_response [(1, Some ''IP'', ''1.2.3.4'')]"
  by code_simp

lemma example_listing_not_users:
  "read_indicators no_dates keep_default example_db [''not_users'' \<mapsto> ''alice'']
     = List_response [(1, Some ''IP'', ''1.2.3.4'')]"
  by code_simp

text \<open>
  C2: with every indicator's type row present and \<open>x\<close>, \<open>y\<close> two values without a
  comma and without the marker, \<^verbatim>\<open>tags=x,y\<close> forces grouping and compiles to one
  HAVING clause, the conjunction of "the sum over the group of (tag value = the value)
  is greater than zero" for \<open>x\<close> and for \<open>y\<close>, and the listing returns exactly the
  indicators that have both tags, each once; \<^verbatim>\<open>tags=[OR]x,y\<close> compiles to one WHERE
  clause, the disjunction of the two equalities, and the listing returns exactly the
  indicators that have at least one of the two tags, each once.
\<close>

theorem tags_inclusion:
  assumes "types_resolve db"
    and "CHR '','' \<notin> set x" and "CHR '','' \<notin> set y"
    and "\<not> str_contains OR_marker x" and "\<not> str_contains OR_marker y"
  shows "groupby (build_plan parse parse_boolean [''tags'' \<mapsto> (x @ '','' @ y)])
    \<and> having (build_plan parse parse_boolean [''tags'' \<mapsto> (x @ '','' @ y)])
        = [HAnd [SumGt0 (Eq Tag_value x), SumGt0 (Eq Tag_value y)]]
    \<and> (\<exists>data. read_indicators parse parse_boolean db [''tags'' \<mapsto> (x @ '','' @ y)]
                 = List_response data
          \<and> distinct (map fst data)
          \<and> set (map fst data) = {n \<in> indicator_ids db. has_tag db n x \<and> has_tag db n y})
    \<and> groupby (build_plan parse parse_boolean [''tags'' \<mapsto> (OR_marker @ x @ '','' @ y)])
    \<and> filters (build_plan parse parse_boolean [''tags'' \<mapsto> (OR_marker @ x @ '','' @ y)])
        = [Or [Eq Tag_value x, Eq Tag_value y]]
    \<and> (\<exists>data. read_indicators parse parse_boolean db [''tags'' \<mapsto> (OR_marker @ x @ '','' @ y)]
                 = List_response data
          \<and> distinct (map fst data)
          \<and> set (map fst data) = {n \<in> indicator_ids db. has_tag db n x \<or> has_tag db n y})"
proof -
  let ?a = "[''tags'' \<mapsto> (x @ CHR '','' # y)]"
  let ?o = "[''tags'' \<mapsto> (OR_marker @ x @ CHR '','' # y)]"
  note pa = tags_and_plan [OF assms(2-5), of parse parse_boolean]
  note po = tags_or_plan [OF assms(2-5), of parse parse_boolean]
  have rows_a: "from_rows db (join (build_plan parse parse_boolean ?a)) = Inr (tag_rows db)"
    by (simp add: pa from_rows_tag_joins)
  have rows_o: "from_rows db (join (build_plan parse parse_boolean ?o)) = Inr (tag_rows db)"
    by (simp add: po from_rows_tag_joins)
  have in_group: "(\<exists>r \<in> set (filter (\<lambda>r. ind_id (fst r) = n) (tag_rows db)).
                     column_value r Tag_value = Some t)
      \<longleftrightarrow> n \<in> indicator_ids db \<and> has_tag db n t" for n t
    by (simp only: bex_filter tag_rows_iff [OF assms(1)])
  have a_rows: "kept_rows db (build_plan parse parse_boolean ?a) (tag_rows db) = tag_rows db"
    by (simp add: pa kept_rows_def)
  have a_having: "list_all (eval_having db (filter (\<lambda>r. ind_id (fst r) = n) (tag_rows db)))
        (having (build_plan parse parse_boolean ?a))
      \<longleftrightarrow> n \<in> indicator_ids db \<and> has_tag db n x \<and> has_tag db n y" for n
    by (simp add: pa sum_positive_iff in_group del: set_filter split_paired_Ex) blast
  have a_some: "\<exists>r \<in> set (tag_rows db). ind_id (fst r) = n"
    if "n \<in> indicator_ids db" "has_tag db n x" for n
    using tag_rows_iff [OF assms(1), of n x] that by blast
  have ids_a: "{n. (\<exists>r \<in> set (kept_rows db (build_plan parse parse_boolean ?a) (tag_rows db)).
                      ind_id (fst r) = n) \<and>
                 list_all (eval_having db
                     (filter (\<lambda>r. ind_id (fst r) = n)
                        (kept_rows db (build_plan parse parse_boolean ?a) (tag_rows db))))
                   (having (build_plan parse parse_boolean ?a))}
      = {n \<in> indicator_ids db. has_tag db n x \<and> has_tag db n y}"
    unfolding a_rows a_having using a_some by blast
  have o_rows: "(\<exists>r \<in> set (kept_rows db (build_plan parse parse_boolean ?o) (tag_rows db)).
                   ind_id (fst r) = n)
      \<longleftrightarrow> n \<in> indicator_ids db \<and> (has_tag db n x \<or> has_tag db n y)" for n
  proof -
    have "(\<exists>r \<in> set (kept_rows db (build_plan parse parse_boolean ?o) (tag_rows db)).
                   ind_id (fst r) = n)
      \<longleftrightarrow> (\<exists>r \<in> set (tag_rows db). ind_id (fst r) = n \<and> column_value r Tag_value = Some x)
        \<or> (\<exists>r \<in> set (tag_rows db). ind_id (fst r) = n \<and> column_value r Tag_value = Some y)"
      by (simp add: po kept_rows_def bex_filter del: set_filter split_paired_Ex) blast
    then show ?thesis
      by (simp only: tag_rows_iff [OF assms(1)]) blast
  qed
  have o_having: "having (build_plan parse parse_boolean ?o) = []"
    by (simp add: po)
  have ids_o: "{n. (\<exists>r \<in> set (kept_rows db (build_plan parse parse_boolean ?o) (tag_rows db)).
                      ind_id (fst r) = n) \<and>
                 list_all (eval_having db
                     (filter (\<lambda>r. ind_id (fst r) = n)
                        (kept_rows db (build_plan parse parse_boolean ?o) (tag_rows db))))
                   (having (build_plan parse parse_boolean ?o))}
      = {n \<in> indicator_ids db. has_tag db n x \<or> has_tag db n y}"
    unfolding o_rows o_having by simp
  have la: "\<exists>data. read_indicators parse parse_boolean db ?a = List_response data
          \<and> distinct (map fst data)
          \<and> set (map fst data) = {n \<in> indicator_ids db. has_tag db n x \<and> has_tag db n y}"
    using grouped_listing_ids [OF _ _ rows_a] unfolding ids_a by (simp add: pa)
  have lo: "\<exists>data. read_indicators parse parse_boolean db ?o = List_response data
          \<and> distinct (map fst data)
          \<and> set (map fst data) = {n \<in> indicator_ids db. has_tag db n x \<or> has_tag db n y}"
    using grouped_listing_ids [OF _ _ rows_o] unfolding ids_o by (simp add: po)
  show ?thesis
    using la lo by (simp add: pa po)
qed

theorem tags_inclusion_witness:
  "types_resolve example_db
   \<and> CHR '','' \<notin> set ''phish'' \<and> CHR '','' \<notin> set ''apt''
   \<and> \<not> str_contains OR_marker ''phish'' \<and> \<not> str_contains OR_marker ''apt''
   \<and> read_indicators no_dates keep_default example_db [''tags'' \<mapsto> ''phish,apt'']
       = List_response [(1, Some ''IP'', ''1.2.3.4'')]
   \<and> {n \<in> indicator_ids example_db.
         has_tag example_db n ''phish'' \<and> has_tag example_db n ''apt''} = {1}
   \<and> read_indicators no_dates keep_default example_db [''tags'' \<mapsto> ''[OR]phish,apt'']
       = List_response [(1, Some ''IP'', ''1.2.3.4''), (2, Some ''IP'', ''5.6.7.8'')]
   \<and> {n \<in> indicator_ids example_db.
         has_tag example_db n ''phish'' \<or> has_tag example_db n ''apt''} = {1, 2}"
proof -
  have h: "CHR '','' \<notin> set ''phish''" "CHR '','' \<notin> set ''apt''"
    "\<not> str_contains OR_marker ''phish''" "\<not> str_contains OR_marker ''apt''"
    by (simp_all add: OR_marker_def)
  from tags_inclusion [OF types_resolve_example h, of no_dates keep_default]
  have "{n \<in> indicator_ids example_db.
           has_tag example_db n ''phish'' \<and> has_tag example_db n ''apt''} = {1}"
    and "{n \<in> indicator_ids example_db.
           has_tag example_db n ''phish'' \<or> has_tag example_db n ''apt''} = {1, 2}"
    by (simp_all add: OR_marker_def example_listing_tags_and example_listing_tags_or)
  then show ?thesis
    using h types_resolve_example example_listing_tags_and example_listing_tags_or by simp
qed

text \<open>
  C5: with every indicator's type row present, \<^verbatim>\<open>not_tags=v\<close> outer-joins the tag
  association (and joins nothing else), forces grouping, and appends one negated
  existence predicate per comma-separated value; the listing returns exactly the
  indicators that have none of these tags, each once, among them every indicator with
  no tag at all. For a value without a comma that is: exactly the indicators that lack
  the tag.
\<close>

theorem not_tags_exclusion:
  assumes "types_resolve db"
  shows "join (build_plan parse parse_boolean [''not_tags'' \<mapsto> v])
           = [(Inner, IndicatorType), (Outer, indicator_tag_association)]
    \<and> groupby (build_plan parse parse_boolean [''not_tags'' \<mapsto> v])
    \<and> filters (build_plan parse parse_boolean [''not_tags'' \<mapsto> v])
        = map (\<lambda>nt. Not (Any Indicator_tags (Some (Tag_value, nt)))) (str_split CHR '','' v)
    \<and> (\<exists>data. read_indicators parse parse_boolean db [''not_tags'' \<mapsto> v] = List_response data
          \<and> distinct (map fst data)
          \<and> set (map fst data)
              = {n \<in> indicator_ids db. \<forall>t \<in> set (str_split CHR '','' v). \<not> has_tag db n t}
          \<and> {n \<in> indicator_ids db. \<forall>t. \<not> has_tag db n t} \<subseteq> set (map fst data))
    \<and> (CHR '','' \<notin> set v \<longrightarrow> str_split CHR '','' v = [v])"
proof -
  let ?a = "[''not_tags'' \<mapsto> v]"
  let ?rows = "join_step db (Outer, indicator_tag_association) (base_rows db)"
  note p = not_tags_plan [of parse parse_boolean v]
  have rows: "from_rows db (join (build_plan parse parse_boolean ?a)) = Inr ?rows"
    by (simp add: p from_rows_not_tag_joins)
  have row_ids: "(\<exists>r \<in> set ?rows. ind_id (fst r) = n) \<longleftrightarrow> n \<in> indicator_ids db" for n
    using ids_join_outer [of db indicator_tag_association "base_rows db"] base_ids [OF assms]
    by (auto simp: image_iff set_eq_iff) metis+
  have kept: "(\<exists>r \<in> set (kept_rows db (build_plan parse parse_boolean ?a) ?rows).
                 ind_id (fst r) = n)
      \<longleftrightarrow> n \<in> indicator_ids db \<and> (\<forall>t \<in> set (str_split CHR '','' v). \<not> has_tag db n t)" for n
  proof -
    have "(\<exists>r \<in> set (kept_rows db (build_plan parse parse_boolean ?a) ?rows).
                 ind_id (fst r) = n)
      \<longleftrightarrow> (\<exists>r \<in> set ?rows. ind_id (fst r) = n)
            \<and> (\<forall>t \<in> set (str_split CHR '','' v). \<not> has_tag db n t)"
      unfolding kept_rows_def p bex_filter
      by (simp only: plan.simps not_tags_kept) blast
    then show ?thesis by (simp only: row_ids)
  qed
  have ids: "{n. (\<exists>r \<in> set (kept_rows db (build_plan parse parse_boolean ?a) ?rows).
                      ind_id (fst r) = n) \<and>
                 list_all (eval_having db
                     (filter (\<lambda>r. ind_id (fst r) = n)
                        (kept_rows db (build_plan parse parse_boolean ?a) ?rows)))
                   (having (build_plan parse parse_boolean ?a))}
      = {n \<in> indicator_ids db. \<forall>t \<in> set (str_split CHR '','' v). \<not> has_tag db n t}"
    unfolding kept by (simp add: p)
  have listing: "\<exists>data. read_indicators parse parse_boolean db ?a = List_response data
          \<and> distinct (map fst data)
          \<and> set (map fst data)
              = {n \<in> indicator_ids db. \<forall>t \<in> set (str_split CHR '','' v). \<not> has_tag db n t}"
    using grouped_listing_ids [OF _ _ rows] unfolding ids by (simp add: p)
  then obtain data where data: "read_indicators parse parse_boolean db ?a = List_response data"
    "distinct (map fst data)"
    "set (map fst data)
       = {n \<in> indicator_ids db. \<forall>t \<in> set (str_split CHR '','' v). \<not> has_tag db n t}"
    by blast
  have "{n \<in> indicator_ids db. \<forall>t. \<not> has_tag db n t} \<subseteq> set (map fst data)"
    unfolding data(3) by blast
  with data show ?thesis
    by (simp add: p not_tag_joins_def str_split_no_sep)
qed

theorem not_tags_exclusion_witness:
  "types_resolve example_db
   \<and> read_indicators no_dates keep_default example_db [''not_tags'' \<mapsto> ''apt'']
       = List_response [(2, Some ''IP'', ''5.6.7.8''), (3, Some ''Domain'', ''evil.com'')]
   \<and> {n \<in> indicator_ids example_db.
         \<forall>t \<in> set (str_split CHR '','' ''apt''). \<not> has_tag example_db n t} = {2, 3}
   \<and> {n \<in> indicator_ids example_db. \<forall>t. \<not> has_tag example_db n t} \<subseteq> {2, 3}
   \<and> str_split CHR '','' ''apt'' = [''apt'']"
proof -
  from not_tags_exclusion [OF types_resolve_example, of no_dates keep_default "''apt''"]
  have "{n \<in> indicator_ids example_db.
           \<forall>t \<in> set (str_split CHR '','' ''apt''). \<not> has_tag example_db n t} = {2, 3}"
    and "{n \<in> indicator_ids example_db. \<forall>t. \<not> has_tag example_db n t} \<subseteq> {2, 3}"
    by (simp_all add: example_listing_not_tags) auto
  then show ?thesis
    using types_resolve_example example_listing_not_tags by simp
qed

text \<open>
  C6: \<^verbatim>\<open>not_sources=v\<close> (and \<^verbatim>\<open>not_users=v\<close>) joins the reference association, the
  references and the sources (the users), forces grouping, and appends one \<^verbatim>\<open>!=\<close>
  WHERE clause per comma-separated value. A joined row passes the clauses exactly when
  its source value (the username of its reference) differs from every listed value, so,
  with every indicator's type row present, the listing returns exactly the indicators
  that have some reference whose source (user) is not listed: an indicator that has a
  listed source and another one is returned.
\<close>

theorem exclusion_per_row:
  assumes "types_resolve db"
  shows "join (build_plan parse parse_boolean [''not_sources'' \<mapsto> v])
           = [(Inner, IndicatorType), (Inner, indicator_reference_association),
              (Inner, IntelReference), (Inner, IntelSource)]
    \<and> groupby (build_plan parse parse_boolean [''not_sources'' \<mapsto> v])
    \<and> filters (build_plan parse parse_boolean [''not_sources'' \<mapsto> v])
        = map (\<lambda>ns. Ne IntelSource_value ns) (str_split CHR '','' v)
    \<and> (\<forall>r. list_all (eval_cond db r)
               (filters (build_plan parse parse_boolean [''not_sources'' \<mapsto> v]))
            \<longleftrightarrow> (\<exists>s. column_value r IntelSource_value = Some s
                     \<and> s \<notin> set (str_split CHR '','' v)))
    \<and> (\<exists>data. read_indicators parse parse_boolean db [''not_sources'' \<mapsto> v] = List_response data
          \<and> distinct (map fst data)
          \<and> set (map fst data)
              = {n \<in> indicator_ids db.
                   \<exists>s. has_source db n s \<and> s \<notin> set (str_split CHR '','' v)})
    \<and> join (build_plan parse parse_boolean [''not_users'' \<mapsto> v])
           = [(Inner, IndicatorType), (Inner, indicator_reference_association),
              (Inner, IntelReference), (Inner, User)]
    \<and> groupby (build_plan parse parse_boolean [''not_users'' \<mapsto> v])
    \<and> filters (build_plan parse parse_boolean [''not_users'' \<mapsto> v])
        = map (\<lambda>nu. Ne User_username nu) (str_split CHR '','' v)
    \<and> (\<forall>r. list_all (eval_cond db r)
               (filters (build_plan parse parse_boolean [''not_users'' \<mapsto> v]))
            \<longleftrightarrow> (\<exists>u. column_value r User_username = Some u
                     \<and> u \<notin> set (str_split CHR '','' v)))
    \<and> (\<exists>data. read_indicators parse parse_boolean db [''not_users'' \<mapsto> v] = List_response data
          \<and> distinct (map fst data)
          \<and> set (map fst data)
              = {n \<in> indicator_ids db.
                   \<exists>u. has_reference_user db n u \<and> u \<notin> set (str_split CHR '','' v)})"
proof -
  let ?s = "[''not_sources'' \<mapsto> v]"
  let ?u = "[''not_users'' \<mapsto> v]"
  let ?vs = "str_split CHR '','' v"
  note ps = not_sources_plan [of parse parse_boolean v]
  note pu = not_users_plan [of parse parse_boolean v]
  have vs: "?vs \<noteq> []" by (rule str_split_not_Nil)
  have rows_s: "from_rows db (join (build_plan parse parse_boolean ?s)) = Inr (source_rows db)"
    by (simp add: ps from_rows_source_joins)
  have rows_u: "from_rows db (join (build_plan parse parse_boolean ?u)) = Inr (user_rows db)"
    by (simp add: pu from_rows_user_joins)
  have row_s: "list_all (eval_cond db r) (filters (build_plan parse parse_boolean ?s))
      \<longleftrightarrow> (\<exists>s. column_value r IntelSource_value = Some s \<and> s \<notin> set ?vs)" for r
    unfolding ps by (simp only: plan.simps ne_all_kept [OF vs])
  have row_u: "list_all (eval_cond db r) (filters (build_plan parse parse_boolean ?u))
      \<longleftrightarrow> (\<exists>u. column_value r User_username = Some u \<and> u \<notin> set ?vs)" for r
    unfolding pu by (simp only: plan.simps ne_all_kept [OF vs])
  have kept_s: "(\<exists>r \<in> set (kept_rows db (build_plan parse parse_boolean ?s) (source_rows db)).
                   ind_id (fst r) = n)
      \<longleftrightarrow> n \<in> indicator_ids db \<and> (\<exists>s. has_source db n s \<and> s \<notin> set ?vs)" for n
  proof -
    have "(\<exists>r \<in> set (kept_rows db (build_plan parse parse_boolean ?s) (source_rows db)).
                   ind_id (fst r) = n)
      \<longleftrightarrow> (\<exists>s. (\<exists>r \<in> set (source_rows db).
                    ind_id (fst r) = n \<and> column_value r IntelSource_value = Some s)
               \<and> s \<notin> set ?vs)"
      unfolding kept_rows_def bex_filter row_s by blast
    then show ?thesis
      by (simp only: source_rows_iff [OF assms]) blast
  qed
  have kept_u: "(\<exists>r \<in> set (kept_rows db (build_plan parse parse_boolean ?u) (user_rows db)).
                   ind_id (fst r) = n)
      \<longleftrightarrow> n \<in> indicator_ids db \<and> (\<exists>u. has_reference_user db n u \<and> u \<notin> set ?vs)" for n
  proof -
    have "(\<exists>r \<in> set (kept_rows db (build_plan parse parse_boolean ?u) (user_rows db)).
                   ind_id (fst r) = n)
      \<longleftrightarrow> (\<exists>u. (\<exists>r \<in> set (user_rows db).
                    ind_id (fst r) = n \<and> column_value r User_username = Some u)
               \<and> u \<notin> set ?vs)"
      unfolding kept_rows_def bex_filter row_u by blast
    then show ?thesis
      by (simp only: user_rows_iff [OF assms]) blast
  qed
  have hs: "having (build_plan parse parse_boolean ?s) = []" by (simp add: ps)
  have hu: "having (build_plan parse parse_boolean ?u) = []" by (simp add: pu)
  have ls: "\<exists>data. read_indicators parse parse_boolean db ?s = List_response data
          \<and> distinct (map fst data)
          \<and> set (map fst data)
              = {n \<in> indicator_ids db. \<exists>s. has_source db n s \<and> s \<notin> set ?vs}"
    using grouped_listing_ids [OF _ _ rows_s] unfolding kept_s hs by (simp add: ps)
  have lu: "\<exists>data. read_indicators parse parse_boolean db ?u = List_response data
          \<and> distinct (map fst data)
          \<and> set (map fst data)
              = {n \<in> indicator_ids db. \<exists>u. has_reference_user db n u \<and> u \<notin> set ?vs}"
    using grouped_listing_ids [OF _ _ rows_u] unfolding kept_u hu by (simp add: pu)
  have plan_s: "join (build_plan parse parse_boolean ?s)
           = [(Inner, IndicatorType), (Inner, indicator_reference_association),
              (Inner, IntelReference), (Inner, IntelSource)]
    \<and> groupby (build_plan parse parse_boolean ?s)
    \<and> filters (build_plan parse parse_boolean ?s) = map (\<lambda>ns. Ne IntelSource_value ns) ?vs"
    by (simp add: ps source_joins_def)
  have plan_u: "join (build_plan parse parse_boolean ?u)
           = [(Inner, IndicatorType), (Inner, indicator_reference_association),
              (Inner, IntelReference), (Inner, User)]
    \<and> groupby (build_plan parse parse_boolean ?u)
    \<and> filters (build_plan parse parse_boolean ?u) = map (\<lambda>nu. Ne User_username nu) ?vs"
    by (simp add: pu user_joins_def)
  from plan_s plan_u row_s row_u ls lu show ?thesis by blast
qed

theorem exclusion_per_row_witness:
  "types_resolve example_db
   \<and> read_indicators no_dates keep_default example_db [''not_sources'' \<mapsto> ''OSINT'']
       = List_response [(1, Some ''IP'', ''1.2.3.4'')]
   \<and> has_source example_db 1 ''OSINT''
   \<and> {n \<in> indicator_ids example_db.
         \<exists>s. has_source example_db n s \<and> s \<notin> set (str_split CHR '','' ''OSINT'')} = {1}
   \<and> read_indicators no_dates keep_default example_db [''not_users'' \<mapsto> ''alice'']
       = List_response [(1, Some ''IP'', ''1.2.3.4'')]"
proof -
  have osint: "has_source example_db 1 ''OSINT''"
    unfolding has_source_def
    by (rule exI [of _ 1],
        rule exI [of _ "\<lparr>ref_id = 1, ref_reference = ''http://a'', ref_source_id = 1,
                         ref_user_id = 1\<rparr>"])
       (simp add: example_db_def)
  from exclusion_per_row [OF types_resolve_example, of no_dates keep_default "''OSINT''"]
  have "{n \<in> indicator_ids example_db.
           \<exists>s. has_source example_db n s \<and> s \<notin> set (str_split CHR '','' ''OSINT'')} = {1}"
    by (simp add: example_listing_not_sources)
  then show ?thesis
    using osint types_resolve_example example_listing_not_sources example_listing_not_users
    by simp
qed

section \<open>Duplicates, inactive users and unknown names\<close>

lemma by_value_unique:
  "distinct (map snd tbl) \<Longrightarrow> (k, v) \<in> set tbl \<Longrightarrow> by_value v tbl = Some (k, v)"
  unfolding by_value_def by (induction tbl) (auto simp: image_iff)

lemma by_value_snd: "by_value v tbl = Some r \<Longrightarrow> r = (fst r, v) \<and> r \<in> set tbl"
  unfolding by_value_def by (auto simp: find_Some_iff)

lemma by_value_append:
  "by_value v (tbl @ [x]) = (case by_value v tbl of Some r \<Rightarrow> Some r
                              | None \<Rightarrow> if snd x = v then Some x else None)"
  unfolding by_value_def by (induction tbl) auto

lemma by_value_None: "by_value v tbl = None \<Longrightarrow> v \<notin> snd ` set tbl"
  unfolding by_value_def by (auto simp: find_None_iff)

lemma session_grows_refl: "session_grows db db"
  by (simp add: session_grows_def)

lemma session_grows_trans:
  "session_grows a b \<Longrightarrow> session_grows b c \<Longrightarrow> session_grows a c"
  by (auto simp: session_grows_def)

lemma is_duplicate_grows:
  "session_grows db db' \<Longrightarrow> is_duplicate db data \<Longrightarrow> is_duplicate db' data"
  unfolding is_duplicate_def session_grows_def by blast

lemma find_user_grows:
  "session_grows db db' \<Longrightarrow> find_user db' username apikey = find_user db username apikey"
  by (auto simp: find_user_def session_grows_def split: option.splits)

text \<open>The lookup of the user, with the cache.\<close>

lemma cached_user_agrees:
  assumes "cache_agrees c db"
  shows "case cached_user db username apikey c of
           Inl e \<Rightarrow> find_user db username apikey = Inl e
         | Inr (u, c1) \<Rightarrow> find_user db username apikey = Inr u \<and> cache_agrees c1 db \<and>
               cache_types c1 = cache_types c"
  using assms
  by (auto simp: cached_user_def find_user_def cache_agrees_def split: option.splits)

text \<open>The lookup of the type, with the cache.\<close>

lemma cached_lookup_agrees:
  assumes "\<forall>v n. c v = Some n \<longrightarrow> by_value v tbl = Some (n, v)"
    and "distinct (map snd tbl)"
    and "cached_lookup auto_create message v c tbl = Inr (n, c', tbl')"
  shows "(\<forall>v n. c' v = Some n \<longrightarrow> by_value v tbl' = Some (n, v)) \<and>
         distinct (map snd tbl') \<and> set tbl \<subseteq> set tbl' \<and>
         (by_value v tbl \<noteq> None \<longrightarrow> tbl' = tbl \<and> by_value v tbl = Some (n, v))"
proof (cases "c v")
  case (Some k)
  then show ?thesis using assms by (auto simp: cached_lookup_def)
next
  case None
  show ?thesis
  proof (cases "by_value v tbl")
    case found: (Some r)
    then have "r = (fst r, v)" by (auto dest: by_value_snd)
    then show ?thesis
      using assms None found
      by (auto simp: cached_lookup_def resolve_lookup_def split: if_splits)
  next
    case missing: None
    then have fresh: "v \<notin> snd ` set tbl" by (rule by_value_None)
    from assms(3) None missing
    have res: "auto_create" "n = fresh_id (map fst tbl)" "c' = c(v \<mapsto> n)" "tbl' = tbl @ [(n, v)]"
      by (auto simp: cached_lookup_def resolve_lookup_def Let_def split: if_splits)
    show ?thesis
      using assms(1,2) fresh missing unfolding res
      by (auto simp: by_value_append)
  qed
qed

text \<open>What the rest of a pass leaves alone.\<close>

lemma cached_references_frame:
  "cached_references auto_create user_id items c db = Inr (ns, c', db') \<Longrightarrow>
     cache_usernames c' = cache_usernames c \<and> cache_apikeys c' = cache_apikeys c \<and>
     cache_types c' = cache_types c \<and> tbl_user db' = tbl_user db \<and>
     tbl_indicator db' = tbl_indicator db \<and> tbl_indicator_type db' = tbl_indicator_type db"
proof (induction auto_create user_id items c db arbitrary: ns c' db'
    rule: cached_references.induct)
  case (1 auto_create user_id c db)
  then show ?case by simp
next
  case (2 auto_create user_id source reference items c db)
  from "2.prems" obtain n c1 db1 ms where
    head: "(case cache_references c (source @ reference) of
              Some n \<Rightarrow> Inr (n, c, db)
            | None \<Rightarrow>
                (case (case find_reference db source reference of
                         Some x \<Rightarrow> Inr (ref_id x, c, db)
                       | None \<Rightarrow>
                           if auto_create then
                             (case cached_lookup True [] source (cache_sources c)
                                     (tbl_intel_source db) of
                                Inl e \<Rightarrow> Inl e
                              | Inr (source_id, sources_cache, sources) \<Rightarrow>
                                  (let (n, db1) =
                                         add_reference (db\<lparr>tbl_intel_source := sources\<rparr>)
                                           reference source_id user_id
                                   in Inr (n, c\<lparr>cache_sources := sources_cache\<rparr>, db1)))
                           else Inl (Error_response 404
                                       (''Intel reference not found: '' @ reference)))
                 of
                   Inl e \<Rightarrow> Inl e
                 | Inr (n, c1, db1) \<Rightarrow>
                     Inr (n, c1\<lparr>cache_references :=
                                  (cache_references c1)(source @ reference \<mapsto> n)\<rparr>, db1)))
           = Inr (n, c1, db1)"
    and tail: "cached_references auto_create user_id items c1 db1 = Inr (ms, c', db')"
    by (simp split: sum.splits prod.splits)
  from head have step:
    "cache_usernames c1 = cache_usernames c \<and> cache_apikeys c1 = cache_apikeys c \<and>
     cache_types c1 = cache_types c \<and> tbl_user db1 = tbl_user db \<and>
     tbl_indicator db1 = tbl_indicator db \<and> tbl_indicator_type db1 = tbl_indicator_type db"
    by (auto simp: add_reference_def Let_def
        split: option.splits sum.splits prod.splits if_splits)
  from "2.IH" [OF head refl refl tail] step show ?case by simp
qed

lemma bulk_resolved_frame:
  assumes "bulk_resolved cfg now c db data usr type_id case_sensitive = Inr (c', db')"
  shows "cache_usernames c' = cache_usernames c \<and> cache_apikeys c' = cache_apikeys c \<and>
     cache_types c' = cache_types c \<and> tbl_user db' = tbl_user db \<and>
     set (tbl_indicator db) \<subseteq> set (tbl_indicator db') \<and>
     tbl_indicator_type db' = tbl_indicator_type db"
  using assms unfolding bulk_resolved_def Let_def
  by (auto simp: add_indicator_def Let_def dest!: cached_references_frame
      split: sum.splits prod.splits)

text \<open>One pass keeps the caches in agreement with the session, and the session grows.\<close>

lemma bulk_item_invariant:
  assumes agrees: "cache_agrees (fst st) (snd st)"
    and unique: "distinct (map snd (tbl_indicator_type (snd st)))"
    and item: "bulk_item cfg now apikey st data = Inr st'"
  shows "cache_agrees (fst st') (snd st') \<and> distinct (map snd (tbl_indicator_type (snd st'))) \<and>
         session_grows (snd st) (snd st')"
proof -
  obtain c db where st: "st = (c, db)" by (cases st)
  let ?cs = "case d_case_sensitive data of Some b \<Rightarrow> b | None \<Rightarrow> False"
  from item obtain usr c1 where
    cu: "cached_user db (d_username data) apikey c = Inr (usr, c1)" and active: "usr_active usr"
    by (auto simp: bulk_item_def st split: sum.splits prod.splits if_splits)
  from agrees have "cache_agrees c db" by (simp add: st)
  from cached_user_agrees [OF this, of "d_username data" apikey] cu
  have c1: "cache_agrees c1 db" "cache_types c1 = cache_types c" by auto
  from item cu active obtain tid tc types where
    cl: "cached_lookup (auto_create_indicatortype cfg) ''Indicator type not found: ''
           (d_type data) (cache_types c1) (tbl_indicator_type db) = Inr (tid, tc, types)"
    by (auto simp: bulk_item_def st split: sum.splits prod.splits)
  have "\<forall>v n. cache_types c1 v = Some n \<longrightarrow> by_value v (tbl_indicator_type db) = Some (n, v)"
    using c1(1) by (simp add: cache_agrees_def)
  from cached_lookup_agrees [OF this _ cl] unique
  have t: "\<forall>v n. tc v = Some n \<longrightarrow> by_value v types = Some (n, v)"
    "distinct (map snd types)" "set (tbl_indicator_type db) \<subseteq> set types"
    by (simp_all add: st)
  let ?c2 = "c1\<lparr>cache_types := tc\<rparr>"
  let ?db1 = "db\<lparr>tbl_indicator_type := types\<rparr>"
  have agrees1: "cache_agrees ?c2 ?db1"
    using c1(1) t(1) by (simp add: cache_agrees_def)
  have grows1: "session_grows db ?db1"
    using t(3) by (simp add: session_grows_def)
  from item cu active cl
  have rest: "(case existing_indicator ?db1 tid ?cs (d_value data) of
                 Some existing \<Rightarrow> Inr (?c2, ?db1)
               | None \<Rightarrow> bulk_resolved cfg now ?c2 ?db1 data usr tid ?cs) = Inr st'"
    by (simp add: bulk_item_def st Let_def)
  show ?thesis
  proof (cases "existing_indicator ?db1 tid ?cs (d_value data)")
    case (Some existing)
    with rest have "st' = (?c2, ?db1)" by simp
    then show ?thesis
      using agrees1 grows1 t(2) by (simp add: st)
  next
    case None
    obtain c' db' where st': "st' = (c', db')" by (cases st')
    from rest None have "bulk_resolved cfg now ?c2 ?db1 data usr tid ?cs = Inr (c', db')"
      by (simp add: st')
    from bulk_resolved_frame [OF this]
    have frame: "cache_usernames c' = cache_usernames ?c2" "cache_apikeys c' = cache_apikeys ?c2"
      "cache_types c' = cache_types ?c2" "tbl_user db' = tbl_user ?db1"
      "set (tbl_indicator ?db1) \<subseteq> set (tbl_indicator db')"
      "tbl_indicator_type db' = tbl_indicator_type ?db1"
      by simp_all
    have "cache_agrees c' db'"
      using agrees1 unfolding cache_agrees_def frame by simp
    moreover have "session_grows db db'"
      using grows1 frame by (simp add: session_grows_def)
    moreover have "distinct (map snd (tbl_indicator_type db'))"
      using t(2) frame by simp
    ultimately show ?thesis by (simp add: st st')
  qed
qed

lemma bulk_loop_invariant:
  assumes "cache_agrees (fst st) (snd st)"
    and "distinct (map snd (tbl_indicator_type (snd st)))"
    and "bulk_loop cfg now apikey st items = Inr st'"
  shows "cache_agrees (fst st') (snd st') \<and> distinct (map snd (tbl_indicator_type (snd st'))) \<and>
         session_grows (snd st) (snd st')"
  using assms
proof (induction items arbitrary: st)
  case Nil
  then show ?case by (simp add: session_grows_refl)
next
  case (Cons data items)
  from Cons.prems(3) obtain st1 where
    item: "bulk_item cfg now apikey st data = Inr st1"
    and rest: "bulk_loop cfg now apikey st1 items = Inr st'"
    by (auto split: sum.splits)
  from bulk_item_invariant [OF Cons.prems(1,2) item]
  have st1: "cache_agrees (fst st1) (snd st1)" "distinct (map snd (tbl_indicator_type (snd st1)))"
    "session_grows (snd st) (snd st1)"
    by simp_all
  from Cons.IH [OF st1(1,2) rest] st1(3) show ?case
    by (auto intro: session_grows_trans)
qed

lemma bulk_loop_append:
  "bulk_loop cfg now apikey st (xs @ ys)
     = (case bulk_loop cfg now apikey st xs of
          Inl e \<Rightarrow> Inl e
        | Inr st1 \<Rightarrow> bulk_loop cfg now apikey st1 ys)"
  by (induction xs arbitrary: st) (simp_all split: sum.splits)

lemma cache_agrees_empty: "cache_agrees empty_cache db"
  by (simp add: cache_agrees_def empty_cache_def)

lemma existing_indicator_dup:
  assumes "e \<in> set (tbl_indicator db)" "ind_type_id e = t"
    and "if cs then ind_value e = v else lower (ind_value e) = lower v"
  shows "\<exists>x. existing_indicator db t cs v = Some x"
proof (cases cs)
  case True
  then have "find (\<lambda>i. ind_type_id i = t \<and> ind_value i = v) (tbl_indicator db) \<noteq> None"
    using assms by (auto simp: find_None_iff)
  then show ?thesis using True by (auto simp: existing_indicator_def)
next
  case False
  then have "find (\<lambda>i. ind_type_id i = t \<and> lower (ind_value i) = lower v) (tbl_indicator db)
      \<noteq> None"
    using assms by (auto simp: find_None_iff)
  then show ?thesis using False by (auto simp: existing_indicator_def)
qed

lemma case_sensitive_flag:
  "(case d of Some b \<Rightarrow> b | None \<Rightarrow> False) = (d = Some True)"
  by (cases d) auto

text \<open>A pass over a duplicate, whatever the caches remember.\<close>

lemma bulk_item_duplicate:
  assumes agrees: "cache_agrees c db"
    and unique: "distinct (map snd (tbl_indicator_type db))"
    and usr: "find_user db (d_username data) apikey = Inr usr" "usr_active usr"
    and dup: "is_duplicate db data"
  shows "\<exists>c'. bulk_item cfg now apikey (c, db) data = Inr (c', db)"
proof -
  from dup obtain e where e: "e \<in> set (tbl_indicator db)"
    "(ind_type_id e, d_type data) \<in> set (tbl_indicator_type db)"
    "if d_case_sensitive data = Some True then ind_value e = d_value data
     else lower (ind_value e) = lower (d_value data)"
    by (auto simp: is_duplicate_def)
  have ty: "by_value (d_type data) (tbl_indicator_type db) = Some (ind_type_id e, d_type data)"
    by (rule by_value_unique [OF unique e(2)])
  have same: "db\<lparr>tbl_indicator_type := tbl_indicator_type db\<rparr> = db" by simp
  obtain x where x: "existing_indicator db (ind_type_id e) (d_case_sensitive data = Some True)
      (d_value data) = Some x"
    using existing_indicator_dup [OF e(1) refl e(3)] by blast
  from cached_user_agrees [OF agrees, of "d_username data" apikey] usr(1)
  obtain c1 where c1: "cached_user db (d_username data) apikey c = Inr (usr, c1)"
    "cache_agrees c1 db"
    by (auto split: sum.splits)
  have "\<exists>tc. cached_lookup (auto_create_indicatortype cfg) ''Indicator type not found: ''
           (d_type data) (cache_types c1) (tbl_indicator_type db)
         = Inr (ind_type_id e, tc, tbl_indicator_type db)"
  proof (cases "cache_types c1 (d_type data)")
    case None
    then show ?thesis by (simp add: cached_lookup_def resolve_lookup_def ty)
  next
    case (Some n)
    then have "by_value (d_type data) (tbl_indicator_type db) = Some (n, d_type data)"
      using c1(2) by (simp add: cache_agrees_def)
    with ty have "n = ind_type_id e" by simp
    with Some show ?thesis by (simp add: cached_lookup_def)
  qed
  then obtain tc where tc: "cached_lookup (auto_create_indicatortype cfg)
      ''Indicator type not found: '' (d_type data) (cache_types c1) (tbl_indicator_type db)
         = Inr (ind_type_id e, tc, tbl_indicator_type db)"
    by blast
  have "bulk_item cfg now apikey (c, db) data = Inr (c1\<lparr>cache_types := tc\<rparr>, db)"
    by (simp add: bulk_item_def c1(1) usr(2) tc case_sensitive_flag same x)
  then show ?thesis by blast
qed

text \<open>
  C7: when the types have unique values, the user of the request is found and active,
  and the request names a duplicate, \<^verbatim>\<open>POST /indicators\<close> answers 409 and the store
  stays as it was. As an item of \<^verbatim>\<open>POST /indicators/bulk\<close>, at any place of the
  batch, a request that names a duplicate of a stored indicator or of an indicator the
  items before it added to the session is skipped: when the items before it went
  through and left the caches \<open>c\<close> and the session \<open>session\<close>, the pass adds nothing
  to the session and returns no error, and the route goes on with the rest of the batch,
  whose outcome is the outcome of the whole call.
\<close>

theorem duplicate_rejected_or_skipped:
  assumes unique: "distinct (map snd (tbl_indicator_type db))"
    and usr: "find_user db (d_username data) apikey = Inr usr" "usr_active usr"
  shows "(is_duplicate db data \<longrightarrow>
            create_indicator cfg now apikey db data
              = (already_exists (d_case_sensitive data = Some True), db))
    \<and> (bulk_loop cfg now apikey (empty_cache, db) earlier = Inr (c, session)
         \<and> (is_duplicate db data \<or> is_duplicate session data) \<longrightarrow>
        (\<exists>c'. bulk_item cfg now apikey (c, session) data = Inr (c', session)
          \<and> create_indicators cfg now apikey db (earlier @ data # rest)
              = (case bulk_loop cfg now apikey (c', session) rest of
                   Inl e \<Rightarrow> (e, db)
                 | Inr st \<Rightarrow> (No_content, snd st))))"
proof -
  have single: "create_indicator cfg now apikey db data
           = (already_exists (d_case_sensitive data = Some True), db)"
    if dup: "is_duplicate db data"
  proof -
    from dup obtain e where e: "e \<in> set (tbl_indicator db)"
      "(ind_type_id e, d_type data) \<in> set (tbl_indicator_type db)"
      "if d_case_sensitive data = Some True then ind_value e = d_value data
       else lower (ind_value e) = lower (d_value data)"
      by (auto simp: is_duplicate_def)
    have ty: "by_value (d_type data) (tbl_indicator_type db) = Some (ind_type_id e, d_type data)"
      by (rule by_value_unique [OF unique e(2)])
    have same: "db\<lparr>tbl_indicator_type := tbl_indicator_type db\<rparr> = db" by simp
    obtain x where x: "existing_indicator db (ind_type_id e) (d_case_sensitive data = Some True)
        (d_value data) = Some x"
      using existing_indicator_dup [OF e(1) refl e(3)] by blast
    show ?thesis
      by (simp add: create_indicator_def usr resolve_lookup_def ty case_sensitive_flag same x)
  qed
  have bulk: "\<exists>c'. bulk_item cfg now apikey (c, session) data = Inr (c', session)
          \<and> create_indicators cfg now apikey db (earlier @ data # rest)
              = (case bulk_loop cfg now apikey (c', session) rest of
                   Inl e \<Rightarrow> (e, db)
                 | Inr st \<Rightarrow> (No_content, snd st))"
    if loop: "bulk_loop cfg now apikey (empty_cache, db) earlier = Inr (c, session)"
      and dup: "is_duplicate db data \<or> is_duplicate session data"
  proof -
    from bulk_loop_invariant [OF _ _ loop] unique
    have inv: "cache_agrees c session" "distinct (map snd (tbl_indicator_type session))"
      "session_grows db session"
      by (simp_all add: cache_agrees_empty)
    have dup': "is_duplicate session data"
      using dup is_duplicate_grows [OF inv(3)] by blast
    have usr': "find_user session (d_username data) apikey = Inr usr"
      using usr(1) by (simp add: find_user_grows [OF inv(3)])
    from bulk_item_duplicate [OF inv(1,2) usr' usr(2) dup']
    obtain c' where item: "bulk_item cfg now apikey (c, session) data = Inr (c', session)"
      by blast
    have "create_indicators cfg now apikey db (earlier @ data # rest)
              = (case bulk_loop cfg now apikey (c', session) rest of
                   Inl e \<Rightarrow> (e, db)
                 | Inr st \<Rightarrow> (No_content, snd st))"
      by (simp add: create_indicators_def bulk_loop_append loop item)
    with item show ?thesis by blast
  qed
  from single bulk show ?thesis by blast
qed

theorem duplicate_rejected_or_skipped_witness:
  "distinct (map snd (tbl_indicator_type example_db))
   \<and> is_duplicate example_db (example_create ''alice'' ''Domain'' ''EVIL.COM'')
   \<and> fst (create_indicator example_config 500 None example_db
            (example_create ''alice'' ''Domain'' ''EVIL.COM''))
       = Error_response 409 ''Case-insensitive indicator already exists''
   \<and> (\<exists>c session c'.
         bulk_loop example_config 500 None (empty_cache, example_db)
           [example_create ''alice'' ''Domain'' ''new.org''] = Inr (c, session)
         \<and> map ind_value (tbl_indicator session)
             = [''1.2.3.4'', ''5.6.7.8'', ''evil.com'', ''new.org'']
         \<and> bulk_item example_config 500 None (c, session)
             (example_create ''alice'' ''Domain'' ''EVIL.COM'') = Inr (c', session))
   \<and> fst (create_indicators example_config 500 None example_db
            [example_create ''alice'' ''Domain'' ''new.org'',
             example_create ''alice'' ''Domain'' ''EVIL.COM'',
             example_create ''alice'' ''Domain'' ''NEW.ORG'',
             example_create ''alice'' ''IP'' ''9.9.9.9'']) = No_content
   \<and> map ind_value (tbl_indicator (snd (create_indicators example_config 500 None example_db
            [example_create ''alice'' ''Domain'' ''new.org'',
             example_create ''alice'' ''Domain'' ''EVIL.COM'',
             example_create ''alice'' ''Domain'' ''NEW.ORG'',
             example_create ''alice'' ''IP'' ''9.9.9.9''])))
       = [''1.2.3.4'', ''5.6.7.8'', ''evil.com'', ''new.org'', ''9.9.9.9'']"
proof -
  have unique: "distinct (map snd (tbl_indicator_type example_db))"
    by (simp add: example_db_def)
  have alice: "find_user example_db (d_username (example_create ''alice'' ''Domain'' ''EVIL.COM''))
      None = Inr \<lparr>usr_id = 1, usr_username = ''alice'', usr_apikey = ''k1'', usr_active = True\<rparr>"
    by (simp add: find_user_def example_create_def example_db_def)
  have active: "usr_active \<lparr>usr_id = 1, usr_username = ''alice'', usr_apikey = ''k1'',
      usr_active = True\<rparr>"
    by simp
  have lower: "lower ''evil.com'' = lower ''EVIL.COM''"
    by code_simp
  have dup: "is_duplicate example_db (example_create ''alice'' ''Domain'' ''EVIL.COM'')"
    unfolding is_duplicate_def
    by (rule bexI [of _ "example_indicator 3 2 ''evil.com''"])
       (simp_all add: example_db_def example_indicator_def example_create_def lower)
  have "case bulk_loop example_config 500 None (empty_cache, example_db)
               [example_create ''alice'' ''Domain'' ''new.org''] of
          Inl e \<Rightarrow> False
        | Inr st \<Rightarrow> map ind_value (tbl_indicator (snd st))
                      = [''1.2.3.4'', ''5.6.7.8'', ''evil.com'', ''new.org'']"
    by code_simp
  then obtain c session where earlier:
    "bulk_loop example_config 500 None (empty_cache, example_db)
       [example_create ''alice'' ''Domain'' ''new.org''] = Inr (c, session)"
    "map ind_value (tbl_indicator session) = [''1.2.3.4'', ''5.6.7.8'', ''evil.com'', ''new.org'']"
    by (auto split: sum.splits)
  have bulk: "fst (create_indicators example_config 500 None example_db
            [example_create ''alice'' ''Domain'' ''new.org'',
             example_create ''alice'' ''Domain'' ''EVIL.COM'',
             example_create ''alice'' ''Domain'' ''NEW.ORG'',
             example_create ''alice'' ''IP'' ''9.9.9.9'']) = No_content"
    by code_simp
  have stored: "map ind_value (tbl_indicator (snd (create_indicators example_config 500 None
            example_db
            [example_create ''alice'' ''Domain'' ''new.org'',
             example_create ''alice'' ''Domain'' ''EVIL.COM'',
             example_create ''alice'' ''Domain'' ''NEW.ORG'',
             example_create ''alice'' ''IP'' ''9.9.9.9''])))
       = [''1.2.3.4'', ''5.6.7.8'', ''evil.com'', ''new.org'', ''9.9.9.9'']"
    by code_simp
  from duplicate_rejected_or_skipped [OF unique alice active, of example_config 500
      "[example_create ''alice'' ''Domain'' ''new.org'']" c session "[]"] dup earlier(1)
  have single: "fst (create_indicator example_config 500 None example_db
            (example_create ''alice'' ''Domain'' ''EVIL.COM''))
       = Error_response 409 ''Case-insensitive indicator already exists''"
    and skipped: "\<exists>c'. bulk_item example_config 500 None (c, session)
             (example_create ''alice'' ''Domain'' ''EVIL.COM'') = Inr (c', session)"
    by (auto simp: already_exists_def example_create_def)
  from skipped obtain c' where item: "bulk_item example_config 500 None (c, session)
             (example_create ''alice'' ''Domain'' ''EVIL.COM'') = Inr (c', session)" ..
  have "\<exists>c session c'.
         bulk_loop example_config 500 None (empty_cache, example_db)
           [example_create ''alice'' ''Domain'' ''new.org''] = Inr (c, session)
         \<and> map ind_value (tbl_indicator session)
             = [''1.2.3.4'', ''5.6.7.8'', ''evil.com'', ''new.org'']
         \<and> bulk_item example_config 500 None (c, session)
             (example_create ''alice'' ''Domain'' ''EVIL.COM'') = Inr (c', session)"
    by (rule exI [of _ c], rule exI [of _ session], rule exI [of _ c'])
       (intro conjI earlier item)
  with unique dup single bulk stored show ?thesis
    by simp
qed

text \<open>
  C8 fails on \<^verbatim>\<open>POST /intel/reference\<close>: the route never reads the \<^verbatim>\<open>active\<close> flag.
  When the source exists, the reference is new and the username is that of an inactive
  user, the reference is created, attributed to that user and committed, with answer
  201. \<^verbatim>\<open>POST /indicators\<close> does check the flag and answers 401.
\<close>

theorem intel_reference_ignores_active:
  assumes "by_value s (tbl_intel_source db) = Some src"
    and "find (\<lambda>x. ref_reference x = r \<and> ref_source_id x = fst src) (tbl_intel_reference db)
           = None"
    and "find (\<lambda>u. usr_username u = name) (tbl_user db) = Some usr"
    and "\<not> usr_active usr"
  shows "create_intel_reference db
           \<lparr>r_reference = Some r, r_source = Some s, r_username = Some name\<rparr>
     = (Created (fresh_id (map ref_id (tbl_intel_reference db))),
        db\<lparr>tbl_intel_reference := tbl_intel_reference db @
             [\<lparr>ref_id = fresh_id (map ref_id (tbl_intel_reference db)), ref_reference = r,
               ref_source_id = fst src, ref_user_id = usr_id usr\<rparr>]\<rparr>)"
  using assms by (simp add: create_intel_reference_def add_reference_def Let_def)

lemma inactive_user_rejected:
  assumes "find_user db (d_username data) apikey = Inr usr" and "\<not> usr_active usr"
  shows "create_indicator cfg now apikey db data
     = (Error_response 401 ''Cannot create an indicator with an inactive user'', db)"
  using assms by (simp add: create_indicator_def)

theorem intel_reference_ignores_active_witness:
  "by_value ''OSINT'' (tbl_intel_source example_db) = Some (1, ''OSINT'')
   \<and> find (\<lambda>u. usr_username u = ''bob'') (tbl_user example_db)
       = Some \<lparr>usr_id = 2, usr_username = ''bob'', usr_apikey = ''k2'', usr_active = False\<rparr>
   \<and> fst (create_intel_reference example_db
        \<lparr>r_reference = Some ''http://c'', r_source = Some ''OSINT'', r_username = Some ''bob''\<rparr>)
       = Created 3
   \<and> last (tbl_intel_reference (snd (create_intel_reference example_db
        \<lparr>r_reference = Some ''http://c'', r_source = Some ''OSINT'', r_username = Some ''bob''\<rparr>)))
       = \<lparr>ref_id = 3, ref_reference = ''http://c'', ref_source_id = 1, ref_user_id = 2\<rparr>
   \<and> fst (create_indicator example_config 500 None example_db
             (example_create ''bob'' ''Domain'' ''new.com''))
       = Error_response 401 ''Cannot create an indicator with an inactive user''"
proof -
  have src: "by_value ''OSINT'' (tbl_intel_source example_db) = Some (1, ''OSINT'')"
    by (simp add: by_value_def example_db_def)
  have new: "find (\<lambda>x. ref_reference x = ''http://c'' \<and> ref_source_id x = fst (1::nat, ''OSINT''))
               (tbl_intel_reference example_db) = None"
    by (simp add: example_db_def)
  have bob: "find (\<lambda>u. usr_username u = ''bob'') (tbl_user example_db)
       = Some \<lparr>usr_id = 2, usr_username = ''bob'', usr_apikey = ''k2'', usr_active = False\<rparr>"
    by (simp add: example_db_def)
  have fresh: "fresh_id (map ref_id (tbl_intel_reference example_db)) = 3"
    by (simp add: fresh_id_def example_db_def)
  have single: "fst (create_indicator example_config 500 None example_db
             (example_create ''bob'' ''Domain'' ''new.com''))
       = Error_response 401 ''Cannot create an indicator with an inactive user''"
    by code_simp
  have inactive: "\<not> usr_active
      \<lparr>usr_id = 2, usr_username = ''bob'', usr_apikey = ''k2'', usr_active = False\<rparr>"
    by simp
  from intel_reference_ignores_active [OF src new bob inactive]
  show ?thesis
    using src bob single by (simp add: fresh)
qed

lemma those_None: "None \<in> set xs \<Longrightarrow> those xs = None"
  by (induction xs) (auto split: option.splits)

lemma update_named_unknown:
  assumes "v \<in> set names" and "by_value v tbl = None"
  shows "update_named n (Some names) tbl assoc = Inl (Unhandled FlushError)"
proof -
  have "None \<in> set (map (\<lambda>v. map_option fst (by_value v tbl)) names)"
    using assms by force
  then have "those (map (\<lambda>v. map_option fst (by_value v tbl)) names) = None"
    by (rule those_None)
  moreover have "names \<noteq> []" using assms(1) by auto
  ultimately show ?thesis
    by (simp add: update_named_def replace_collection_def)
qed

text \<open>
  C9 fails on \<^verbatim>\<open>PUT /indicators/<id>\<close>: for a campaign name (and, in a request with
  tags only, a tag name) that is not found, the route builds the 404 answer and drops
  it, puts \<^verbatim>\<open>None\<close> in the collection, and ends in an unhandled \<^verbatim>\<open>FlushError\<close>
  instead of the 404; the store stays as it was. For an unknown reference the route
  does return the 404.
\<close>

theorem update_unknown_name_raises:
  assumes "find (\<lambda>i. ind_id i = n) (tbl_indicator db) = Some i" and "v \<in> set names"
  shows "(by_value v (tbl_campaign db) = None \<and> u_campaigns data = Some names \<longrightarrow>
            update_indicator parse_boolean db n data = (Unhandled FlushError, db))
       \<and> (by_value v (tbl_tag db) = None \<longrightarrow>
            update_indicator parse_boolean db n (no_update\<lparr>u_tags := Some names\<rparr>)
              = (Unhandled FlushError, db))"
proof -
  have campaigns: "update_indicator parse_boolean db n data = (Unhandled FlushError, db)"
    if "by_value v (tbl_campaign db) = None" "u_campaigns data = Some names"
    using update_named_unknown [OF assms(2) that(1)]
    by (simp add: update_indicator_def assms(1) that(2))
  have tags: "update_indicator parse_boolean db n (no_update\<lparr>u_tags := Some names\<rparr>)
      = (Unhandled FlushError, db)"
    if "by_value v (tbl_tag db) = None"
    using update_named_unknown [OF assms(2) that]
    by (simp add: update_indicator_def assms(1) no_update_def update_named_def
        update_lookup_def update_references_def update_flag_def)
  from campaigns tags show ?thesis by blast
qed

lemma example_update_campaign:
  "update_indicator keep_default example_db 1 (no_update\<lparr>u_campaigns := Some [''Nonexistent'']\<rparr>)
     = (Unhandled FlushError, example_db)"
  by code_simp

lemma example_update_reference:
  "fst (update_indicator keep_default example_db 1
          (no_update\<lparr>u_references := Some [(''OSINT'', ''http://zzz'')]\<rparr>))
     = Error_response 404 ''Intel reference not found: http://zzz''"
  by code_simp

theorem update_unknown_name_raises_witness:
  "find (\<lambda>i. ind_id i = 1) (tbl_indicator example_db) = Some (example_indicator 1 1 ''1.2.3.4'')
   \<and> ''Nonexistent'' \<in> set [''Nonexistent'']
   \<and> by_value ''Nonexistent'' (tbl_campaign example_db) = None
   \<and> update_indicator keep_default example_db 1
        (no_update\<lparr>u_campaigns := Some [''Nonexistent'']\<rparr>)
       = (Unhandled FlushError, example_db)
   \<and> fst (update_indicator keep_default example_db 1
             (no_update\<lparr>u_references := Some [(''OSINT'', ''http://zzz'')]\<rparr>))
       = Error_response 404 ''Intel reference not found: http://zzz''"
proof -
  have found: "find (\<lambda>i. ind_id i = 1) (tbl_indicator example_db)
      = Some (example_indicator 1 1 ''1.2.3.4'')"
    by (simp add: example_db_def example_indicator_def)
  have member: "''Nonexistent'' \<in> set [''Nonexistent'']" by simp
  have unknown: "by_value ''Nonexistent'' (tbl_campaign example_db) = None"
    by (simp add: by_value_def example_db_def)
  from update_unknown_name_raises [OF found member,
      where data = "no_update\<lparr>u_campaigns := Some [''Nonexistent'']\<rparr>"
        and parse_boolean = keep_default]
  have "update_indicator keep_default example_db 1
        (no_update\<lparr>u_campaigns := Some [''Nonexistent'']\<rparr>)
       = (Unhandled FlushError, example_db)"
    using unknown by (simp add: no_update_def)
  then show ?thesis
    using found member unknown example_update_reference by simp
qed

end
